(* ===== verification/Prelude.thy ===== *)
theory Prelude
  imports Complex_Main "HOL-Library.Word"
begin

section \<open>Shared types, outcomes and list lemmas\<close>

text \<open>
  What every component of the rover's C++ code shares in this development: the names of the
  machine-integer types, the result of a C++ operation that may also have undefined behaviour,
  end the process or throw, index loops over vectors, and the little-endian byte lemmas.
\<close>

unbundle bit_operations_syntax

type_synonym u8 = "8 word"
type_synonym u16 = "16 word"
type_synonym u32 = "32 word"
type_synonym u64 = "64 word"

subsection \<open>Outcomes of C++ operations\<close>

text \<open>
  \<open>Done\<close> is a normal return. \<open>Undefined\<close> is undefined behaviour (an index out of range, a
  floating-point value converted to an integer type that cannot hold it), \<open>Terminated\<close> is a call
  of \<open>std::terminate\<close>, \<open>Thrown\<close> is an exception that leaves the operation, with its type's name.
\<close>

datatype 'a outcome = Done 'a | Undefined | Terminated | Thrown string

fun and_then :: "'a outcome \<Rightarrow> ('a \<Rightarrow> 'b outcome) \<Rightarrow> 'b outcome" where
  "and_then (Done x) f = f x"
| "and_then Undefined f = Undefined"
| "and_then Terminated f = Terminated"
| "and_then (Thrown e) f = Thrown e"

lemma and_then_Done_iff: "and_then x f = Done y \<longleftrightarrow> (\<exists>z. x = Done z \<and> f z = Done y)"
  by (cases x) auto

lemma and_then_assoc: "and_then (and_then x f) g = and_then x (\<lambda>y. and_then (f y) g)"
  by (cases x) auto

text \<open>The operation returns or throws: no undefined behaviour and no end of the process.\<close>

fun no_ub :: "'a outcome \<Rightarrow> bool" where
  "no_ub Undefined = False"
| "no_ub Terminated = False"
| "no_ub x = True"

lemma no_ub_and_then: "no_ub x \<Longrightarrow> (\<And>y. x = Done y \<Longrightarrow> no_ub (f y)) \<Longrightarrow> no_ub (and_then x f)"
  by (cases x) auto

text \<open>\<open>v[i]\<close> on a \<open>std::vector\<close>: reading past the end is undefined behaviour.\<close>

definition vec_at :: "'a list \<Rightarrow> nat \<Rightarrow> 'a outcome" where
  "vec_at xs i = (if i < length xs then Done (xs ! i) else Undefined)"

lemma vec_at_in [simp]: "i < length xs \<Longrightarrow> vec_at xs i = Done (xs ! i)"
  by (simp add: vec_at_def)

lemma vec_at_out [simp]: "length xs \<le> i \<Longrightarrow> vec_at xs i = Undefined"
  by (simp add: vec_at_def)

text \<open>\<open>std::vector::resize\<close>: cut or padded with default-constructed elements.\<close>

definition vec_resize :: "nat \<Rightarrow> 'a \<Rightarrow> 'a list \<Rightarrow> 'a list" where
  "vec_resize n d xs = take n xs @ replicate (n - length xs) d"

lemma length_vec_resize [simp]: "length (vec_resize n d xs) = n"
  by (simp add: vec_resize_def)

text \<open>
  \<open>for (i : is) v[i] = f(i, v[i])\<close>: a loop that rewrites the elements of a vector one by one.
\<close>

fun for_each :: "(nat \<Rightarrow> 'a \<Rightarrow> 'a outcome) \<Rightarrow> nat list \<Rightarrow> 'a list \<Rightarrow> 'a list outcome" where
  "for_each f [] xs = Done xs"
| "for_each f (i # is) xs =
     and_then (vec_at xs i) (\<lambda>x. and_then (f i x) (\<lambda>y. for_each f is (xs[i := y])))"

lemma for_each_from:
  assumes "\<And>i. j \<le> i \<Longrightarrow> i < length xs \<Longrightarrow> f i (xs ! i) = Done (g i)" "j \<le> length xs"
  shows "for_each f [j..<length xs] xs = Done (take j xs @ map g [j..<length xs])"
  using assms
proof (induction "length xs - j" arbitrary: j xs)
  case 0
  then show ?case by simp
next
  case (Suc n)
  then have j: "j < length xs" by simp
  let ?xs = "xs[j := g j]"
  have "for_each f [j..<length xs] xs = for_each f [Suc j..<length ?xs] ?xs"
    using j Suc.prems(1) [of j] by (simp add: upt_conv_Cons)
  also have "\<dots> = Done (take (Suc j) ?xs @ map g [Suc j..<length ?xs])"
    using Suc.hyps(2) Suc.prems j by (intro Suc.hyps(1)) auto
  also have "\<dots> = Done (take j xs @ map g [j..<length xs])"
    using j by (simp add: take_Suc_conv_app_nth upt_conv_Cons)
  finally show ?case .
qed

lemma for_each_all:
  assumes "\<And>i. i < length xs \<Longrightarrow> f i (xs ! i) = Done (g i)"
  shows "for_each f [0..<length xs] xs = Done (map g [0..<length xs])"
  using for_each_from [of 0 xs f g] assms by simp

lemma map_upt_nth2: "length xs = length ys \<Longrightarrow>
    map (\<lambda>i. f (xs ! i) (ys ! i)) [0..<length ys] = map2 f xs ys"
  by (rule nth_equalityI) auto

text \<open>The last error message written through an \<open>std::string * error\<close> parameter.\<close>

definition later_error :: "'e option \<Rightarrow> 'e option \<Rightarrow> 'e option" where
  "later_error e1 e2 = (case e2 of None \<Rightarrow> e1 | Some e \<Rightarrow> Some e)"

lemma later_error_simps [simp]:
  "later_error e None = e" "later_error e (Some x) = Some x" "later_error None e = e"
  by (simp_all add: later_error_def split: option.splits)

lemma div_mod_scaled:
  fixes a b r :: int
  assumes "0 \<le> r" "r < b"
  shows "(a * b + r) div b = a" "(a * b + r) mod b = r"
  using assms by (simp_all add: div_pos_pos_trivial mod_pos_pos_trivial)

subsection \<open>Little-endian bytes of a 32-bit word\<close>

definition byte_of :: "nat \<Rightarrow> u32 \<Rightarrow> u8" where
  "byte_of i w = ucast (drop_bit (8 * i) w)"

definition le_bytes :: "u32 \<Rightarrow> u8 list" where
  "le_bytes w = [byte_of 0 w, byte_of 1 w, byte_of 2 w, byte_of 3 w]"

lemma length_le_bytes [simp]: "length (le_bytes w) = 4"
  by (simp add: le_bytes_def)

lemma bit_byte_of: "bit (byte_of i w) n \<longleftrightarrow> n < 8 \<and> bit w (8 * i + n)"
  by (auto simp: byte_of_def bit_simps)

lemma high_bits_unset:
  assumes "uint w < 2 ^ n" "n \<le> i"
  shows "\<not> bit w i"
proof
  assume "bit w i"
  then have "bit (uint w) i" by (simp add: bit_uint_iff bit_imp_le_length)
  moreover have "take_bit n (uint w) = uint w" using assms(1) by (simp add: take_bit_int_eq_self)
  ultimately show False using assms(2) by (metis bit_take_bit_iff not_le)
qed

lemma bit_low_mask: "m = mask n \<Longrightarrow> bit (m :: int) i \<longleftrightarrow> i < n"
  by (simp add: bit_mask_iff)

lemma bit_31: "bit (31 :: int) i \<longleftrightarrow> i < 5"
  and bit_63: "bit (63 :: int) i \<longleftrightarrow> i < 6"
  and bit_127: "bit (127 :: int) i \<longleftrightarrow> i < 7"
  and bit_2047: "bit (2047 :: int) i \<longleftrightarrow> i < 11"
  by (rule bit_low_mask, simp add: mask_eq_exp_minus_1)+

lemma bit_1920: "bit (1920 :: int) i \<longleftrightarrow> 7 \<le> i \<and> i < 11"
proof -
  have e: "(1920 :: int) = push_bit 7 (mask 4)" by (simp add: mask_eq_exp_minus_1 push_bit_eq_mult)
  show ?thesis by (subst e) (auto simp: bit_push_bit_iff bit_mask_iff)
qed

lemma bit_512: "bit (512 :: int) i \<longleftrightarrow> i = 9"
proof -
  have e: "(512 :: int) = push_bit 9 1" by (simp add: push_bit_eq_mult)
  show ?thesis unfolding e bit_push_bit_iff bit_1_iff by auto
qed

lemma word32_of_bytes:
  "ucast (byte_of 0 w) OR push_bit 8 (ucast (byte_of 1 w)) OR
   push_bit 16 (ucast (byte_of 2 w)) OR push_bit 24 (ucast (byte_of 3 w)) = (w :: u32)"
  (is "?l = _")
proof (rule bit_word_eqI)
  fix n :: nat
  assume "n < LENGTH(32)"
  then consider "n < 8" | "8 \<le> n" "n < 16" | "16 \<le> n" "n < 24" | "24 \<le> n" "n < 32"
    by fastforce
  then show "bit ?l n \<longleftrightarrow> bit w n"
    by cases (auto simp: bit_simps bit_byte_of)
qed

lemma word16_of_bytes:
  fixes v :: u16
  shows "ucast (byte_of 0 (ucast v)) OR push_bit 8 (ucast (byte_of 1 (ucast v))) = (ucast v :: u32)"
    (is "?l = ?w")
proof (rule bit_word_eqI)
  fix n :: nat
  assume "n < LENGTH(32)"
  then consider "n < 8" | "8 \<le> n" "n < 16" | "16 \<le> n" "n < 32"
    by fastforce
  then show "bit ?l n \<longleftrightarrow> bit ?w n"
    by cases (auto simp: bit_simps bit_byte_of dest: bit_imp_le_length)
qed

end
