(* ===== verification/IEEE754.thy ===== *)
theory IEEE754
  imports Prelude "HOL-Library.Log_Nat"
begin

section \<open>IEEE 754 binary arithmetic, executable\<close>

text \<open>
  The \<open>float\<close> and \<open>double\<close> arithmetic of the C++ code: binary formats with a precision and an
  exponent range, values with a sign, an exact rational magnitude, infinities and one NaN, and the
  operations rounded to nearest, ties to even, as IEEE 754 prescribes and the target compilers
  implement. Signed zeros are kept, subnormals and overflow are rounded as the standard says. The
  lemmas: a representable value is a fixed point of rounding, rounding is monotone, its error is
  at most half a unit in the last place, and a bound on the error of chains of multiplications
  and divisions.
\<close>

subsection \<open>Powers of two and the binary logarithm\<close>

abbreviation pow2 :: "int \<Rightarrow> rat" where
  "pow2 e \<equiv> 2 powi e"

definition ilog2 :: "rat \<Rightarrow> int" where
  "ilog2 m = (case quotient_of m of (a, b) \<Rightarrow>
     let k = bitlen a - bitlen b in if pow2 k \<le> m then k else k - 1)"

lemma pow2_pos [simp]: "0 < pow2 e" "0 \<le> pow2 e"
  by simp_all

lemma pow2_add: "pow2 (a + b) = pow2 a * pow2 b"
  by (simp add: power_int_add)

lemma pow2_diff: "pow2 (a - b) = pow2 a / pow2 b"
  by (simp add: power_int_diff)

lemma pow2_le_iff [simp]: "pow2 a \<le> pow2 b \<longleftrightarrow> a \<le> b"
  by (meson linorder_not_le one_less_numeral_iff power_int_increasing power_int_strict_increasing
      semiring_norm(76) one_le_numeral)

lemma pow2_less_iff [simp]: "pow2 a < pow2 b \<longleftrightarrow> a < b"
  by (simp add: not_le [symmetric])

lemma bitlen_bounds_rat:
  assumes "0 < a"
  shows "pow2 (bitlen a - 1) \<le> of_int a" "of_int a < pow2 (bitlen a)"
proof -
  have ge: "1 \<le> bitlen a"
    using assms bitlen_bounds [of a] by (cases "bitlen a \<le> 0") auto
  have b: "2 ^ nat (bitlen a - 1) \<le> a" "a < 2 ^ nat (bitlen a)"
    using bitlen_bounds [OF assms] by auto
  have "(of_int (2 ^ nat (bitlen a - 1)) :: rat) \<le> of_int a"
    using b(1) by (simp only: of_int_le_iff)
  then show "pow2 (bitlen a - 1) \<le> of_int a"
    using ge by (simp add: power_int_nonneg_exp)
  have "(of_int a :: rat) < of_int (2 ^ nat (bitlen a))"
    using b(2) by (simp only: of_int_less_iff)
  then show "of_int a < pow2 (bitlen a)"
    using ge by (simp add: power_int_nonneg_exp)
qed

lemma ilog2_bounds:
  assumes "0 < m"
  shows "pow2 (ilog2 m) \<le> m" "m < pow2 (ilog2 m + 1)"
proof -
  obtain a b where ab: "quotient_of m = (a, b)" by force
  have m: "m = of_int a / of_int b" and b: "0 < b"
    using quotient_of_div [OF ab] quotient_of_denom_pos [OF ab] by auto
  have a: "0 < a"
    using assms b by (simp add: m zero_less_divide_iff)
  define k where "k = bitlen a - bitlen b"
  have "m < pow2 (bitlen a) / pow2 (bitlen b - 1)"
    unfolding m using bitlen_bounds_rat [OF a] bitlen_bounds_rat [OF b] a b
    by (intro frac_less) auto
  then have up: "m < pow2 (k + 1)"
    by (simp add: k_def pow2_diff [symmetric] algebra_simps)
  have "pow2 (bitlen a - 1) / pow2 (bitlen b) < m"
    unfolding m using bitlen_bounds_rat [OF a] bitlen_bounds_rat [OF b] a b
    by (intro frac_less2) auto
  then have lo: "pow2 (k - 1) < m"
    by (simp add: k_def pow2_diff [symmetric] algebra_simps)
  have eq: "ilog2 m = (if pow2 k \<le> m then k else k - 1)"
    by (simp add: ilog2_def ab k_def)
  show "pow2 (ilog2 m) \<le> m" "m < pow2 (ilog2 m + 1)"
    using up lo by (auto simp: eq)
qed

lemma ilog2_unique:
  assumes "pow2 k \<le> m" "m < pow2 (k + 1)"
  shows "ilog2 m = k"
proof -
  have m: "0 < m" using assms(1) pow2_pos(1) [of k] by linarith
  have "pow2 (ilog2 m) < pow2 (k + 1)" "pow2 k < pow2 (ilog2 m + 1)"
    using ilog2_bounds [OF m] assms by linarith+
  then have "ilog2 m < k + 1" "k < ilog2 m + 1"
    by (simp_all only: pow2_less_iff)
  then show ?thesis by linarith
qed

lemma ilog2_mono: "0 < a \<Longrightarrow> a \<le> b \<Longrightarrow> ilog2 a \<le> ilog2 b"
proof -
  assume "0 < a" "a \<le> b"
  then have "pow2 (ilog2 a) < pow2 (ilog2 b + 1)"
    using ilog2_bounds(1) [of a] ilog2_bounds(2) [of b] by linarith
  then show ?thesis by simp
qed

lemma ilog2_pow2 [simp]: "ilog2 (pow2 k) = k"
  by (rule ilog2_unique) auto

definition round_even :: "rat \<Rightarrow> int" where
  "round_even q = (let f = \<lfloor>q\<rfloor>; d = q - of_int f in
     if d < 1 / 2 then f else if 1 / 2 < d then f + 1 else if even f then f else f + 1)"

lemma round_even_of_int [simp]: "round_even (of_int n) = n"
  by (simp add: round_even_def)

lemma round_even_floor: "round_even q = \<lfloor>q\<rfloor> \<or> round_even q = \<lfloor>q\<rfloor> + 1"
  by (simp add: round_even_def Let_def)

lemma round_even_error: "\<bar>of_int (round_even q) - q\<bar> \<le> 1 / 2"
proof -
  have "of_int \<lfloor>q\<rfloor> \<le> q" "q < of_int \<lfloor>q\<rfloor> + 1"
    by linarith+
  then show ?thesis
    by (auto simp: round_even_def Let_def abs_le_iff)
qed

lemma round_even_mono:
  assumes "a \<le> b"
  shows "round_even a \<le> round_even b"
proof (cases "\<lfloor>a\<rfloor> = \<lfloor>b\<rfloor>")
  case True
  then show ?thesis
    using assms by (auto simp: round_even_def Let_def)
next
  case False
  then have "\<lfloor>a\<rfloor> + 1 \<le> \<lfloor>b\<rfloor>"
    using floor_mono [OF assms] by linarith
  then show ?thesis
    using round_even_floor [of a] round_even_floor [of b] by auto
qed

lemma round_even_le_int: "q \<le> of_int n \<Longrightarrow> round_even q \<le> n"
  using round_even_mono [of q "of_int n"] by simp

lemma round_even_ge_int: "of_int n \<le> q \<Longrightarrow> n \<le> round_even q"
  using round_even_mono [of "of_int n" q] by simp

subsection \<open>Formats and rounding of magnitudes\<close>

record fmt =
  prec :: nat
  emin :: int
  emax :: int

definition binary32 :: fmt where
  "binary32 = \<lparr>prec = 24, emin = -126, emax = 127\<rparr>"

definition binary64 :: fmt where
  "binary64 = \<lparr>prec = 53, emin = -1022, emax = 1023\<rparr>"

lemma binary32_simps [simp]: "prec binary32 = 24" "emin binary32 = -126" "emax binary32 = 127"
  by (simp_all add: binary32_def)

lemma binary64_simps [simp]: "prec binary64 = 53" "emin binary64 = -1022" "emax binary64 = 1023"
  by (simp_all add: binary64_def)

definition wf_fmt :: "fmt \<Rightarrow> bool" where
  "wf_fmt F \<longleftrightarrow> 1 \<le> prec F \<and> emin F \<le> 0 \<and> int (prec F) \<le> emax F"

lemma wf_binary [simp, intro!]: "wf_fmt binary32" "wf_fmt binary64"
  by (simp_all add: wf_fmt_def)

text \<open>The exponent of the unit in the last place of the binade of \<open>m\<close>.\<close>

definition ulp_exp :: "fmt \<Rightarrow> rat \<Rightarrow> int" where
  "ulp_exp F m = max (emin F) (ilog2 m) - (int (prec F) - 1)"

definition round_mag :: "fmt \<Rightarrow> rat \<Rightarrow> rat" where
  "round_mag F m = (if m = 0 then 0
     else let e = ulp_exp F m in of_int (round_even (m / pow2 e)) * pow2 e)"

definition representable :: "fmt \<Rightarrow> rat \<Rightarrow> bool" where
  "representable F m \<longleftrightarrow> (\<exists>n e. 0 \<le> n \<and> n \<le> 2 ^ prec F \<and>
     emin F - (int (prec F) - 1) \<le> e \<and> m = of_int n * pow2 e)"

lemma representableI:
  "0 \<le> n \<Longrightarrow> n \<le> 2 ^ prec F \<Longrightarrow> emin F - (int (prec F) - 1) \<le> e \<Longrightarrow> m = of_int n * pow2 e \<Longrightarrow>
   representable F m"
  by (auto simp: representable_def)

lemma scaled_bounds:
  assumes "0 < m"
  shows "0 < m / pow2 (ulp_exp F m)" "m / pow2 (ulp_exp F m) < 2 ^ prec F"
proof -
  show "0 < m / pow2 (ulp_exp F m)" using assms by simp
  have "m < pow2 (ilog2 m + 1)" by (rule ilog2_bounds(2) [OF assms])
  also have "\<dots> \<le> pow2 (ulp_exp F m + int (prec F))" by (simp add: ulp_exp_def)
  also have "\<dots> = pow2 (ulp_exp F m) * 2 ^ prec F" by (simp add: pow2_add)
  finally show "m / pow2 (ulp_exp F m) < 2 ^ prec F"
    by (simp add: pos_divide_less_eq mult.commute)
qed

lemma round_mag_nonneg: "0 \<le> m \<Longrightarrow> 0 \<le> round_mag F m"
  using round_even_ge_int [of 0 "m / pow2 (ulp_exp F m)"]
  by (auto simp: round_mag_def Let_def)

lemma representable_round_mag:
  assumes "wf_fmt F" "0 \<le> m"
  shows "representable F (round_mag F m)"
proof (cases "m = 0")
  case True
  have "representable F 0"
    by (rule representableI [where n = 0 and e = "emin F"]) (use assms in \<open>auto simp: wf_fmt_def\<close>)
  with True show ?thesis by (simp add: round_mag_def)
next
  case False
  then have m: "0 < m" using assms by simp
  let ?q = "m / pow2 (ulp_exp F m)"
  have "0 \<le> round_even ?q" "round_even ?q \<le> 2 ^ prec F"
    using scaled_bounds [OF m, of F] round_even_ge_int [of 0 ?q]
      round_even_le_int [of ?q "2 ^ prec F"] by simp_all
  then show ?thesis
    by (rule representableI [where e = "ulp_exp F m"]) (use False in \<open>auto simp: ulp_exp_def round_mag_def Let_def\<close>)
qed

lemma pow2_int: "0 \<le> k \<Longrightarrow> pow2 k = of_int (2 ^ nat k)"
  by (simp add: power_int_nonneg_exp)

lemma round_mag_representable:
  assumes F: "wf_fmt F" and r: "representable F m"
  shows "round_mag F m = m"
proof -
  obtain n k where n: "0 \<le> n" "n \<le> 2 ^ prec F" and k: "emin F - (int (prec F) - 1) \<le> k"
    and m: "m = of_int n * pow2 k"
    using r by (auto simp: representable_def)
  show ?thesis
  proof (cases "n = 0")
    case True
    then show ?thesis by (simp add: m round_mag_def)
  next
    case False
    then have m0: "0 < m" using n m by simp
    let ?e = "ulp_exp F m"
    have "\<exists>j. m / pow2 ?e = of_int j"
    proof (cases "n = 2 ^ prec F")
      case True
      have m': "m = pow2 (int (prec F) + k)" by (simp add: m True pow2_add)
      have "?e = k + 1" using F k by (simp add: ulp_exp_def m' wf_fmt_def)
      then have "m / pow2 ?e = pow2 (int (prec F) - 1)"
        by (simp add: m' pow2_diff [symmetric] algebra_simps)
      then show ?thesis using F pow2_int [of "int (prec F) - 1"] by (auto simp: wf_fmt_def)
    next
      case False
      then have "n < 2 ^ prec F" using n by simp
      then have "(of_int n :: rat) < of_int (2 ^ prec F)" by (simp only: of_int_less_iff)
      then have "m < pow2 (int (prec F) + k)" by (simp add: m pow2_add)
      then have "pow2 (ilog2 m) < pow2 (int (prec F) + k)"
        using ilog2_bounds(1) [OF m0] by linarith
      then have le: "?e \<le> k" using k by (simp add: ulp_exp_def)
      have "m / pow2 ?e = of_int n * pow2 (k - ?e)" by (simp add: m pow2_diff)
      also have "\<dots> = of_int (n * 2 ^ nat (k - ?e))" using le by (simp add: power_int_nonneg_exp)
      finally show ?thesis by blast
    qed
    then obtain j where j: "m / pow2 ?e = of_int j" by blast
    then have "of_int j * pow2 ?e = m" by (simp add: field_simps)
    then show ?thesis using m0 by (simp add: round_mag_def Let_def j)
  qed
qed

lemma round_mag_idem: "wf_fmt F \<Longrightarrow> 0 \<le> m \<Longrightarrow> round_mag F (round_mag F m) = round_mag F m"
  by (simp add: round_mag_representable representable_round_mag)

lemma round_mag_error:
  assumes "0 < m"
  shows "\<bar>round_mag F m - m\<bar> \<le> pow2 (ulp_exp F m) / 2"
proof -
  let ?e = "ulp_exp F m" and ?q = "m / pow2 (ulp_exp F m)"
  have "round_mag F m - m = (of_int (round_even ?q) - ?q) * pow2 ?e"
    using assms by (simp add: round_mag_def Let_def field_simps)
  then have "\<bar>round_mag F m - m\<bar> = \<bar>of_int (round_even ?q) - ?q\<bar> * pow2 ?e"
    by (simp add: abs_mult)
  also have "\<dots> \<le> 1 / 2 * pow2 ?e"
    by (intro mult_right_mono round_even_error) simp
  finally show ?thesis by simp
qed

lemma round_mag_rel_error:
  assumes "pow2 (emin F) \<le> m"
  shows "\<bar>round_mag F m - m\<bar> \<le> m * pow2 (- int (prec F))"
proof -
  have m: "0 < m" using assms pow2_pos(1) [of "emin F"] by linarith
  have "pow2 (emin F) < pow2 (ilog2 m + 1)" using assms ilog2_bounds(2) [OF m] by linarith
  then have "ulp_exp F m = ilog2 m - (int (prec F) - 1)" by (simp add: ulp_exp_def)
  then have "ulp_exp F m - 1 = ilog2 m + (- int (prec F))" by simp
  then have "pow2 (ulp_exp F m - 1) = pow2 (ilog2 m) * pow2 (- int (prec F))"
    by (simp only: pow2_add)
  then have "pow2 (ulp_exp F m) / 2 = pow2 (ilog2 m) * pow2 (- int (prec F))"
    by (simp add: pow2_diff)
  also have "\<dots> \<le> m * pow2 (- int (prec F))"
    by (intro mult_right_mono ilog2_bounds(1) [OF m]) simp
  finally show ?thesis using round_mag_error [OF m, of F] by linarith
qed

lemma round_mag_mono:
  assumes F: "wf_fmt F" and a: "0 \<le> a" and ab: "a \<le> b"
  shows "round_mag F a \<le> round_mag F b"
proof (cases "a = 0")
  case True
  then show ?thesis using round_mag_nonneg [of b F] a ab by (simp add: round_mag_def)
next
  case False
  then have a0: "0 < a" and b0: "0 < b" using a ab by auto
  have l: "ilog2 a \<le> ilog2 b" by (rule ilog2_mono [OF a0 ab])
  show ?thesis
  proof (cases "ulp_exp F a = ulp_exp F b")
    case True
    have "round_even (a / pow2 (ulp_exp F b)) \<le> round_even (b / pow2 (ulp_exp F b))"
      by (intro round_even_mono divide_right_mono ab) simp
    then show ?thesis
      using a0 b0 True by (simp add: round_mag_def Let_def)
  next
    case False
    then have lt: "ulp_exp F a < ulp_exp F b" and eb: "ulp_exp F b = ilog2 b - (int (prec F) - 1)"
      using l by (auto simp: ulp_exp_def max_def split: if_splits)
    have "round_even (a / pow2 (ulp_exp F a)) \<le> 2 ^ prec F"
      by (rule round_even_le_int) (use scaled_bounds(2) [OF a0, of F] in simp)
    then have "(of_int (round_even (a / pow2 (ulp_exp F a))) :: rat) \<le> of_int (2 ^ prec F)"
      by (simp only: of_int_le_iff)
    then have "round_mag F a \<le> 2 ^ prec F * pow2 (ulp_exp F a)"
      using a0 by (simp add: round_mag_def Let_def)
    also have "\<dots> = pow2 (int (prec F) + ulp_exp F a)" by (simp add: pow2_add)
    also have "\<dots> \<le> pow2 (ilog2 b)" using lt eb by simp
    also have "\<dots> \<le> round_mag F b"
    proof -
      have p: "0 \<le> int (prec F) - 1" using F by (simp add: wf_fmt_def)
      have "pow2 (int (prec F) - 1) = pow2 (ilog2 b) / pow2 (ulp_exp F b)"
        by (simp add: eb pow2_diff [symmetric])
      also have "\<dots> \<le> b / pow2 (ulp_exp F b)"
        by (intro divide_right_mono ilog2_bounds(1) [OF b0]) simp
      finally have "2 ^ nat (int (prec F) - 1) \<le> round_even (b / pow2 (ulp_exp F b))"
        using p by (intro round_even_ge_int) (simp add: pow2_int)
      then have "(of_int (2 ^ nat (int (prec F) - 1)) :: rat)
          \<le> of_int (round_even (b / pow2 (ulp_exp F b)))"
        by (simp only: of_int_le_iff)
      then have "pow2 (int (prec F) - 1) * pow2 (ulp_exp F b)
          \<le> of_int (round_even (b / pow2 (ulp_exp F b))) * pow2 (ulp_exp F b)"
        using p by (intro mult_right_mono) (simp_all add: pow2_int)
      then show ?thesis
        using b0 by (simp add: round_mag_def Let_def eb pow2_add [symmetric])
    qed
    finally show ?thesis .
  qed
qed

subsection \<open>Values and operations\<close>

text \<open>
  \<open>FFin s m\<close> is the number with sign bit \<open>s\<close> and magnitude \<open>m\<close> (both zeros are there);
  \<open>FNaN\<close> stands for every NaN: the code only ever tests for NaN and never looks at its payload.
\<close>

datatype fp = FNaN | FInf bool | FFin bool rat

definition signed :: "bool \<Rightarrow> rat \<Rightarrow> rat" where
  "signed s m = (if s then - m else m)"

lemma signed_abs [simp]: "\<bar>signed s m\<bar> = \<bar>m\<bar>"
  by (simp add: signed_def)

lemma signed_zero_iff [simp]: "signed s m = 0 \<longleftrightarrow> m = 0"
  by (simp add: signed_def)

definition fround :: "fmt \<Rightarrow> bool \<Rightarrow> rat \<Rightarrow> fp" where
  "fround F s m = (let r = round_mag F m in
     if r < pow2 (emax F + 1) then FFin s r else FInf s)"

fun fneg :: "fp \<Rightarrow> fp" where
  "fneg FNaN = FNaN"
| "fneg (FInf s) = FInf (\<not> s)"
| "fneg (FFin s m) = FFin (\<not> s) m"

fun fadd :: "fmt \<Rightarrow> fp \<Rightarrow> fp \<Rightarrow> fp" where
  "fadd F (FFin s a) (FFin t b) =
     (let v = signed s a + signed t b in
      if v = 0 then FFin (s \<and> t) 0 else fround F (v < 0) \<bar>v\<bar>)"
| "fadd F FNaN y = FNaN"
| "fadd F x FNaN = FNaN"
| "fadd F (FInf s) (FInf t) = (if s = t then FInf s else FNaN)"
| "fadd F (FInf s) y = FInf s"
| "fadd F x (FInf t) = FInf t"

definition fsub :: "fmt \<Rightarrow> fp \<Rightarrow> fp \<Rightarrow> fp" where
  "fsub F x y = fadd F x (fneg y)"

fun fmul :: "fmt \<Rightarrow> fp \<Rightarrow> fp \<Rightarrow> fp" where
  "fmul F (FFin s a) (FFin t b) = fround F (s \<noteq> t) (a * b)"
| "fmul F FNaN y = FNaN"
| "fmul F x FNaN = FNaN"
| "fmul F (FInf s) (FInf t) = FInf (s \<noteq> t)"
| "fmul F (FInf s) (FFin t b) = (if b = 0 then FNaN else FInf (s \<noteq> t))"
| "fmul F (FFin s a) (FInf t) = (if a = 0 then FNaN else FInf (s \<noteq> t))"

fun fdiv :: "fmt \<Rightarrow> fp \<Rightarrow> fp \<Rightarrow> fp" where
  "fdiv F (FFin s a) (FFin t b) =
     (if b = 0 then (if a = 0 then FNaN else FInf (s \<noteq> t)) else fround F (s \<noteq> t) (a / b))"
| "fdiv F FNaN y = FNaN"
| "fdiv F x FNaN = FNaN"
| "fdiv F (FInf s) (FInf t) = FNaN"
| "fdiv F (FInf s) (FFin t b) = FInf (s \<noteq> t)"
| "fdiv F (FFin s a) (FInf t) = FFin (s \<noteq> t) 0"

text \<open>Comparisons: every comparison with a NaN is false, and \<open>-0 = +0\<close>.\<close>

fun flt :: "fp \<Rightarrow> fp \<Rightarrow> bool" where
  "flt FNaN y = False"
| "flt x FNaN = False"
| "flt (FInf s) (FInf t) = (s \<and> \<not> t)"
| "flt (FInf s) (FFin t b) = s"
| "flt (FFin s a) (FInf t) = (\<not> t)"
| "flt (FFin s a) (FFin t b) = (signed s a < signed t b)"

fun feq :: "fp \<Rightarrow> fp \<Rightarrow> bool" where
  "feq (FInf s) (FInf t) = (s = t)"
| "feq (FFin s a) (FFin t b) = (signed s a = signed t b)"
| "feq x y = False"

definition fle :: "fp \<Rightarrow> fp \<Rightarrow> bool" where
  "fle x y \<longleftrightarrow> flt x y \<or> feq x y"

definition fisnan :: "fp \<Rightarrow> bool" where
  "fisnan x \<longleftrightarrow> x = FNaN"

fun fisfinite :: "fp \<Rightarrow> bool" where
  "fisfinite (FFin s m) = True"
| "fisfinite x = False"

text \<open>
  Conversions: an integer to a format, one format to another, a decimal literal, \<open>std::lround\<close>
  (half away from zero; its result is unspecified when it does not fit \<open>long\<close>), and the
  truncating conversion to \<open>int\<close> (undefined behaviour when the value does not fit).
\<close>

definition fzero :: fp where
  "fzero = FFin False 0"

definition fof_int :: "fmt \<Rightarrow> int \<Rightarrow> fp" where
  "fof_int F i = fround F (i < 0) (of_int \<bar>i\<bar>)"

fun fconv :: "fmt \<Rightarrow> fp \<Rightarrow> fp" where
  "fconv F (FFin s m) = fround F s m"
| "fconv F x = x"

definition dlit :: "rat \<Rightarrow> fp" where
  "dlit q = fround binary64 (q < 0) \<bar>q\<bar>"

fun flround :: "fp \<Rightarrow> int option" where
  "flround (FFin s m) = (let n = \<lfloor>m + 1 / 2\<rfloor>; i = (if s then - n else n) in
     if - (2 ^ 63) \<le> i \<and> i < 2 ^ 63 then Some i else None)"
| "flround x = None"

fun ftrunc_int32 :: "fp \<Rightarrow> int outcome" where
  "ftrunc_int32 (FFin s m) = (let i = (if s then - \<lfloor>m\<rfloor> else \<lfloor>m\<rfloor>) in
     if - (2 ^ 31) \<le> i \<and> i < 2 ^ 31 then Done i else Undefined)"
| "ftrunc_int32 x = Undefined"

subsection \<open>Well-formed values\<close>

fun fp_ok :: "fmt \<Rightarrow> fp \<Rightarrow> bool" where
  "fp_ok F (FFin s m) = (0 \<le> m \<and> round_mag F m = m \<and> m < pow2 (emax F + 1))"
| "fp_ok F x = True"

text \<open>For evaluation, the overflow test compares exponents.\<close>

lemma less_pow2_iff: "r < pow2 (e + 1) \<longleftrightarrow> r \<le> 0 \<or> ilog2 r \<le> e"
proof (cases "r \<le> 0")
  case True
  then show ?thesis using pow2_pos(1) [of "e + 1"] by linarith
next
  case False
  then have r: "0 < r" by simp
  have "r < pow2 (e + 1) \<longleftrightarrow> ilog2 r \<le> e"
  proof
    assume "r < pow2 (e + 1)"
    then have "pow2 (ilog2 r) < pow2 (e + 1)" using ilog2_bounds(1) [OF r] by linarith
    then have "ilog2 r < e + 1" by (simp only: pow2_less_iff)
    then show "ilog2 r \<le> e" by simp
  next
    assume "ilog2 r \<le> e"
    then have "pow2 (ilog2 r + 1) \<le> pow2 (e + 1)" by (simp only: pow2_le_iff add_le_cancel_right)
    then show "r < pow2 (e + 1)" using ilog2_bounds(2) [OF r] by linarith
  qed
  then show ?thesis using False by simp
qed

lemma fround_code [code]:
  "fround F s m = (let r = round_mag F m in if r \<le> 0 \<or> ilog2 r \<le> emax F then FFin s r else FInf s)"
  by (simp only: fround_def Let_def less_pow2_iff)

lemma fp_ok_code [code]:
  "fp_ok F (FFin s m) = (0 \<le> m \<and> round_mag F m = m \<and> (m \<le> 0 \<or> ilog2 m \<le> emax F))"
  by (simp only: fp_ok.simps less_pow2_iff)

named_theorems fp_ok_intros

lemma fround_ok [fp_ok_intros]: "wf_fmt F \<Longrightarrow> 0 \<le> m \<Longrightarrow> fp_ok F (fround F s m)"
  by (simp add: fround_def Let_def round_mag_nonneg round_mag_idem)

lemma fround_id [simp]: "round_mag F m = m \<Longrightarrow> m < pow2 (emax F + 1) \<Longrightarrow> fround F s m = FFin s m"
  by (simp add: fround_def)

lemma fp_ok_fround [simp]: "fp_ok F (FFin s m) \<Longrightarrow> fround F s m = FFin s m"
  by simp

lemma round_mag_zero [simp]: "round_mag F 0 = 0"
  by (simp add: round_mag_def)

lemma fround_zero [simp]: "fround F s 0 = FFin s 0"
  by simp

lemma fp_ok_zero [simp]: "fp_ok F (FFin s 0)"
  by simp

lemma fp_ok_fneg [simp]: "fp_ok F (fneg x) \<longleftrightarrow> fp_ok F x"
  by (cases x) auto

lemma fp_ok_fadd [fp_ok_intros]: "wf_fmt F \<Longrightarrow> fp_ok F (fadd F x y)"
  by (cases x; cases y) (auto simp: Let_def intro!: fround_ok simp del: fp_ok.simps(1))

lemma fp_ok_fsub [fp_ok_intros]: "wf_fmt F \<Longrightarrow> fp_ok F (fsub F x y)"
  by (simp add: fsub_def fp_ok_fadd)

lemma fp_ok_fmul [fp_ok_intros]: "wf_fmt F \<Longrightarrow> fp_ok F x \<Longrightarrow> fp_ok F y \<Longrightarrow> fp_ok F (fmul F x y)"
  by (cases x; cases y) (auto intro!: fround_ok)

lemma fp_ok_fdiv [fp_ok_intros]: "wf_fmt F \<Longrightarrow> fp_ok F x \<Longrightarrow> fp_ok F y \<Longrightarrow> fp_ok F (fdiv F x y)"
  by (cases x; cases y) (auto intro!: fround_ok)

lemma fp_ok_fof_int [fp_ok_intros]: "wf_fmt F \<Longrightarrow> fp_ok F (fof_int F i)"
  by (simp add: fof_int_def fround_ok)

lemma fp_ok_dlit [fp_ok_intros]: "fp_ok binary64 (dlit q)"
  by (simp add: dlit_def fround_ok)

subsection \<open>Exact results\<close>

lemma fof_int_exact:
  assumes "wf_fmt F" "\<bar>i\<bar> \<le> 2 ^ prec F"
  shows "fof_int F i = FFin (i < 0) (of_int \<bar>i\<bar>)"
proof -
  have "representable F (of_int \<bar>i\<bar>)"
    by (rule representableI [where n = "\<bar>i\<bar>" and e = 0]) (use assms in \<open>auto simp: wf_fmt_def\<close>)
  then have r: "round_mag F (of_int \<bar>i\<bar>) = of_int \<bar>i\<bar>"
    by (rule round_mag_representable [OF assms(1)])
  have "of_int \<bar>i\<bar> \<le> (of_int (2 ^ prec F) :: rat)"
    using assms(2) by (simp only: of_int_le_iff)
  also have "\<dots> = pow2 (int (prec F))" by simp
  also have "\<dots> < pow2 (emax F + 1)"
    using assms(1) by (simp only: pow2_less_iff) (simp add: wf_fmt_def)
  finally show ?thesis using r by (simp add: fof_int_def)
qed

lemma fround_finite:
  assumes "wf_fmt F" "0 \<le> m" "m \<le> pow2 (emax F)"
  shows "fround F s m = FFin s (round_mag F m)"
proof -
  have "representable F (pow2 (emax F))"
    by (rule representableI [where n = 1 and e = "emax F"]) (use assms(1) in \<open>auto simp: wf_fmt_def\<close>)
  then have "round_mag F m \<le> pow2 (emax F)"
    using round_mag_mono [OF assms] by (simp add: round_mag_representable assms(1))
  also have "\<dots> < pow2 (emax F + 1)" by (simp only: pow2_less_iff)
  finally show ?thesis by (simp add: fround_def)
qed

lemma fround_le:
  assumes F: "wf_fmt F" and "0 \<le> a" "a \<le> b" and b: "fp_ok F (FFin t b)"
  obtains m where "fround F s a = FFin s m" "0 \<le> m" "m \<le> b"
proof -
  have "round_mag F a \<le> b"
    using round_mag_mono [OF F \<open>0 \<le> a\<close> \<open>a \<le> b\<close>] b by simp
  moreover have "b < pow2 (emax F + 1)" using b by simp
  ultimately have "fround F s a = FFin s (round_mag F a)" "round_mag F a \<le> b"
    by (simp_all add: fround_def)
  then show ?thesis using that round_mag_nonneg [OF \<open>0 \<le> a\<close>] by blast
qed

subsection \<open>Relative error of chains of operations\<close>

text \<open>
  \<open>near k x v\<close>: the double \<open>x\<close> is finite and is \<open>v\<close> up to \<open>k\<close> roundings.
\<close>

definition unit_roundoff :: rat where
  "unit_roundoff = pow2 (- 53)"

lemma unit_roundoff_pos [simp]: "0 < unit_roundoff" "0 \<le> unit_roundoff"
  by (simp_all add: unit_roundoff_def)

fun near :: "nat \<Rightarrow> fp \<Rightarrow> rat \<Rightarrow> bool" where
  "near k (FFin s m) v = (0 \<le> m \<and> \<bar>signed s m - v\<bar> \<le> ((1 + unit_roundoff) ^ k - 1) * \<bar>v\<bar>)"
| "near k x v = False"

lemma one_plus_unit_power: "1 \<le> (1 + unit_roundoff) ^ k"
  by (simp add: one_le_power)

lemma growth_bound:
  assumes "k \<le> 2 ^ 20"
  shows "(1 + unit_roundoff) ^ k - 1 \<le> 2 * of_nat k * unit_roundoff"
  using assms
proof (induction k)
  case 0
  then show ?case by simp
next
  case (Suc k)
  let ?u = unit_roundoff
  have IH: "(1 + ?u) ^ k \<le> 1 + 2 * of_nat k * ?u" using Suc by simp
  have k: "(of_nat k :: rat) \<le> 2 ^ 20"
    using Suc.prems of_nat_le_iff [of k "2 ^ 20", where ?'a = rat] by simp
  have "2 * of_nat k * ?u \<le> 2 * 2 ^ 20 * ?u"
    by (intro mult_right_mono mult_left_mono k) simp_all
  also have "\<dots> \<le> 1" by (simp add: unit_roundoff_def power_int_minus)
  finally have "2 * of_nat k * ?u * ?u \<le> 1 * ?u" by (rule mult_right_mono) simp
  then have A: "2 * of_nat k * ?u * ?u \<le> ?u" by (simp only: mult_1)
  have B: "(1 + ?u) ^ Suc k \<le> (1 + ?u) * (1 + 2 * of_nat k * ?u)"
    using IH by (simp add: mult_left_mono)
  have C: "(1 + ?u) * (1 + 2 * of_nat k * ?u) = 1 + 2 * of_nat k * ?u + ?u + 2 * of_nat k * ?u * ?u"
    by (simp add: algebra_simps)
  have D: "2 * of_nat (Suc k) * ?u = 2 * of_nat k * ?u + 2 * ?u"
    by (simp add: algebra_simps)
  show ?case using A B unfolding C D by linarith
qed

lemma near_exact: "0 \<le> m \<Longrightarrow> signed s m = v \<Longrightarrow> near k (FFin s m) v"
  using one_plus_unit_power [of k] by auto

lemma compose_error:
  fixes X Z a \<alpha> u :: rat
  assumes "\<bar>X - a\<bar> \<le> \<alpha> * \<bar>a\<bar>" "\<bar>Z - X\<bar> \<le> u * \<bar>X\<bar>" "0 \<le> u"
  shows "\<bar>Z - a\<bar> \<le> ((1 + \<alpha>) * (1 + u) - 1) * \<bar>a\<bar>"
proof -
  have "\<bar>X\<bar> \<le> (1 + \<alpha>) * \<bar>a\<bar>" using assms(1) by (simp add: algebra_simps)
  then have "u * \<bar>X\<bar> \<le> u * ((1 + \<alpha>) * \<bar>a\<bar>)" using assms(3) by (rule mult_left_mono)
  moreover have "\<bar>Z - a\<bar> \<le> \<bar>Z - X\<bar> + \<bar>X - a\<bar>" by linarith
  ultimately have "\<bar>Z - a\<bar> \<le> u * ((1 + \<alpha>) * \<bar>a\<bar>) + \<alpha> * \<bar>a\<bar>"
    using assms(1,2) by linarith
  then show ?thesis by (simp add: algebra_simps)
qed

lemma signed_product: "signed (s \<noteq> t) (a * b) = signed s a * signed t b"
  by (simp add: signed_def)

lemma signed_quotient: "signed (s \<noteq> t) (a / b) = signed s a / signed t b"
  by (simp add: signed_def)

text \<open>One rounding of a value in the normal range adds one to the count.\<close>

lemma near_fround:
  assumes X: "\<bar>X - v\<bar> \<le> ((1 + unit_roundoff) ^ k - 1) * \<bar>v\<bar>" and k: "k \<le> 1000"
    and v: "v = 0 \<or> pow2 (-1021) \<le> \<bar>v\<bar> \<and> \<bar>v\<bar> \<le> pow2 1022" and s: "signed s \<bar>X\<bar> = X"
  shows "near (Suc k) (fround binary64 s \<bar>X\<bar>) v"
proof (cases "v = 0")
  case True
  with X have "X = 0" by simp
  then show ?thesis using True by simp
next
  case False
  let ?u = unit_roundoff
  have "(1 + ?u) ^ k - 1 \<le> 2 * of_nat k * ?u" using k by (intro growth_bound) simp
  also have "\<dots> \<le> 2 * 1000 * ?u"
    using k of_nat_le_iff [of k 1000, where ?'a = rat] by (intro mult_right_mono mult_left_mono) simp_all
  also have "\<dots> \<le> 1 / 2" by (simp add: unit_roundoff_def power_int_minus)
  finally have "((1 + ?u) ^ k - 1) * \<bar>v\<bar> \<le> 1 / 2 * \<bar>v\<bar>" by (rule mult_right_mono) simp
  then have d: "\<bar>X - v\<bar> \<le> \<bar>v\<bar> / 2" using X by linarith
  have p: "pow2 1022 = pow2 1023 / 2" "pow2 (-1021) = 2 * pow2 (-1022)"
    using pow2_diff [of 1023 1] pow2_add [of 1 "-1022"] by simp_all
  have "pow2 (-1022) \<le> \<bar>X\<bar>" "\<bar>X\<bar> \<le> pow2 1023"
    using v False d unfolding p by linarith+
  then have r: "\<bar>round_mag binary64 \<bar>X\<bar> - \<bar>X\<bar>\<bar> \<le> ?u * \<bar>X\<bar>"
      and f: "fround binary64 s \<bar>X\<bar> = FFin s (round_mag binary64 \<bar>X\<bar>)"
    using round_mag_rel_error [of binary64 "\<bar>X\<bar>"] fround_finite [of binary64 "\<bar>X\<bar>" s]
    by (simp_all add: unit_roundoff_def mult.commute)
  have "signed s (round_mag binary64 \<bar>X\<bar>) - X = signed s (round_mag binary64 \<bar>X\<bar> - \<bar>X\<bar>)"
    using s by (auto simp: signed_def split: if_splits)
  then have "\<bar>signed s (round_mag binary64 \<bar>X\<bar>) - X\<bar> \<le> ?u * \<bar>X\<bar>" using r by simp
  then have "\<bar>signed s (round_mag binary64 \<bar>X\<bar>) - v\<bar> \<le> ((1 + ((1 + ?u) ^ k - 1)) * (1 + ?u) - 1) * \<bar>v\<bar>"
    by (intro compose_error [OF X]) simp_all
  then show ?thesis by (simp add: f round_mag_nonneg algebra_simps)
qed

lemma near_fmul:
  assumes x: "near k x a" and b: "0 \<le> b" and k: "k \<le> 1000"
    and v: "a * signed t b = 0 \<or> pow2 (-1021) \<le> \<bar>a * signed t b\<bar> \<and> \<bar>a * signed t b\<bar> \<le> pow2 1022"
  shows "near (Suc k) (fmul binary64 x (FFin t b)) (a * signed t b)"
proof -
  obtain s m where xm: "x = FFin s m" and m: "0 \<le> m"
    and e: "\<bar>signed s m - a\<bar> \<le> ((1 + unit_roundoff) ^ k - 1) * \<bar>a\<bar>"
    using x by (cases x) auto
  let ?X = "signed (s \<noteq> t) (m * b)"
  have "?X - a * signed t b = (signed s m - a) * signed t b"
    by (simp only: signed_product) (simp add: algebra_simps)
  then have "\<bar>?X - a * signed t b\<bar> \<le> ((1 + unit_roundoff) ^ k - 1) * \<bar>a\<bar> * \<bar>signed t b\<bar>"
    using e by (simp only: abs_mult) (rule mult_right_mono, auto)
  then have E: "\<bar>?X - a * signed t b\<bar> \<le> ((1 + unit_roundoff) ^ k - 1) * \<bar>a * signed t b\<bar>"
    by (simp add: abs_mult)
  have "signed (s \<noteq> t) \<bar>?X\<bar> = ?X" using m b by simp
  from near_fround [OF E k v this] show ?thesis using m b by (simp add: xm)
qed

lemma near_fdiv:
  assumes x: "near k x a" and b: "0 < b" and k: "k \<le> 1000"
    and v: "a / signed t b = 0 \<or> pow2 (-1021) \<le> \<bar>a / signed t b\<bar> \<and> \<bar>a / signed t b\<bar> \<le> pow2 1022"
  shows "near (Suc k) (fdiv binary64 x (FFin t b)) (a / signed t b)"
proof -
  obtain s m where xm: "x = FFin s m" and m: "0 \<le> m"
    and e: "\<bar>signed s m - a\<bar> \<le> ((1 + unit_roundoff) ^ k - 1) * \<bar>a\<bar>"
    using x by (cases x) auto
  let ?X = "signed (s \<noteq> t) (m / b)"
  have "?X - a / signed t b = (signed s m - a) / signed t b"
    by (simp only: signed_quotient) (simp add: diff_divide_distrib)
  then have "\<bar>?X - a / signed t b\<bar> \<le> ((1 + unit_roundoff) ^ k - 1) * \<bar>a\<bar> / \<bar>signed t b\<bar>"
    using e by (simp only: abs_divide) (rule divide_right_mono, auto)
  then have E: "\<bar>?X - a / signed t b\<bar> \<le> ((1 + unit_roundoff) ^ k - 1) * \<bar>a / signed t b\<bar>"
    by (simp add: abs_divide)
  have "signed (s \<noteq> t) \<bar>?X\<bar> = ?X" using m b by simp
  from near_fround [OF E k v this] show ?thesis using m b by (simp add: xm)
qed

lemma near_lround:
  assumes x: "near k x (of_int c)" and k: "k \<le> 1000" and c: "\<bar>c\<bar> \<le> 2 ^ 31"
  shows "flround x = Some c"
proof -
  obtain s m where xm: "x = FFin s m" and m: "0 \<le> m"
    and e: "\<bar>signed s m - of_int c\<bar> \<le> ((1 + unit_roundoff) ^ k - 1) * \<bar>of_int c\<bar>"
    using x by (cases x) auto
  have c': "\<bar>of_int c\<bar> \<le> (2 ^ 31 :: rat)" using of_int_le_iff [of "\<bar>c\<bar>" "2 ^ 31", where ?'a = rat] c by simp
  have "(1 + unit_roundoff) ^ k - 1 \<le> 2 * of_nat k * unit_roundoff" using k by (intro growth_bound) simp
  also have "\<dots> \<le> 2 * 1000 * unit_roundoff"
    using k of_nat_le_iff [of k 1000, where ?'a = rat] by (intro mult_right_mono mult_left_mono) simp_all
  finally have "((1 + unit_roundoff) ^ k - 1) * \<bar>of_int c\<bar> \<le> 2 * 1000 * unit_roundoff * 2 ^ 31"
    using c' one_plus_unit_power [of k] by (intro mult_mono) simp_all
  also have "\<dots> < 1 / 2" by (simp add: unit_roundoff_def power_int_minus)
  finally have d: "\<bar>signed s m - of_int c\<bar> < 1 / 2" using e by linarith
  have c63: "- c \<le> 9223372036854775808" "- 9223372036854775808 \<le> c" "c < 9223372036854775808"
    using c by (simp_all add: abs_le_iff)
  show ?thesis
  proof (cases s)
    case True
    then have "\<bar>- m - of_int c\<bar> < 1 / 2" using d by (simp add: signed_def)
    then have "of_int (- c) \<le> m + 1 / 2" "m + 1 / 2 < of_int (- c) + 1" by (simp; linarith)+
    then have "\<lfloor>m + 1 / 2\<rfloor> = - c" by (rule floor_unique)
    then show ?thesis using True c63 by (simp add: xm Let_def)
  next
    case False
    then have "\<bar>m - of_int c\<bar> < 1 / 2" using d by (simp add: signed_def)
    then have "of_int c \<le> m + 1 / 2" "m + 1 / 2 < of_int c + 1" by linarith+
    then have "\<lfloor>m + 1 / 2\<rfloor> = c" by (rule floor_unique)
    then show ?thesis using False c63 by (simp add: xm Let_def)
  qed
qed

subsection \<open>Sizes\<close>

text \<open>Zero, or a magnitude between \<open>2\<^sup>-\<^sup>e\<close> and \<open>2\<^sup>e\<close>: what keeps a product out of overflow and underflow.\<close>

definition sized :: "int \<Rightarrow> rat \<Rightarrow> bool" where
  "sized e v \<longleftrightarrow> v = 0 \<or> pow2 (- e) \<le> \<bar>v\<bar> \<and> \<bar>v\<bar> \<le> pow2 e"

lemma sized_zero [simp]: "sized e 0"
  by (simp add: sized_def)

lemma sized_signed [simp]: "sized e (signed s m) \<longleftrightarrow> sized e m"
  by (simp add: sized_def)

lemma sized_abs: "sized e \<bar>m\<bar> \<longleftrightarrow> sized e m"
  by (simp add: sized_def)

lemma sized_mono: "sized a v \<Longrightarrow> a \<le> b \<Longrightarrow> sized b v"
  unfolding sized_def by (meson order_trans pow2_le_iff neg_le_iff_le)

lemma sized_mult:
  assumes "sized a x" "sized b y"
  shows "sized (a + b) (x * y)"
proof (cases "x = 0 \<or> y = 0")
  case False
  then have x: "pow2 (- a) \<le> \<bar>x\<bar>" "\<bar>x\<bar> \<le> pow2 a" and y: "pow2 (- b) \<le> \<bar>y\<bar>" "\<bar>y\<bar> \<le> pow2 b"
    using assms by (auto simp: sized_def)
  have "pow2 (- a) * pow2 (- b) \<le> \<bar>x\<bar> * \<bar>y\<bar>" "\<bar>x\<bar> * \<bar>y\<bar> \<le> pow2 a * pow2 b"
    using x y by (intro mult_mono; simp)+
  moreover have "pow2 (- (a + b)) = pow2 (- a) * pow2 (- b)" using pow2_add [of "- a" "- b"] by simp
  ultimately show ?thesis by (simp add: sized_def abs_mult pow2_add)
qed (auto simp: sized_def)

lemma sized_inverse: "sized a x \<Longrightarrow> sized a (inverse x)"
proof (cases "x = 0")
  case False
  assume "sized a x"
  then have x: "pow2 (- a) \<le> \<bar>x\<bar>" "\<bar>x\<bar> \<le> pow2 a" using False by (auto simp: sized_def)
  have "inverse \<bar>x\<bar> \<le> inverse (pow2 (- a))" "inverse (pow2 a) \<le> inverse \<bar>x\<bar>"
    using x False by (intro le_imp_inverse_le; simp)+
  then show ?thesis by (simp add: sized_def power_int_minus)
qed (simp add: sized_def)

lemma sized_div: "sized a x \<Longrightarrow> sized b y \<Longrightarrow> sized (a + b) (x / y)"
  unfolding divide_inverse by (intro sized_mult sized_inverse)

lemma sized_perturb:
  assumes "\<bar>x - v\<bar> \<le> \<bar>v\<bar> / 2" "sized e v"
  shows "sized (e + 1) x"
proof (cases "v = 0")
  case False
  have "pow2 (- e) = 2 * pow2 (- (e + 1))" "pow2 (e + 1) = 2 * pow2 e"
    using pow2_add [of 1 "- (e + 1)"] pow2_add [of e 1] by simp_all
  moreover have "pow2 (- e) \<le> \<bar>v\<bar>" "\<bar>v\<bar> \<le> pow2 e" using assms(2) False by (auto simp: sized_def)
  ultimately show ?thesis using assms(1) unfolding sized_def by linarith
qed (use assms in simp)

lemma sized_normal: "sized e v \<Longrightarrow> e \<le> 1021 \<Longrightarrow> v = 0 \<or> pow2 (-1021) \<le> \<bar>v\<bar> \<and> \<bar>v\<bar> \<le> pow2 1022"
  using sized_mono [of e v 1021] order_trans [of "\<bar>v\<bar>" "pow2 1021" "pow2 1022"] by (auto simp: sized_def)

lemma near_fmul_sized:
  "near k x a \<Longrightarrow> 0 \<le> b \<Longrightarrow> k \<le> 1000 \<Longrightarrow> sized i a \<Longrightarrow> sized j b \<Longrightarrow> i + j \<le> 1021 \<Longrightarrow>
   near (Suc k) (fmul binary64 x (FFin t b)) (a * signed t b)"
  using sized_mult [of i a j "signed t b"] by (intro near_fmul sized_normal [of "i + j"]) auto

lemma near_fdiv_sized:
  "near k x a \<Longrightarrow> 0 < b \<Longrightarrow> k \<le> 1000 \<Longrightarrow> sized i a \<Longrightarrow> sized j b \<Longrightarrow> i + j \<le> 1021 \<Longrightarrow>
   near (Suc k) (fdiv binary64 x (FFin t b)) (a / signed t b)"
  using sized_div [of i a j "signed t b"] by (intro near_fdiv sized_normal [of "i + j"]) auto

end
