(* ===== verification/Cpp_Std.thy ===== *)
theory Cpp_Std
  imports IEEE754 "HOL-Library.Char_ord"
begin

section \<open>\<open>std::stoi\<close> and \<open>std::stod\<close>\<close>

text \<open>
  The two text conversions the plugins use on their parameters, as the C++ standard defines them by
  \<open>strtol\<close> and \<open>strtod\<close> in the C locale: leading white space and a sign are skipped, the longest
  numeric prefix is read and the rest ignored, \<open>std::invalid_argument\<close> is thrown when there is no
  number and \<open>std::out_of_range\<close> when the value does not fit. \<open>strtod\<close> rounds correctly, and reports
  a range error for an overflow and for an inexact result below the normal range.
\<close>

definition code_of :: "char \<Rightarrow> nat" where
  "code_of c = of_char c"

definition is_space :: "char \<Rightarrow> bool" where
  "is_space c \<longleftrightarrow> code_of c = 32 \<or> 9 \<le> code_of c \<and> code_of c \<le> 13"

definition to_lower :: "char \<Rightarrow> nat" where
  "to_lower c = (if 65 \<le> code_of c \<and> code_of c \<le> 90 then code_of c + 32 else code_of c)"

text \<open>The value of a digit in a base of at most 16.\<close>

definition digit_in :: "nat \<Rightarrow> char \<Rightarrow> nat option" where
  "digit_in base c = (let l = to_lower c;
     d = (if 48 \<le> l \<and> l \<le> 57 then l - 48 else if 97 \<le> l \<and> l \<le> 102 then l - 87 else base)
   in if d < base then Some d else None)"

text \<open>The digits at the front of a string, their value, and what follows.\<close>

fun read_digits :: "nat \<Rightarrow> string \<Rightarrow> nat \<times> nat \<times> string" where
  "read_digits base [] = (0, 0, [])"
| "read_digits base (c # cs) = (case digit_in base c of
     None \<Rightarrow> (0, 0, c # cs)
   | Some d \<Rightarrow> (case read_digits base cs of (v, n, rest) \<Rightarrow> (d * base ^ n + v, Suc n, rest)))"

fun read_sign :: "string \<Rightarrow> bool \<times> string" where
  "read_sign [] = (False, [])"
| "read_sign (c # cs) =
     (if c = CHR ''-'' then (True, cs) else if c = CHR ''+'' then (False, cs) else (False, c # cs))"

definition stoi :: "string \<Rightarrow> int outcome" where
  "stoi s = (case read_sign (dropWhile is_space s) of (neg, t) \<Rightarrow>
     case read_digits 10 t of (v, n, _) \<Rightarrow>
       if n = 0 then Thrown ''std::invalid_argument''
       else let i = (if neg then - int v else int v) in
         if - (2 ^ 31) \<le> i \<and> i < 2 ^ 31 then Done i else Thrown ''std::out_of_range'')"

text \<open>Digits, an optional point, digits: the value, the number of fraction digits, and the rest.\<close>

definition read_mantissa :: "nat \<Rightarrow> string \<Rightarrow> (nat \<times> nat \<times> string) option" where
  "read_mantissa base s = (case read_digits base s of (a, n, rest) \<Rightarrow>
     case rest of
       c # cs \<Rightarrow> if c = CHR ''.''
         then (case read_digits base cs of (b, m, rest') \<Rightarrow>
           if n + m = 0 then None else Some (a * base ^ m + b, m, rest'))
         else if n = 0 then None else Some (a, 0, rest)
     | [] \<Rightarrow> if n = 0 then None else Some (a, 0, rest))"

text \<open>An exponent part, when a complete one follows.\<close>

definition read_exponent :: "nat \<Rightarrow> string \<Rightarrow> int" where
  "read_exponent mark s = (case s of [] \<Rightarrow> 0 | c # cs \<Rightarrow>
     if to_lower c \<noteq> mark then 0
     else case read_sign cs of (neg, t) \<Rightarrow> case read_digits 10 t of (v, n, _) \<Rightarrow>
       if n = 0 then 0 else if neg then - int v else int v)"

definition starts_with :: "nat list \<Rightarrow> string \<Rightarrow> bool" where
  "starts_with w s \<longleftrightarrow> map to_lower (take (length w) s) = w"

text \<open>The correctly rounded result, with the range errors.\<close>

definition range_checked :: "bool \<Rightarrow> rat \<Rightarrow> fp outcome" where
  "range_checked neg m = (case fround binary64 neg m of
     FFin s r \<Rightarrow> if r \<noteq> m \<and> (r = 0 \<or> ilog2 r < - 1022) then Thrown ''std::out_of_range''
       else Done (FFin s r)
   | _ \<Rightarrow> Thrown ''std::out_of_range'')"

definition stod :: "string \<Rightarrow> fp outcome" where
  "stod s = (case read_sign (dropWhile is_space s) of (neg, t) \<Rightarrow>
     if starts_with [105, 110, 102] t then Done (FInf neg)
     else if starts_with [110, 97, 110] t then Done FNaN
     else case (if starts_with [48, 120] t then read_mantissa 16 (drop 2 t) else None) of
       Some (v, m, rest) \<Rightarrow>
         range_checked neg (of_nat v * pow2 (read_exponent 112 rest - 4 * int m))
     | None \<Rightarrow> (case read_mantissa 10 t of
         None \<Rightarrow> Thrown ''std::invalid_argument''
       | Some (v, m, rest) \<Rightarrow>
           range_checked neg (of_nat v * 10 powi (read_exponent 101 rest - int m))))"

lemma range_checked_ok: "0 \<le> m \<Longrightarrow> range_checked neg m = Done x \<Longrightarrow> fp_ok binary64 x"
  using fround_ok [of binary64 m neg]
  by (auto simp: range_checked_def simp del: fp_ok.simps split: fp.splits if_splits)

lemma stod_ok: "stod s = Done x \<Longrightarrow> fp_ok binary64 x"
  by (auto simp: stod_def split: prod.splits option.splits if_splits intro: range_checked_ok [rotated])

lemma stoi_range: "stoi s = Done i \<Longrightarrow> - (2 ^ 31) \<le> i \<and> i < 2 ^ 31"
  by (auto simp: stoi_def Let_def split: prod.splits if_splits)

lemma stoi_no_ub: "no_ub (stoi s)"
  by (auto simp: stoi_def Let_def split: prod.splits)

lemma stod_no_ub: "no_ub (stod s)"
  by (auto simp: stod_def range_checked_def split: prod.splits option.splits fp.splits)

end
