(* ===== verification/Socket_Can.thy ===== *)
theory Socket_Can
  imports Prelude
begin

section \<open>Linux SocketCAN as the transports see it\<close>

text \<open>
  The operating-system side of both \<open>SocketCanTransport\<close> classes: the kernel's \<open>struct can_frame\<close>,
  the results of the system calls the code makes (they are inputs of the model: any result can
  occur), the set of open descriptors, and the frames a socket accepted. A raw CAN socket accepts a
  frame as a whole: \<open>write\<close> returns 16, the size of \<open>struct can_frame\<close>, and the frame is queued,
  or it returns something else and nothing is queued. The error messages the code composes are the
  constructors of \<open>backend_error\<close>, without the text of \<open>strerror\<close>.
\<close>

record can_frame =
  can_id :: u32
  can_dlc :: u8
  can_data :: "u8 list"

definition CAN_EFF_FLAG :: u32 where "CAN_EFF_FLAG = 0x80000000"

definition CAN_SFF_MASK :: u32 where "CAN_SFF_MASK = 0x7FF"

definition CAN_EFF_MASK :: u32 where "CAN_EFF_MASK = 0x1FFFFFFF"

datatype backend_error =
    Socket_Failed
  | Interface_Not_Found string
  | Bind_Failed string
  | Closed_Or_Bad_Length
  | Write_Failed
  | Transport_Closed
  | Poll_Failed
  | Read_Failed
  | Not_Active
  | Command_Count_Mismatch
  | Mock_Period_Not_Finite
  | Mock_Count_Mismatch
  | Sdo_Timed_Out u8 u16 u8
  | Sdo_Aborted u8 u16 u8 u32 string
  | Failed_To_Enable u8 u32 u32 string
  | In_Fault u8 u16 u16 string

subsection \<open>The kernel's state\<close>

record kernel =
  live_fds :: "int list"
  wire :: "can_frame list"
  n_writes :: nat
  write_ret :: "nat \<Rightarrow> int"

definition sizeof_can_frame :: int where
  "sizeof_can_frame = 16"

definition sys_write :: "can_frame \<Rightarrow> kernel \<Rightarrow> int \<times> kernel" where
  "sys_write f k = (let r = write_ret k (n_writes k) in
     (r, k\<lparr>n_writes := Suc (n_writes k),
           wire := (if r = sizeof_can_frame then wire k @ [f] else wire k)\<rparr>))"

definition sys_close :: "int \<Rightarrow> kernel \<Rightarrow> kernel" where
  "sys_close fd k = k\<lparr>live_fds := remove1 fd (live_fds k)\<rparr>"

text \<open>
  The system calls of one \<open>open\<close>: \<open>socket\<close> returns a descriptor that is not in use, or a negative
  number; \<open>ioctl(SIOCGIFINDEX)\<close> resolves an interface name; \<open>bind\<close> returns a status for an index.
\<close>

record open_calls =
  socket_ret :: int
  if_index :: "string \<Rightarrow> int option"
  bind_ret :: "int \<Rightarrow> int"

definition sys_socket :: "open_calls \<Rightarrow> kernel \<Rightarrow> int \<times> kernel" where
  "sys_socket c k = (socket_ret c,
     if 0 \<le> socket_ret c then k\<lparr>live_fds := socket_ret c # live_fds k\<rparr> else k)"

text \<open>The system calls of one \<open>receive\<close>.\<close>

record rx_calls =
  poll_ret :: int
  poll_eintr :: bool
  poll_in :: bool
  read_ret :: int
  rx_frame :: can_frame

text \<open>
  \<open>IFNAMSIZ\<close> is 16: \<open>strncpy\<close> copies at most 15 characters of the interface name (a name with a
  zero byte stops there; interface names have none).
\<close>

definition ifr_name :: "string \<Rightarrow> string" where
  "ifr_name name = take 15 name"

text \<open>\<open>memcpy\<close> of the first \<open>n\<close> bytes over a zeroed 8-byte array.\<close>

definition copy_bytes :: "nat \<Rightarrow> u8 list \<Rightarrow> u8 list" where
  "copy_bytes n src = take n src @ replicate (8 - n) 0"

lemma length_copy_bytes [simp]: "length src = 8 \<Longrightarrow> n \<le> 8 \<Longrightarrow> length (copy_bytes n src) = 8"
  by (simp add: copy_bytes_def)

lemma copy_bytes_8 [simp]: "length src = 8 \<Longrightarrow> copy_bytes 8 src = src"
  by (simp add: copy_bytes_def)

lemma nth_copy_bytes: "length src = 8 \<Longrightarrow> n \<le> 8 \<Longrightarrow> i < 8 \<Longrightarrow>
    copy_bytes n src ! i = (if i < n then src ! i else 0)"
  by (auto simp: copy_bytes_def nth_append)

lemma copy_bytes_idem: "length src = 8 \<Longrightarrow> n \<le> 8 \<Longrightarrow> copy_bytes n (copy_bytes n src) = copy_bytes n src"
  by (auto simp: copy_bytes_def)

subsection \<open>Facts about the system calls\<close>

lemma sys_write_frame [simp]:
  "live_fds (snd (sys_write f k)) = live_fds k" "write_ret (snd (sys_write f k)) = write_ret k"
  by (simp_all add: sys_write_def Let_def)

text \<open>All writes of a run succeed.\<close>

definition writes_ok :: "kernel \<Rightarrow> bool" where
  "writes_ok k \<longleftrightarrow> write_ret k = (\<lambda>_. sizeof_can_frame)"

lemma sys_write_ok: "writes_ok k \<Longrightarrow> sys_write f k = (sizeof_can_frame,
    k\<lparr>n_writes := Suc (n_writes k), wire := wire k @ [f]\<rparr>)"
  by (simp add: sys_write_def writes_ok_def)

subsection \<open>The contract of a socket transport\<close>

text \<open>
  A transport owns at most one descriptor: \<open>owns base fd k\<close> says that the live descriptors are
  \<open>base\<close> and, when \<open>fd\<close> is open, \<open>fd\<close>.
\<close>

definition owns :: "int list \<Rightarrow> int \<Rightarrow> kernel \<Rightarrow> bool" where
  "owns base fd k \<longleftrightarrow> live_fds k = (if 0 \<le> fd then fd # base else base)"

datatype 'f transport_op = Op_Open open_calls string | Op_Close | Op_Send 'f

fun run_transport ::
  "(open_calls \<Rightarrow> string \<Rightarrow> int \<Rightarrow> kernel \<Rightarrow> (bool \<times> backend_error option) \<times> int \<times> kernel) \<Rightarrow>
   (int \<Rightarrow> kernel \<Rightarrow> int \<times> kernel) \<Rightarrow>
   (int \<Rightarrow> 'f \<Rightarrow> kernel \<Rightarrow> (bool \<times> backend_error option) \<times> kernel) \<Rightarrow>
   'f transport_op list \<Rightarrow> int \<times> kernel \<Rightarrow> int \<times> kernel" where
  "run_transport topen tclose tsend [] s = s"
| "run_transport topen tclose tsend (Op_Open c name # ops) (fd, k) =
     run_transport topen tclose tsend ops (snd (topen c name fd k))"
| "run_transport topen tclose tsend (Op_Close # ops) (fd, k) =
     run_transport topen tclose tsend ops (tclose fd k)"
| "run_transport topen tclose tsend (Op_Send f # ops) (fd, k) =
     run_transport topen tclose tsend ops (fd, snd (tsend fd f k))"

locale socket_transport =
  fixes topen :: "open_calls \<Rightarrow> string \<Rightarrow> int \<Rightarrow> kernel \<Rightarrow> (bool \<times> backend_error option) \<times> int \<times> kernel"
    and tclose :: "int \<Rightarrow> kernel \<Rightarrow> int \<times> kernel"
    and tsend :: "int \<Rightarrow> 'f \<Rightarrow> kernel \<Rightarrow> (bool \<times> backend_error option) \<times> kernel"
  assumes close_closed: "fst (tclose fd k) < 0"
    and close_owns: "owns base fd k \<Longrightarrow> owns base (fst (tclose fd k)) (snd (tclose fd k))"
    and close_frame: "wire (snd (tclose fd k)) = wire k" "n_writes (snd (tclose fd k)) = n_writes k"
      "write_ret (snd (tclose fd k)) = write_ret k"
    and open_owns: "owns base fd k \<Longrightarrow> topen c name fd k = (r, fd', k') \<Longrightarrow> owns base fd' k'"
    and open_result: "topen c name fd k = ((ok, e), fd', k') \<Longrightarrow>
      ok = (0 \<le> fd') \<and> ok = (e = None) \<and> wire k' = wire k \<and> n_writes k' = n_writes k \<and>
      write_ret k' = write_ret k"
    and send_closed: "fd < 0 \<Longrightarrow> tsend fd f k = ((False, Some Closed_Or_Bad_Length), k)"
    and send_fds: "live_fds (snd (tsend fd f k)) = live_fds k"
      "write_ret (snd (tsend fd f k)) = write_ret k"
begin

lemma run_owns:
  "owns base fd k \<Longrightarrow> run_transport topen tclose tsend ops (fd, k) = (fd', k') \<Longrightarrow> owns base fd' k'"
proof (induction ops arbitrary: fd k)
  case Nil
  then show ?case by simp
next
  case (Cons op ops)
  show ?case
  proof (cases op)
    case (Op_Open c name)
    obtain r fd1 k1 where o: "topen c name fd k = (r, fd1, k1)" by (cases "topen c name fd k")
    from open_owns [OF Cons.prems(1) o] show ?thesis
      using Cons.IH Cons.prems(2) o by (simp add: Op_Open)
  next
    case Op_Close
    obtain fd1 k1 where c: "tclose fd k = (fd1, k1)" by (cases "tclose fd k")
    from close_owns [OF Cons.prems(1)] show ?thesis
      using Cons.IH Cons.prems(2) c by (simp add: Op_Close)
  next
    case (Op_Send f)
    have "owns base fd (snd (tsend fd f k))"
      using Cons.prems(1) by (simp add: owns_def send_fds)
    then show ?thesis using Cons.IH Cons.prems(2) by (simp add: Op_Send)
  qed
qed

text \<open>The destructor closes: whatever was done with the transport, no descriptor is left behind.\<close>

lemma no_leak:
  assumes "live_fds k = base" "fd < 0" "run_transport topen tclose tsend (ops @ [Op_Close]) (fd, k) = (fd', k')"
  shows "fd' < 0" "live_fds k' = base"
proof -
  have "fd' < 0"
    using assms(3)
  proof (induction ops arbitrary: fd k)
    case Nil
    then show ?case using close_closed [of fd k] by (cases "tclose fd k") simp
  next
    case (Cons op ops)
    obtain fd1 k1 where "run_transport topen tclose tsend [op] (fd, k) = (fd1, k1)"
      by (cases "run_transport topen tclose tsend [op] (fd, k)")
    then have "run_transport topen tclose tsend (ops @ [Op_Close]) (fd1, k1) = (fd', k')"
      using Cons.prems by (cases op) auto
    then show ?case by (rule Cons.IH)
  qed
  moreover have "owns base fd' k'"
    using run_owns [OF _ assms(3), of base] assms(1,2) by (simp add: owns_def)
  ultimately show "fd' < 0" "live_fds k' = base" by (simp_all add: owns_def)
qed

end

end
