(* ===== verification/Backend_Interface.thy ===== *)
theory Backend_Interface
  imports Socket_Can IEEE754
begin

section \<open>The interface between the ros2\_control plugins and their backends\<close>

text \<open>
  \<open>odesc/drive_backend.hpp\<close> and \<open>pxx/motor_backend.hpp\<close> declare the same abstract class with four
  operations: \<open>activate\<close>, \<open>deactivate\<close>, \<open>read\<close> and \<open>write\<close>. The locale \<open>joint_backend\<close> is that
  interface: what a backend promises to the plugin that drives it. It is interpreted on every
  backend of the code; the plugins' proofs rest on the facts proved here once.
\<close>

subsection \<open>Data\<close>

text \<open>\<open>WheelState\<close> and \<open>JointState\<close> are the same structure.\<close>

record motion_state =
  position_rad :: fp
  velocity_rad_s :: fp

definition zero_state :: motion_state where
  "zero_state = \<lparr>position_rad = fzero, velocity_rad_s = fzero\<rparr>"

text \<open>\<open>bool\<close> result and \<open>std::string * error\<close> out-parameter of every operation.\<close>

type_synonym status = "bool \<times> backend_error option"

text \<open>Vectors of per-joint values that hold no half-written double.\<close>

definition states_ok :: "motion_state list \<Rightarrow> bool" where
  "states_ok sts \<longleftrightarrow> (\<forall>s \<in> set sts. fp_ok binary64 (position_rad s) \<and> fp_ok binary64 (velocity_rad_s s))"

subsection \<open>The plugin's copy loop\<close>

text \<open>
  The loop of \<open>read\<close> in both plugins: \<open>hw_positions_[i]\<close> and \<open>hw_velocities_[i]\<close> take the values of
  \<open>backend_states_[i]\<close>. The vectors are indexed unchecked, so a length that does not fit is
  undefined behaviour.
\<close>

fun copy_states :: "nat list \<Rightarrow> motion_state list \<Rightarrow> fp list \<times> fp list \<Rightarrow> (fp list \<times> fp list) outcome" where
  "copy_states [] sts (ps, vs) = Done (ps, vs)"
| "copy_states (i # is) sts (ps, vs) =
     (if i < length sts \<and> i < length ps \<and> i < length vs
      then copy_states is sts (ps[i := position_rad (sts ! i)], vs[i := velocity_rad_s (sts ! i)])
      else Undefined)"

lemma copy_states_from:
  assumes "length ps = length sts" "length vs = length sts" "j \<le> length sts"
  shows "copy_states [j..<length sts] sts (ps, vs) =
    Done (take j ps @ map position_rad (drop j sts), take j vs @ map velocity_rad_s (drop j sts))"
  using assms
proof (induction "length sts - j" arbitrary: j ps vs)
  case 0
  then show ?case by simp
next
  case (Suc n)
  then have j: "j < length sts" by simp
  let ?ps = "ps[j := position_rad (sts ! j)]" and ?vs = "vs[j := velocity_rad_s (sts ! j)]"
  have "copy_states [j..<length sts] sts (ps, vs) = copy_states [Suc j..<length sts] sts (?ps, ?vs)"
    using j Suc.prems by (simp add: upt_conv_Cons)
  also have "\<dots> = Done (take (Suc j) ?ps @ map position_rad (drop (Suc j) sts),
      take (Suc j) ?vs @ map velocity_rad_s (drop (Suc j) sts))"
    using Suc.hyps(2) Suc.prems j by (intro Suc.hyps(1)) auto
  also have "\<dots> = Done (take j ps @ map position_rad (drop j sts), take j vs @ map velocity_rad_s (drop j sts))"
    using j Suc.prems by (simp add: take_Suc_conv_app_nth Cons_nth_drop_Suc [symmetric])
  finally show ?case .
qed

lemma copy_states_all:
  "length ps = length sts \<Longrightarrow> length vs = length sts \<Longrightarrow>
   copy_states [0..<length sts] sts (ps, vs) = Done (map position_rad sts, map velocity_rad_s sts)"
  using copy_states_from [of ps sts vs 0] by simp

subsection \<open>The contract\<close>

text \<open>
  \<open>'b\<close> is the backend's state, \<open>'e\<close> what the environment supplies to an activation (results of
  system calls, received frames). \<open>inv\<close> relates the state to the kernel: it says which descriptors
  the backend holds. \<open>stopped\<close> are the states in which \<open>activate\<close> may be called: assigning a new
  thread to a running one would end the process.
\<close>

locale joint_backend =
  fixes inv :: "'b \<Rightarrow> kernel \<Rightarrow> bool"
    and width :: "'b \<Rightarrow> nat"
    and stopped :: "'b \<Rightarrow> bool"
    and act :: "'e \<Rightarrow> 'b \<Rightarrow> kernel \<Rightarrow> (status \<times> 'b \<times> kernel) outcome"
    and deact :: "'b \<Rightarrow> kernel \<Rightarrow> status \<times> 'b \<times> kernel"
    and rd :: "motion_state list \<Rightarrow> fp \<Rightarrow> 'b \<Rightarrow> (status \<times> motion_state list \<times> 'b) outcome"
    and wr :: "fp list \<Rightarrow> 'b \<Rightarrow> kernel \<Rightarrow> (status \<times> 'b \<times> kernel) outcome"
  assumes activate_law: "inv b k \<Longrightarrow> stopped b \<Longrightarrow>
      \<exists>ok e b' k'. act env b k = Done ((ok, e), b', k') \<and> inv b' k' \<and> width b' = width b \<and>
        (ok \<or> stopped b')"
    and deactivate_law: "inv b k \<Longrightarrow> deact b k = (st, b', k') \<Longrightarrow>
      inv b' k' \<and> width b' = width b \<and> stopped b'"
    and read_law: "inv b k \<Longrightarrow> length sts = width b \<Longrightarrow>
      \<exists>ok e sts' b'. rd sts period b = Done ((ok, e), sts', b') \<and> inv b' k \<and> width b' = width b \<and>
        stopped b' = stopped b \<and> length sts' = width b"
    and write_law: "inv b k \<Longrightarrow>
      \<exists>ok e b' k'. wr cmds b k = Done ((ok, e), b', k') \<and> inv b' k' \<and> width b' = width b \<and>
        stopped b' = stopped b \<and> (ok \<longrightarrow> length cmds = width b)"
begin

text \<open>A plugin that keeps its vectors as long as the backend's joints reads without a bad index.\<close>

lemma read_then_copy:
  assumes "inv b k" "length sts = width b" "length ps = width b" "length vs = width b"
  obtains ok e sts' b' where "rd sts period b = Done ((ok, e), sts', b')"
    "inv b' k" "width b' = width b" "stopped b' = stopped b" "length sts' = width b"
    "copy_states [0..<width b] sts' (ps, vs) = Done (map position_rad sts', map velocity_rad_s sts')"
proof -
  obtain ok e sts' b' where r: "rd sts period b = Done ((ok, e), sts', b')"
    "inv b' k" "width b' = width b" "stopped b' = stopped b" "length sts' = width b"
    using read_law [OF assms(1,2)] by blast
  have "copy_states [0..<width b] sts' (ps, vs) = Done (map position_rad sts', map velocity_rad_s sts')"
    using copy_states_all [of ps sts' vs] r(5) assms(3,4) by simp
  with r show ?thesis using that by blast
qed

text \<open>Stopping a backend always makes it safe to start again.\<close>

lemma restart_defined:
  assumes "inv b k"
  shows "\<exists>st b' k'. act env (fst (snd (deact b k))) (snd (snd (deact b k))) = Done (st, b', k')
    \<and> inv b' k' \<and> width b' = width b"
proof -
  obtain st b1 k1 where d: "deact b k = (st, b1, k1)" by (cases "deact b k")
  have "inv b1 k1" "width b1 = width b" "stopped b1" using deactivate_law [OF assms d] by auto
  with activate_law [of b1 k1 env] show ?thesis by (auto simp: d)
qed

end

end
