(* ===== verification/Ros_Control.thy ===== *)
theory Ros_Control
  imports Cpp_Std Backend_Interface
begin

section \<open>What the plugins use of ros2\_control\<close>

text \<open>
  The data ros2\_control hands to a plugin (\<open>HardwareInfo\<close>: parameters and joints with the names of
  their interfaces) and the two result types. The interface names are the ones the plugins' own
  messages quote. The base class's \<open>on_init\<close>, which is not in this repository, is a parameter: its
  success is an argument of the models of \<open>on_init\<close>.
\<close>

datatype callback_return = CB_SUCCESS | CB_ERROR

datatype return_type = RT_OK | RT_ERROR

definition HW_IF_POSITION :: string where "HW_IF_POSITION = ''position''"

definition HW_IF_VELOCITY :: string where "HW_IF_VELOCITY = ''velocity''"

lemma HW_IF_distinct [simp]: "HW_IF_POSITION \<noteq> HW_IF_VELOCITY" "HW_IF_VELOCITY \<noteq> HW_IF_POSITION"
  by (simp_all add: HW_IF_POSITION_def HW_IF_VELOCITY_def)

record joint_info =
  ji_name :: string
  ji_command_interfaces :: "string list"
  ji_state_interfaces :: "string list"
  ji_parameters :: "string \<rightharpoonup> string"

record hardware_info =
  hi_parameters :: "string \<rightharpoonup> string"
  hi_joints :: "joint_info list"

text \<open>An exported interface: the joint, the interface's name, and the vector element it points to.\<close>

datatype storage = Hw_Positions nat | Hw_Velocities nat | Hw_Commands nat

type_synonym interface = "string \<times> string \<times> storage"

end
