(* ===== verification/Plugin_Lifecycle.thy ===== *)
theory Plugin_Lifecycle
  imports Ros_Control
begin

section \<open>A hardware plugin under its controller manager\<close>

text \<open>
  Both plugins are driven the same way: ros2\_control calls the lifecycle callbacks, and \<open>read\<close> and
  \<open>write\<close> in every control cycle; controllers store commands through the exported pointers; a receive
  thread takes its turns in between. This theory holds the events, the machine that gives each
  event the plugin's own callback (its type parameters are the two plugins' states), runs of it, and
  the contract under which a run never goes wrong.
\<close>

subsection \<open>The machine\<close>

datatype phase = Inactive | Active | Finalized

text \<open>
  \<open>'a\<close> is what the environment supplies to an activation and \<open>'x\<close> to a turn of the receive thread.
  An event that ros2\_control does not deliver in a phase leaves the machine as it is: \<open>on_activate\<close>
  comes only in \<open>Inactive\<close>, \<open>on_deactivate\<close> only in \<open>Active\<close>, and an error of \<open>read\<close> or \<open>write\<close>
  finalizes the plugin without any callback.
\<close>

datatype ('a, 'x) event =
    Ev_Activate 'a
  | Ev_Deactivate
  | Ev_Cleanup
  | Ev_Shutdown
  | Ev_Read fp
  | Ev_Write
  | Ev_Command nat fp
  | Ev_Rx 'x

record 'h plugin =
  pl_phase :: phase
  pl_hw :: 'h
  pl_kernel :: kernel

text \<open>The callbacks of a plugin.\<close>

record ('h, 'a, 'x) callbacks =
  cb_activate :: "'a \<Rightarrow> 'h \<Rightarrow> kernel \<Rightarrow> (callback_return \<times> 'h \<times> kernel) outcome"
  cb_deactivate :: "'h \<Rightarrow> kernel \<Rightarrow> (callback_return \<times> 'h \<times> kernel) outcome"
  cb_cleanup :: "'h \<Rightarrow> kernel \<Rightarrow> (callback_return \<times> 'h \<times> kernel) outcome"
  cb_shutdown :: "'h \<Rightarrow> kernel \<Rightarrow> (callback_return \<times> 'h \<times> kernel) outcome"
  cb_read :: "fp \<Rightarrow> 'h \<Rightarrow> (return_type \<times> 'h) outcome"
  cb_write :: "'h \<Rightarrow> kernel \<Rightarrow> (return_type \<times> 'h \<times> kernel) outcome"
  cb_command :: "nat \<Rightarrow> fp \<Rightarrow> 'h \<Rightarrow> 'h"
  cb_rx :: "'x \<Rightarrow> 'h \<Rightarrow> 'h"

fun plugin_step :: "('h, 'a, 'x) callbacks \<Rightarrow> ('a, 'x) event \<Rightarrow> 'h plugin \<Rightarrow> 'h plugin outcome" where
  "plugin_step cb (Ev_Activate c) p =
     (if pl_phase p = Inactive
      then and_then (cb_activate cb c (pl_hw p) (pl_kernel p)) (\<lambda>(r, h, k).
        Done \<lparr>pl_phase = (if r = CB_SUCCESS then Active else Inactive), pl_hw = h, pl_kernel = k\<rparr>)
      else Done p)"
| "plugin_step cb Ev_Deactivate p =
     (if pl_phase p = Active
      then and_then (cb_deactivate cb (pl_hw p) (pl_kernel p)) (\<lambda>(_, h, k).
        Done \<lparr>pl_phase = Inactive, pl_hw = h, pl_kernel = k\<rparr>)
      else Done p)"
| "plugin_step cb Ev_Cleanup p =
     (if pl_phase p = Inactive
      then and_then (cb_cleanup cb (pl_hw p) (pl_kernel p)) (\<lambda>(_, h, k).
        Done (p\<lparr>pl_hw := h, pl_kernel := k\<rparr>))
      else Done p)"
| "plugin_step cb Ev_Shutdown p =
     and_then (cb_shutdown cb (pl_hw p) (pl_kernel p)) (\<lambda>(_, h, k).
       Done \<lparr>pl_phase = Finalized, pl_hw = h, pl_kernel = k\<rparr>)"
| "plugin_step cb (Ev_Read period) p =
     (if pl_phase p \<noteq> Finalized
      then and_then (cb_read cb period (pl_hw p)) (\<lambda>(r, h).
        Done (p\<lparr>pl_phase := (if r = RT_OK then pl_phase p else Finalized), pl_hw := h\<rparr>))
      else Done p)"
| "plugin_step cb Ev_Write p =
     (if pl_phase p \<noteq> Finalized
      then and_then (cb_write cb (pl_hw p) (pl_kernel p)) (\<lambda>(r, h, k).
        Done \<lparr>pl_phase = (if r = RT_OK then pl_phase p else Finalized), pl_hw = h, pl_kernel = k\<rparr>)
      else Done p)"
| "plugin_step cb (Ev_Command i c) p = Done (p\<lparr>pl_hw := cb_command cb i c (pl_hw p)\<rparr>)"
| "plugin_step cb (Ev_Rx x) p = Done (p\<lparr>pl_hw := cb_rx cb x (pl_hw p)\<rparr>)"

fun plugin_run :: "('h, 'a, 'x) callbacks \<Rightarrow> ('a, 'x) event list \<Rightarrow> 'h plugin \<Rightarrow> 'h plugin outcome" where
  "plugin_run cb [] p = Done p"
| "plugin_run cb (e # es) p = and_then (plugin_step cb e p) (plugin_run cb es)"

inductive plugin_reach :: "('h, 'a, 'x) callbacks \<Rightarrow> 'h plugin \<Rightarrow> 'h plugin \<Rightarrow> bool"
  for cb :: "('h, 'a, 'x) callbacks" and p0 :: "'h plugin" where
  start: "plugin_reach cb p0 p0"
| event: "plugin_reach cb p0 p \<Longrightarrow> plugin_step cb e p = Done p' \<Longrightarrow> plugin_reach cb p0 p'"

lemma plugin_run_append: "plugin_run cb (es @ fs) p = and_then (plugin_run cb es p) (plugin_run cb fs)"
proof (induction es arbitrary: p)
  case (Cons e es)
  then show ?case by (cases "plugin_step cb e p") simp_all
qed simp

lemma plugin_reach_run: "plugin_reach cb p0 p \<longleftrightarrow> (\<exists>es. plugin_run cb es p0 = Done p)"
proof
  assume "plugin_reach cb p0 p"
  then show "\<exists>es. plugin_run cb es p0 = Done p"
  proof induction
    case start
    then show ?case by (intro exI [of _ "[]"]) simp
  next
    case (event p e p')
    then obtain es where "plugin_run cb es p0 = Done p" by blast
    with event show ?case by (intro exI [of _ "es @ [e]"]) (simp add: plugin_run_append and_then_Done_iff)
  qed
next
  assume "\<exists>es. plugin_run cb es p0 = Done p"
  then obtain es where "plugin_run cb es p0 = Done p" by blast
  then show "plugin_reach cb p0 p"
    by (induction es arbitrary: p rule: rev_induct)
      (auto simp: plugin_run_append and_then_Done_iff intro: plugin_reach.intros)
qed

subsection \<open>The contract\<close>

text \<open>
  \<open>pinv\<close> is the plugin's invariant over its members and the kernel, \<open>pstopped\<close> says that its backend
  is stopped. A plugin that meets the laws survives every sequence of events.
\<close>

locale hardware_plugin =
  fixes cb :: "('h, 'a, 'x) callbacks"
    and pinv :: "'h \<Rightarrow> kernel \<Rightarrow> bool"
    and pstopped :: "'h \<Rightarrow> bool"
  assumes activate: "pinv h k \<Longrightarrow> pstopped h \<Longrightarrow>
      \<exists>r h' k'. cb_activate cb c h k = Done (r, h', k') \<and> pinv h' k' \<and> (r = CB_SUCCESS \<or> pstopped h')"
    and deactivate: "pinv h k \<Longrightarrow>
      \<exists>h' k'. cb_deactivate cb h k = Done (CB_SUCCESS, h', k') \<and> pinv h' k' \<and> pstopped h'"
    and cleanup: "cb_cleanup cb = cb_deactivate cb"
    and shutdown: "cb_shutdown cb = cb_deactivate cb"
    and read: "pinv h k \<Longrightarrow>
      \<exists>r h'. cb_read cb period h = Done (r, h') \<and> pinv h' k \<and> pstopped h' = pstopped h"
    and "write": "pinv h k \<Longrightarrow>
      \<exists>r h' k'. cb_write cb h k = Done (r, h', k') \<and> pinv h' k' \<and> pstopped h' = pstopped h"
    and command: "pinv h k \<Longrightarrow> pinv (cb_command cb i v h) k \<and> pstopped (cb_command cb i v h) = pstopped h"
    and rx: "pinv h k \<Longrightarrow> pinv (cb_rx cb x h) k \<and> pstopped (cb_rx cb x h) = pstopped h"
begin

definition ok :: "'h plugin \<Rightarrow> bool" where
  "ok p \<longleftrightarrow> pinv (pl_hw p) (pl_kernel p) \<and> (pl_phase p = Inactive \<longrightarrow> pstopped (pl_hw p))"

lemma step_ok:
  assumes "ok p"
  shows "\<exists>p'. plugin_step cb e p = Done p' \<and> ok p'"
proof (cases e)
  case (Ev_Activate c)
  show ?thesis
  proof (cases "pl_phase p = Inactive")
    case True
    with assms activate [of "pl_hw p" "pl_kernel p" c] show ?thesis
      by (auto simp: Ev_Activate ok_def)
  qed (use assms in \<open>simp add: Ev_Activate\<close>)
next
  case Ev_Deactivate
  with assms deactivate [of "pl_hw p" "pl_kernel p"] show ?thesis by (auto simp: ok_def)
next
  case Ev_Cleanup
  with assms deactivate [of "pl_hw p" "pl_kernel p"] show ?thesis by (auto simp: ok_def cleanup)
next
  case Ev_Shutdown
  with assms deactivate [of "pl_hw p" "pl_kernel p"] show ?thesis by (auto simp: ok_def shutdown)
next
  case (Ev_Read period)
  with assms read [of "pl_hw p" "pl_kernel p" period] show ?thesis by (auto simp: ok_def)
next
  case Ev_Write
  with assms "write" [of "pl_hw p" "pl_kernel p"] show ?thesis by (auto simp: ok_def)
next
  case (Ev_Command i v)
  with assms command [of "pl_hw p" "pl_kernel p" i v] show ?thesis by (auto simp: ok_def)
next
  case (Ev_Rx x)
  with assms rx [of "pl_hw p" "pl_kernel p" x] show ?thesis by (auto simp: ok_def)
qed

lemma reach_ok: "plugin_reach cb p0 p \<Longrightarrow> ok p0 \<Longrightarrow> ok p"
proof (induction rule: plugin_reach.induct)
  case (event p e p')
  with step_ok [of p e] show ?case by simp
qed

lemma run_ok: "ok p \<Longrightarrow> \<exists>p'. plugin_run cb es p = Done p' \<and> ok p'"
proof (induction es arbitrary: p)
  case (Cons e es)
  from step_ok [OF Cons.prems, of e] obtain p1 where "plugin_step cb e p = Done p1" "ok p1" by blast
  with Cons.IH show ?case by simp
qed simp

text \<open>Whatever happened before, a shutdown leaves the plugin stopped.\<close>

lemma shutdown_stops:
  assumes "ok p"
  obtains p' where "plugin_run cb (es @ [Ev_Shutdown]) p = Done p'" "pl_phase p' = Finalized"
    "pinv (pl_hw p') (pl_kernel p')" "pstopped (pl_hw p')"
proof -
  obtain p1 where p1: "plugin_run cb es p = Done p1" "ok p1" using run_ok [OF assms] by blast
  then obtain h' k' where d: "cb_deactivate cb (pl_hw p1) (pl_kernel p1) = Done (CB_SUCCESS, h', k')"
    "pinv h' k'" "pstopped h'"
    using deactivate [of "pl_hw p1" "pl_kernel p1"] by (auto simp: ok_def)
  show ?thesis
    using p1(1) d by (intro that) (auto simp: plugin_run_append shutdown)
qed

end

end
