(* ===== verification/Float_Bits.thy ===== *)
theory Float_Bits
  imports IEEE754
begin

section \<open>The 32-bit encoding of \<open>float\<close>\<close>

text \<open>
  What \<open>std::memcpy\<close> between a \<open>float\<close> and a \<open>std::uint32_t\<close> does: the IEEE 754 single-precision
  encoding, sign bit 31, exponent bits 30 to 23, fraction bits 22 to 0. Every NaN pattern decodes to
  the one NaN of the model, which encodes to the quiet NaN with an empty payload (the payload of a
  NaN that arithmetic produced is implementation-defined). The lemmas: a float survives encoding
  and decoding, every decoded pattern is a float, and a float is a double unchanged.
\<close>

definition decode32 :: "u32 \<Rightarrow> fp" where
  "decode32 w = (let n = uint w; s = (n div 2 ^ 31 = 1); e = n div 2 ^ 23 mod 2 ^ 8; f = n mod 2 ^ 23 in
     if e = 255 then (if f = 0 then FInf s else FNaN)
     else if e = 0 then FFin s (of_int f * pow2 (- 149))
     else FFin s (of_int (f + 2 ^ 23) * pow2 (e - 150)))"

definition sign_part :: "bool \<Rightarrow> int" where
  "sign_part s = (if s then 2 ^ 31 else 0)"

fun encode32 :: "fp \<Rightarrow> u32" where
  "encode32 FNaN = 0x7FC00000"
| "encode32 (FInf s) = word_of_int (sign_part s + 0x7F800000)"
| "encode32 (FFin s m) = word_of_int (sign_part s + (if m = 0 then 0
     else let k = max (- 126) (ilog2 m) in (k + 126) * 2 ^ 23 + \<lfloor>m / pow2 (k - 23)\<rfloor>))"

lemma representable_if_ok: "wf_fmt F \<Longrightarrow> fp_ok F (FFin s m) \<Longrightarrow> representable F m"
  using representable_round_mag [of F m] by simp

lemma fp_ok_binary64_if_binary32: "fp_ok binary32 x \<Longrightarrow> fp_ok binary64 x"
proof (cases x)
  case (FFin s m)
  assume ok: "fp_ok binary32 x"
  then have "representable binary32 m"
    using representable_if_ok [of binary32 s m] FFin by simp
  then obtain n e where "0 \<le> n" "n \<le> 2 ^ 24" "- 149 \<le> e" "m = of_int n * pow2 e"
    by (auto simp: representable_def)
  then have "representable binary64 m"
    by (intro representableI [where n = n and e = e]) auto
  then have "round_mag binary64 m = m" by (simp add: round_mag_representable)
  moreover have "m < pow2 1024"
    using ok FFin pow2_less_iff [of 128 1024] by (auto simp del: pow2_less_iff)
  ultimately show ?thesis using ok FFin by simp
qed auto

lemma fconv_id: "fp_ok F x \<Longrightarrow> fconv F x = x"
  by (cases x) auto

text \<open>\<open>static_cast<double>\<close> of a float is exact.\<close>

lemma fconv_widen [simp]: "fp_ok binary32 x \<Longrightarrow> fconv binary64 x = x"
  by (simp add: fconv_id fp_ok_binary64_if_binary32)

lemma fp_ok_fconv [fp_ok_intros]: "wf_fmt G \<Longrightarrow> fp_ok F x \<Longrightarrow> fp_ok G (fconv G x)"
  by (cases x) (auto intro!: fround_ok)

lemma fp_ok_representable:
  "wf_fmt F \<Longrightarrow> representable F m \<Longrightarrow> 0 \<le> m \<Longrightarrow> m < pow2 (emax F + 1) \<Longrightarrow> fp_ok F (FFin s m)"
  by (simp add: round_mag_representable)

lemma fp_ok_decode32 [fp_ok_intros]: "fp_ok binary32 (decode32 w)"
proof -
  define f e where "f = uint w mod 2 ^ 23" and "e = uint w div 2 ^ 23 mod 2 ^ 8"
  have f: "0 \<le> f" "f < 2 ^ 23" and e: "0 \<le> e" "e < 256" by (simp_all add: f_def e_def)
  have "(of_int f :: rat) < of_int (2 ^ 23)" using f(2) by (simp only: of_int_less_iff)
  then have sub: "of_int f * pow2 (- 149) < of_int (2 ^ 23) * pow2 (- 149)"
    by (intro mult_strict_right_mono) auto
  have "of_int (2 ^ 23) * pow2 (- 149) = pow2 (- 126)" using pow2_add [of 23 "- 149"] by simp
  also have "\<dots> < pow2 128" by (simp only: pow2_less_iff)
  finally have sub': "of_int f * pow2 (- 149) < pow2 128" using sub by linarith
  have ok0: "fp_ok binary32 (FFin s (of_int f * pow2 (- 149)))" for s
    using f sub' by (intro fp_ok_representable representableI [where n = f and e = "- 149"]) auto
  have "f + 2 ^ 23 < 2 ^ 24" using f(2) by simp
  then have "(of_int (f + 2 ^ 23) :: rat) < of_int (2 ^ 24)" by (simp only: of_int_less_iff)
  then have nor: "of_int (f + 2 ^ 23) * pow2 (e - 150) < of_int (2 ^ 24) * pow2 (e - 150)"
    by (intro mult_strict_right_mono) auto
  have ok1: "fp_ok binary32 (FFin s (of_int (f + 2 ^ 23) * pow2 (e - 150)))" if "e \<noteq> 255" "e \<noteq> 0" for s
  proof -
    have "of_int (2 ^ 24) * pow2 (e - 150) = pow2 (e - 126)"
      using pow2_add [of 24 "e - 150"] by simp
    also have "\<dots> \<le> pow2 128" using e that by (simp only: pow2_le_iff)
    finally have "of_int (f + 2 ^ 23) * pow2 (e - 150) < pow2 128" using nor by linarith
    then show ?thesis
      using f e that by (intro fp_ok_representable representableI [where n = "f + 2 ^ 23" and e = "e - 150"]) auto
  qed
  have d: "decode32 w = (let s = (uint w div 2 ^ 31 = 1) in
      if e = 255 then (if f = 0 then FInf s else FNaN)
      else if e = 0 then FFin s (of_int f * pow2 (- 149))
      else FFin s (of_int (f + 2 ^ 23) * pow2 (e - 150)))"
    by (simp only: decode32_def Let_def f_def e_def)
  show ?thesis
  proof (cases "e = 255")
    case True
    then show ?thesis by (simp add: d)
  next
    case ne: False
    show ?thesis
    proof (cases "e = 0")
      case True
      with ne have "decode32 w = FFin (uint w div 2 ^ 31 = 1) (of_int f * pow2 (- 149))"
        unfolding d by (simp only: Let_def if_False if_True refl)
      then show ?thesis by (simp only: ok0)
    next
      case False
      with ne have "decode32 w = FFin (uint w div 2 ^ 31 = 1) (of_int (f + 2 ^ 23) * pow2 (e - 150))"
        unfolding d by (simp only: Let_def if_False)
      then show ?thesis using ok1 [OF ne False] by (simp only:)
    qed
  qed
qed

lemma fp_ok_scaled:
  assumes ok: "fp_ok binary32 (FFin s m)" and m: "0 < m"
  defines "k \<equiv> max (- 126) (ilog2 m)"
  obtains n where "m = of_int n * pow2 (k - 23)" "0 < n" "n < 2 ^ 24" "k \<le> 127"
    "n < 2 ^ 23 \<Longrightarrow> k = - 126"
proof -
  have ue: "ulp_exp binary32 m = k - 23" by (simp add: ulp_exp_def k_def)
  define n where "n = round_even (m / pow2 (k - 23))"
  have mn: "m = of_int n * pow2 (k - 23)"
    using ok m by (simp add: round_mag_def Let_def ue n_def)
  have "of_int n = m / pow2 (k - 23)" using mn by (simp add: field_simps)
  then have b: "0 < (of_int n :: rat)" "of_int n < (of_int (2 ^ 24) :: rat)"
    using scaled_bounds [OF m, of binary32] by (simp_all add: ue)
  then have n: "0 < n" "n < 2 ^ 24" by (simp_all only: of_int_0_less_iff of_int_less_iff)
  have "m < pow2 128" using ok by (simp del: power_int_numeral)
  then have "pow2 (ilog2 m) < pow2 128" using ilog2_bounds(1) [OF m] by linarith
  then have "ilog2 m < 128" by (simp only: pow2_less_iff)
  then have k: "k \<le> 127" by (simp add: k_def)
  have "k = - 126" if "n < 2 ^ 23"
  proof (rule ccontr)
    assume "k \<noteq> - 126"
    then have kl: "k = ilog2 m" by (simp add: k_def max_def split: if_splits)
    have "(of_int n :: rat) < of_int (2 ^ 23)" using that by (simp only: of_int_less_iff)
    then have "m < of_int (2 ^ 23) * pow2 (k - 23)"
      unfolding mn by (intro mult_strict_right_mono) auto
    also have "\<dots> = pow2 k" using pow2_add [of 23 "k - 23"] by simp
    finally show False using ilog2_bounds(1) [OF m] kl by simp
  qed
  then show ?thesis using that mn n k by blast
qed

theorem decode32_encode32:
  assumes ok: "fp_ok binary32 x"
  shows "decode32 (encode32 x) = x"
proof (cases x)
  case FNaN
  then show ?thesis by (simp add: decode32_def)
next
  case (FInf s)
  then show ?thesis by (cases s) (simp_all add: decode32_def sign_part_def)
next
  case (FFin s m)
  show ?thesis
  proof (cases "m = 0")
    case True
    then show ?thesis by (cases s) (simp_all add: FFin decode32_def sign_part_def)
  next
    case False
    then have m: "0 < m" using ok FFin by simp
    define k where "k = max (- 126) (ilog2 m)"
    obtain n where mn: "m = of_int n * pow2 (k - 23)" and n: "0 < n" "n < 2 ^ 24"
      and k: "k \<le> 127" "n < 2 ^ 23 \<Longrightarrow> k = - 126"
      using fp_ok_scaled [of s m] ok FFin m unfolding k_def by blast
    have k0: "- 126 \<le> k" by (simp add: k_def)
    define E where "E = sign_part s + ((k + 126) * 2 ^ 23 + n)"
    have fl: "\<lfloor>m / pow2 (k - 23)\<rfloor> = n" by (simp add: mn)
    have enc: "encode32 x = word_of_int E"
      using False by (simp add: FFin E_def Let_def k_def [symmetric] fl)
    have lo: "(k + 126) * 2 ^ 23 + n < 2 ^ 31" "0 \<le> (k + 126) * 2 ^ 23 + n"
      using k0 k(1) n by auto
    then have ui: "uint (encode32 x) = E"
      unfolding enc by (subst uint_word_of_int_eq, subst take_bit_int_eq_self) (auto simp: E_def sign_part_def)
    have "E div 2 ^ 31 = (if s then 1 else 0)"
      using lo by (cases s) (auto simp: E_def sign_part_def div_pos_pos_trivial)
    then have sg: "(E div 2 ^ 31 = 1) = s" by simp
    define h where "h = (if n < 2 ^ 23 then 0 else 1 :: int)"
    define a where "a = k + 126 + h"
    have a: "0 \<le> a" "a < 2 ^ 8" using k0 k by (auto simp: a_def h_def)
    have r: "0 \<le> n - h * 2 ^ 23" "n - h * 2 ^ 23 < 2 ^ 23" using n by (auto simp: h_def)
    have E: "E = ((if s then 2 ^ 8 else 0) + a) * 2 ^ 23 + (n - h * 2 ^ 23)"
      by (simp add: E_def a_def sign_part_def algebra_simps)
    have f: "E mod 2 ^ 23 = n - h * 2 ^ 23" and d: "E div 2 ^ 23 = (if s then 2 ^ 8 else 0) + a"
      unfolding E by (rule div_mod_scaled [OF r])+
    have e: "E div 2 ^ 23 mod 2 ^ 8 = a"
      unfolding d using a by (cases s) simp_all
    have D: "decode32 (encode32 x) =
       (if a = 255 then (if n - h * 2 ^ 23 = 0 then FInf s else FNaN)
        else if a = 0 then FFin s (of_int (n - h * 2 ^ 23) * pow2 (- 149))
        else FFin s (of_int (n - h * 2 ^ 23 + 2 ^ 23) * pow2 (a - 150)))"
      by (simp only: decode32_def ui Let_def e f sg)
    show ?thesis
    proof (cases "n < 2 ^ 23")
      case True
      then have "k = - 126" "h = 0" "a = 0" using k(2) by (simp_all add: h_def a_def)
      then show ?thesis unfolding D by (simp add: FFin mn)
    next
      case False
      then have h: "h = 1" "a = k + 127" by (simp_all add: h_def a_def)
      have "a \<noteq> 255" "a \<noteq> 0" "a - 150 = k - 23" "n - h * 2 ^ 23 + 2 ^ 23 = n"
        using k0 k(1) h by simp_all
      then show ?thesis unfolding D by (simp only: FFin mn if_False)
    qed
  qed
qed

end
