(* ===== verification/Odesc_Can.thy ===== *)
theory Odesc_Can
  imports Socket_Can Float_Bits
begin

section \<open>ODrive CANSimple: \<open>odesc/can.hpp\<close>\<close>

text \<open>
  The protocol helpers and the transport of the drivetrain: command identifiers, arbitration
  identifiers, the two frames the driver sends, the one it parses, and \<open>SocketCanTransport\<close>. The
  lemmas: identifiers and payloads survive encoding and decoding, a frame survives the kernel, and
  the transport keeps the contract of \<open>Socket_Can\<close>.
\<close>

subsection \<open>Identifiers\<close>

datatype CommandId =
    MSG_CO_NMT_CTRL
  | MSG_ODRIVE_HEARTBEAT
  | MSG_ODRIVE_ESTOP
  | MSG_GET_MOTOR_ERROR
  | MSG_GET_ENCODER_ERROR
  | MSG_GET_SENSORLESS_ERROR
  | MSG_SET_AXIS_NODE_ID
  | MSG_SET_AXIS_REQUESTED_STATE
  | MSG_SET_AXIS_STARTUP_CONFIG
  | MSG_GET_ENCODER_ESTIMATES
  | MSG_GET_ENCODER_COUNT
  | MSG_SET_CONTROLLER_MODES
  | MSG_SET_INPUT_POS
  | MSG_SET_INPUT_VEL
  | MSG_SET_INPUT_TORQUE
  | MSG_SET_LIMITS
  | MSG_START_ANTICOGGING
  | MSG_SET_TRAJ_VEL_LIMIT
  | MSG_SET_TRAJ_ACCEL_LIMITS
  | MSG_SET_TRAJ_INERTIA
  | MSG_GET_IQ
  | MSG_GET_SENSORLESS_ESTIMATES
  | MSG_REBOOT_ODRIVE
  | MSG_GET_VBUS_VOLTAGE
  | MSG_CLEAR_ERRORS
  | MSG_SET_LINEAR_COUNT
  | MSG_SET_POSITION_GAIN
  | MSG_SET_VEL_GAINS
  | MSG_GET_ADC_VOLTAGE
  | MSG_GET_CONTROLLER_ERROR

fun command_code :: "CommandId \<Rightarrow> u8" where
  "command_code MSG_CO_NMT_CTRL = 0x00"
| "command_code MSG_ODRIVE_HEARTBEAT = 0x01"
| "command_code MSG_ODRIVE_ESTOP = 0x02"
| "command_code MSG_GET_MOTOR_ERROR = 0x03"
| "command_code MSG_GET_ENCODER_ERROR = 0x04"
| "command_code MSG_GET_SENSORLESS_ERROR = 0x05"
| "command_code MSG_SET_AXIS_NODE_ID = 0x06"
| "command_code MSG_SET_AXIS_REQUESTED_STATE = 0x07"
| "command_code MSG_SET_AXIS_STARTUP_CONFIG = 0x08"
| "command_code MSG_GET_ENCODER_ESTIMATES = 0x09"
| "command_code MSG_GET_ENCODER_COUNT = 0x0A"
| "command_code MSG_SET_CONTROLLER_MODES = 0x0B"
| "command_code MSG_SET_INPUT_POS = 0x0C"
| "command_code MSG_SET_INPUT_VEL = 0x0D"
| "command_code MSG_SET_INPUT_TORQUE = 0x0E"
| "command_code MSG_SET_LIMITS = 0x0F"
| "command_code MSG_START_ANTICOGGING = 0x10"
| "command_code MSG_SET_TRAJ_VEL_LIMIT = 0x11"
| "command_code MSG_SET_TRAJ_ACCEL_LIMITS = 0x12"
| "command_code MSG_SET_TRAJ_INERTIA = 0x13"
| "command_code MSG_GET_IQ = 0x14"
| "command_code MSG_GET_SENSORLESS_ESTIMATES = 0x15"
| "command_code MSG_REBOOT_ODRIVE = 0x16"
| "command_code MSG_GET_VBUS_VOLTAGE = 0x17"
| "command_code MSG_CLEAR_ERRORS = 0x18"
| "command_code MSG_SET_LINEAR_COUNT = 0x19"
| "command_code MSG_SET_POSITION_GAIN = 0x1A"
| "command_code MSG_SET_VEL_GAINS = 0x1B"
| "command_code MSG_GET_ADC_VOLTAGE = 0x1C"
| "command_code MSG_GET_CONTROLLER_ERROR = 0x1D"

definition kCommandIdBits :: nat where "kCommandIdBits = 5"

definition kMaxNodeId :: u8 where "kMaxNodeId = 0x3F"

definition kMaxDataLength :: u8 where "kMaxDataLength = 8"

datatype AxisState = kIdle | kClosedLoopControl

fun axis_state_value :: "AxisState \<Rightarrow> u32" where
  "axis_state_value kIdle = 1"
| "axis_state_value kClosedLoopControl = 8"

record ArbitrationId =
  node_id :: u8
  command_id :: u8

record Frame =
  arbitration_id :: u16
  data_length :: u8
  data :: "u8 list"

record EncoderEstimate =
  position_turns :: fp
  velocity_turns_s :: fp

definition empty_Frame :: Frame where
  "empty_Frame = \<lparr>arbitration_id = 0, data_length = 0, data = replicate 8 0\<rparr>"

definition MakeArbitrationId :: "u8 \<Rightarrow> u8 \<Rightarrow> u16" where
  "MakeArbitrationId node command =
     push_bit kCommandIdBits (ucast node) OR (ucast command AND 0x1F)"

definition ParseArbitrationId :: "u16 \<Rightarrow> ArbitrationId" where
  "ParseArbitrationId a =
     \<lparr>node_id = ucast (drop_bit kCommandIdBits a AND ucast kMaxNodeId),
      command_id = ucast (a AND 0x1F)\<rparr>"

subsection \<open>Frames\<close>

text \<open>The loop that stores the bytes of a 32-bit value, least significant first.\<close>

definition put_bytes :: "u32 \<Rightarrow> nat \<Rightarrow> u8 list \<Rightarrow> u8 list" where
  "put_bytes value n d = fold (\<lambda>i d. d[i := ucast (drop_bit (i * 8) value)]) [0..<n] d"

definition MakeAxisStateFrame :: "u8 \<Rightarrow> AxisState \<Rightarrow> Frame" where
  "MakeAxisStateFrame node axis_state = (let
     f = empty_Frame\<lparr>
       arbitration_id := MakeArbitrationId node (command_code MSG_SET_AXIS_REQUESTED_STATE),
       data_length := 4\<rparr>;
     v = axis_state_value axis_state
   in f\<lparr>data := put_bytes v (unat (data_length f)) (data f)\<rparr>)"

definition MakeInputVelocityFrame :: "u8 \<Rightarrow> fp \<Rightarrow> Frame" where
  "MakeInputVelocityFrame node velocity = (let
     f = empty_Frame\<lparr>
       arbitration_id := MakeArbitrationId node (command_code MSG_SET_INPUT_VEL),
       data_length := 8\<rparr>;
     bits = encode32 velocity
   in f\<lparr>data := put_bytes bits 4 (data f)\<rparr>)"

definition ParseEncoderEstimate :: "Frame \<Rightarrow> EncoderEstimate option" where
  "ParseEncoderEstimate f =
     (if data_length f < 8 then None
      else let
        (p, v) = fold (\<lambda>i (p, v).
            (p OR push_bit (i * 8) (ucast (data f ! i)), v OR push_bit (i * 8) (ucast (data f ! (i + 4)))))
          [0..<4] (0 :: u32, 0 :: u32)
      in Some \<lparr>position_turns = decode32 p, velocity_turns_s = decode32 v\<rparr>)"

subsection \<open>\<open>SocketCanTransport\<close>\<close>

text \<open>The transport's state is its descriptor \<open>fd_\<close>; negative is closed.\<close>

definition transport_is_open :: "int \<Rightarrow> bool" where
  "transport_is_open fd \<longleftrightarrow> 0 \<le> fd"

definition transport_close :: "int \<Rightarrow> kernel \<Rightarrow> int \<times> kernel" where
  "transport_close fd k = (if 0 \<le> fd then (-1, sys_close fd k) else (fd, k))"

definition transport_open ::
  "open_calls \<Rightarrow> string \<Rightarrow> int \<Rightarrow> kernel \<Rightarrow> (bool \<times> backend_error option) \<times> int \<times> kernel" where
  "transport_open c interface_name fd k = (let
     (fd, k) = transport_close fd k;
     (fd, k) = sys_socket c k
   in if fd < 0 then ((False, Some Socket_Failed), fd, k)
      else case if_index c (ifr_name interface_name) of
        None \<Rightarrow> (let (fd, k) = transport_close fd k
                 in ((False, Some (Interface_Not_Found interface_name)), fd, k))
      | Some ifindex \<Rightarrow>
          if bind_ret c ifindex < 0
          then (let (fd, k) = transport_close fd k
                in ((False, Some (Bind_Failed interface_name)), fd, k))
          else ((True, None), fd, k))"

definition socket_frame :: "Frame \<Rightarrow> can_frame" where
  "socket_frame f = \<lparr>can_id = ucast (arbitration_id f) AND CAN_SFF_MASK,
     can_dlc = data_length f, can_data = copy_bytes (unat (data_length f)) (data f)\<rparr>"

definition transport_send :: "int \<Rightarrow> Frame \<Rightarrow> kernel \<Rightarrow> (bool \<times> backend_error option) \<times> kernel" where
  "transport_send fd f k =
     (if \<not> transport_is_open fd \<or> kMaxDataLength < data_length f
      then ((False, Some Closed_Or_Bad_Length), k)
      else let (n, k) = sys_write (socket_frame f) k
      in if n \<noteq> sizeof_can_frame then ((False, Some Write_Failed), k) else ((True, None), k))"

definition transport_receive :: "int \<Rightarrow> rx_calls \<Rightarrow> Frame option \<times> backend_error option" where
  "transport_receive fd c =
     (if \<not> transport_is_open fd then (None, Some Transport_Closed)
      else if poll_ret c = 0 \<or> (poll_ret c < 0 \<and> poll_eintr c) then (None, None)
      else if poll_ret c < 0 \<or> \<not> poll_in c then (None, Some Poll_Failed)
      else if read_ret c \<noteq> sizeof_can_frame then (None, Some Read_Failed)
      else let sf = rx_frame c in
        (Some \<lparr>arbitration_id = ucast (can_id sf AND CAN_SFF_MASK), data_length = can_dlc sf,
           data = copy_bytes (unat (can_dlc sf)) (can_data sf)\<rparr>, None))"

subsection \<open>Round trips\<close>

lemma command_code_small: "command_code c AND 0x1F = command_code c"
  by (cases c) simp_all

lemma command_code_low: "bit (command_code c) i \<Longrightarrow> i < 5"
proof -
  have "uint (command_code c) < 2 ^ 5" by (cases c) simp_all
  then show "bit (command_code c) i \<Longrightarrow> i < 5" using high_bits_unset [of "command_code c" 5 i] by force
qed

lemma node_low: "node \<le> kMaxNodeId \<Longrightarrow> bit node i \<Longrightarrow> i < 6"
  using high_bits_unset [of node 6 i] by (force simp: kMaxNodeId_def word_le_def)

lemma ParseArbitrationId_MakeArbitrationId:
  assumes "node \<le> kMaxNodeId"
  shows "ParseArbitrationId (MakeArbitrationId node (command_code c)) =
    \<lparr>node_id = node, command_id = command_code c\<rparr>"
proof -
  have "ucast (drop_bit 5 (push_bit 5 (ucast node) OR (ucast (command_code c) AND 31 :: u16)) AND 63) = node"
    by (rule bit_word_eqI)
      (auto simp: bit_simps bit_63 bit_31 dest: node_low [OF assms] command_code_low)
  moreover have "ucast ((push_bit 5 (ucast node) OR (ucast (command_code c) AND 31 :: u16)) AND 31) = command_code c"
    by (rule bit_word_eqI)
      (auto simp: bit_simps bit_63 bit_31 dest: command_code_low)
  ultimately show ?thesis
    by (simp add: ParseArbitrationId_def MakeArbitrationId_def kCommandIdBits_def kMaxNodeId_def)
qed

lemma MakeArbitrationId_11_bits:
  assumes "node \<le> kMaxNodeId"
  shows "MakeArbitrationId node (command_code c) AND 0x7FF = MakeArbitrationId node (command_code c)"
proof -
  show ?thesis
    unfolding MakeArbitrationId_def kCommandIdBits_def
    by (rule bit_word_eqI)
      (auto simp: bit_simps bit_2047 bit_31 not_less dest: node_low [OF assms] bit_imp_le_length)
qed

lemma upt_4: "[0..<4] = [0, 1, 2, 3 :: nat]"
  by (simp add: upt_rec)

lemma put_bytes_4 [simp]:
  "put_bytes v 4 (replicate 8 0) = [byte_of 0 v, byte_of 1 v, byte_of 2 v, byte_of 3 v, 0, 0, 0, 0]"
  by (simp add: put_bytes_def upt_4 byte_of_def numeral_eq_Suc)

lemma MakeAxisStateFrame_simps [simp]:
  "arbitration_id (MakeAxisStateFrame n a) = MakeArbitrationId n (command_code MSG_SET_AXIS_REQUESTED_STATE)"
  "data_length (MakeAxisStateFrame n a) = 4"
  "data (MakeAxisStateFrame n a) =
    [byte_of 0 (axis_state_value a), byte_of 1 (axis_state_value a),
     byte_of 2 (axis_state_value a), byte_of 3 (axis_state_value a), 0, 0, 0, 0]"
  by (simp_all add: MakeAxisStateFrame_def empty_Frame_def Let_def)

lemma MakeInputVelocityFrame_simps [simp]:
  "arbitration_id (MakeInputVelocityFrame n v) = MakeArbitrationId n (command_code MSG_SET_INPUT_VEL)"
  "data_length (MakeInputVelocityFrame n v) = 8"
  "data (MakeInputVelocityFrame n v) =
    [byte_of 0 (encode32 v), byte_of 1 (encode32 v), byte_of 2 (encode32 v), byte_of 3 (encode32 v), 0, 0, 0, 0]"
  by (simp_all add: MakeInputVelocityFrame_def empty_Frame_def Let_def)

text \<open>The 32-bit word at an offset of a frame's data, as both parsers read it.\<close>

definition word_at :: "u8 list \<Rightarrow> nat \<Rightarrow> u32" where
  "word_at d i = ucast (d ! i) OR push_bit 8 (ucast (d ! (i + 1))) OR
     push_bit 16 (ucast (d ! (i + 2))) OR push_bit 24 (ucast (d ! (i + 3)))"

lemma ParseEncoderEstimate_eq:
  "ParseEncoderEstimate f = (if data_length f < 8 then None
     else Some \<lparr>position_turns = decode32 (word_at (data f) 0),
                velocity_turns_s = decode32 (word_at (data f) 4)\<rparr>)"
  by (simp add: ParseEncoderEstimate_def upt_4 word_at_def or.assoc numeral_eq_Suc)

lemma word_at_bytes [simp]:
  "word_at (byte_of 0 v # byte_of (Suc 0) v # byte_of 2 v # byte_of 3 v # rest) 0 = v"
  "word_at (a # b # c # d # byte_of 0 v # byte_of (Suc 0) v # byte_of 2 v # byte_of 3 v # rest) 4 = v"
  using word32_of_bytes [of v] by (simp_all add: word_at_def or.assoc numeral_eq_Suc)

text \<open>An encoder-estimates frame as an ODrive sends it: two little-endian floats.\<close>

definition estimate_frame :: "u8 \<Rightarrow> fp \<Rightarrow> fp \<Rightarrow> Frame" where
  "estimate_frame node p v = \<lparr>arbitration_id = MakeArbitrationId node (command_code MSG_GET_ENCODER_ESTIMATES),
     data_length = 8,
     data = [byte_of 0 (encode32 p), byte_of 1 (encode32 p), byte_of 2 (encode32 p), byte_of 3 (encode32 p),
             byte_of 0 (encode32 v), byte_of 1 (encode32 v), byte_of 2 (encode32 v), byte_of 3 (encode32 v)]\<rparr>"

lemma ParseEncoderEstimate_frame:
  "fp_ok binary32 p \<Longrightarrow> fp_ok binary32 v \<Longrightarrow>
   ParseEncoderEstimate (estimate_frame node p v) = Some \<lparr>position_turns = p, velocity_turns_s = v\<rparr>"
  by (simp add: ParseEncoderEstimate_eq estimate_frame_def decode32_encode32)

lemma parsed_estimate_ok:
  "ParseEncoderEstimate f = Some e \<Longrightarrow> fp_ok binary32 (position_turns e) \<and> fp_ok binary32 (velocity_turns_s e)"
  by (auto simp: ParseEncoderEstimate_eq fp_ok_decode32 split: if_splits)

subsection \<open>The transport\<close>

lemma transport_close_simps:
  "fst (transport_close fd k) < 0" "wire (snd (transport_close fd k)) = wire k"
  "n_writes (snd (transport_close fd k)) = n_writes k"
  "write_ret (snd (transport_close fd k)) = write_ret k"
  by (simp_all add: transport_close_def sys_close_def)

lemma transport_close_owns:
  "owns base fd k \<Longrightarrow> owns base (fst (transport_close fd k)) (snd (transport_close fd k))"
  by (simp add: transport_close_def sys_close_def owns_def)

lemma transport_open_owns:
  assumes "owns base fd k" "transport_open c name fd k = (r, fd', k')"
  shows "owns base fd' k'"
proof -
  obtain fd1 k1 where c: "transport_close fd k = (fd1, k1)" by (cases "transport_close fd k")
  have b: "live_fds k1 = base"
    using transport_close_owns [OF assms(1)] transport_close_simps(1) [of fd k] c by (simp add: owns_def)
  show ?thesis
    using assms(2) b unfolding transport_open_def c
    by (auto simp: sys_socket_def transport_close_def sys_close_def owns_def Let_def
        split: option.splits if_splits)
qed

lemma transport_open_result:
  assumes "transport_open c name fd k = ((ok, e), fd', k')"
  shows "ok = (0 \<le> fd') \<and> ok = (e = None) \<and> wire k' = wire k \<and> n_writes k' = n_writes k \<and>
    write_ret k' = write_ret k"
proof -
  obtain fd1 k1 where c: "transport_close fd k = (fd1, k1)" by (cases "transport_close fd k")
  have "wire k1 = wire k" "n_writes k1 = n_writes k" "write_ret k1 = write_ret k"
    using transport_close_simps [of fd k] c by simp_all
  then show ?thesis
    using assms unfolding transport_open_def c
    by (auto simp: sys_socket_def transport_close_def sys_close_def Let_def
        split: option.splits if_splits)
qed

lemma transport_send_closed: "fd < 0 \<Longrightarrow> transport_send fd f k = ((False, Some Closed_Or_Bad_Length), k)"
  by (simp add: transport_send_def transport_is_open_def)

lemma transport_send_frame:
  "live_fds (snd (transport_send fd f k)) = live_fds k"
  "write_ret (snd (transport_send fd f k)) = write_ret k"
  by (simp_all add: transport_send_def sys_write_def Let_def)

interpretation odesc_transport: socket_transport transport_open transport_close transport_send
  by unfold_locales
    (auto simp: transport_close_simps transport_close_owns transport_open_owns transport_send_closed
      transport_send_frame dest: transport_open_result)

lemma transport_send_ok:
  assumes "writes_ok k" "0 \<le> fd" "data_length f \<le> kMaxDataLength"
  shows "transport_send fd f k =
    ((True, None), k\<lparr>n_writes := Suc (n_writes k), wire := wire k @ [socket_frame f]\<rparr>)"
  using assms by (simp add: transport_send_def transport_is_open_def sys_write_ok not_less [symmetric])

text \<open>A frame with an 11-bit identifier whose unused bytes are zero survives the kernel.\<close>

lemma transport_receive_socket_frame:
  assumes "0 \<le> fd" "poll_ret c = 1" "poll_in c" "read_ret c = sizeof_can_frame"
    and c: "rx_frame c = socket_frame f" and len: "data_length f \<le> kMaxDataLength" "length (data f) = 8"
    and id: "arbitration_id f AND 0x7FF = arbitration_id f"
  shows "transport_receive fd c = (Some (f\<lparr>data := copy_bytes (unat (data_length f)) (data f)\<rparr>), None)"
proof -
  have n: "unat (data_length f) \<le> 8"
    using len(1) by (simp add: kMaxDataLength_def word_le_nat_alt)
  have "bit (arbitration_id f) i \<Longrightarrow> i < 11" for i
    using arg_cong [OF id, of "\<lambda>w. bit w i"] by (auto simp: bit_and_iff bit_2047)
  then have "ucast ((ucast (arbitration_id f) AND CAN_SFF_MASK :: u32) AND CAN_SFF_MASK) = arbitration_id f"
    by (intro bit_word_eqI) (auto simp: CAN_SFF_MASK_def bit_simps bit_2047)
  then show ?thesis
    using assms n by (simp add: transport_receive_def transport_is_open_def Let_def socket_frame_def
        copy_bytes_idem)
qed

text \<open>Sending a list of frames, continuing after a failure: \<open>success &= send_frame(...)\<close>.\<close>

fun send_all :: "int \<Rightarrow> Frame list \<Rightarrow> kernel \<Rightarrow> (bool \<times> backend_error option) \<times> kernel" where
  "send_all fd [] k = ((True, None), k)"
| "send_all fd (f # fs) k = (let
     ((ok1, e1), k) = transport_send fd f k;
     ((ok2, e2), k) = send_all fd fs k
   in ((ok1 \<and> ok2, later_error e1 e2), k))"

lemma send_all_frame:
  "live_fds (snd (send_all fd fs k)) = live_fds k \<and> write_ret (snd (send_all fd fs k)) = write_ret k"
proof (induction fs arbitrary: k)
  case (Cons f fs)
  obtain s k1 where "transport_send fd f k = (s, k1)" by (cases "transport_send fd f k")
  then show ?case using Cons [of k1] transport_send_frame [of fd f k] by (auto simp: split: prod.split)
qed simp

lemma send_all_ok:
  assumes "writes_ok k" "0 \<le> fd" "\<And>f. f \<in> set fs \<Longrightarrow> data_length f \<le> kMaxDataLength"
  shows "send_all fd fs k = ((True, None),
    k\<lparr>n_writes := n_writes k + length fs, wire := wire k @ map socket_frame fs\<rparr>)"
  using assms
proof (induction fs arbitrary: k)
  case (Cons f fs)
  have "writes_ok (k\<lparr>n_writes := Suc (n_writes k), wire := wire k @ [socket_frame f]\<rparr>)"
    using Cons.prems(1) by (simp add: writes_ok_def)
  from Cons.IH [OF this] Cons.prems show ?case
    by (simp add: transport_send_ok)
qed simp

end
