(* ===== verification/Bus_Speaker.thy ===== *)
theory Bus_Speaker
  imports Plugin_Lifecycle Odesc_Can
begin

section \<open>A plugin among others on a bus\<close>

text \<open>
  The interface between a plugin and the bus it shares: the frames it ever puts there are of a kind
  fixed at its initialisation, and some of the frames it hears leave it as it is. The locale
  \<open>bus_speaker\<close> lifts both from single calls to whole runs; both plugins are interpretations of it in
  \<open>Shared\_Bus\<close>.
\<close>

subsection \<open>What was put on the bus\<close>

definition puts :: "kernel \<Rightarrow> kernel \<Rightarrow> can_frame set \<Rightarrow> bool" where
  "puts k k' S \<longleftrightarrow> (\<exists>ys. wire k' = wire k @ ys \<and> set ys \<subseteq> S)"

lemma puts_refl [simp]: "puts k k S"
  by (simp add: puts_def)

lemma puts_nothing: "wire k' = wire k \<Longrightarrow> puts k k' S"
  by (simp add: puts_def)

lemma puts_trans: "puts k k1 S \<Longrightarrow> puts k1 k2 S \<Longrightarrow> puts k k2 S"
  by (force simp: puts_def)

lemma puts_write: "f \<in> S \<Longrightarrow> puts k (snd (sys_write f k)) S"
  by (simp add: puts_def sys_write_def Let_def)

lemma puts_wire: "puts k k' S \<Longrightarrow> wire k = [] \<Longrightarrow> f \<in> set (wire k') \<Longrightarrow> f \<in> S"
  by (auto simp: puts_def)

lemma transport_open_wire: "transport_open c name fd k = (st, fd', k') \<Longrightarrow> wire k' = wire k"
  by (auto simp: transport_open_def transport_close_def sys_socket_def sys_close_def Let_def split: if_splits option.splits)

subsection \<open>Turning a deaf ear\<close>

text \<open>
  The events without the receptions that \<open>deaf\<close> picks; \<open>clean\<close> takes them out of what an activation
  receives while it is under way.
\<close>

definition deafen :: "('x \<Rightarrow> bool) \<Rightarrow> ('a \<Rightarrow> 'a) \<Rightarrow> ('a, 'x) event list \<Rightarrow> ('a, 'x) event list" where
  "deafen deaf clean = List.map_filter (\<lambda>e. case e of
     Ev_Rx x \<Rightarrow> if deaf x then None else Some e
   | Ev_Activate c \<Rightarrow> Some (Ev_Activate (clean c))
   | _ \<Rightarrow> Some e)"

lemma deafen_simps [simp]:
  "deafen deaf clean [] = []"
  "deafen deaf clean (e # es) = (case e of
     Ev_Rx x \<Rightarrow> if deaf x then deafen deaf clean es else e # deafen deaf clean es
   | Ev_Activate c \<Rightarrow> Ev_Activate (clean c) # deafen deaf clean es
   | _ \<Rightarrow> e # deafen deaf clean es)"
  by (simp_all add: deafen_def map_filter_simps split: event.split)

subsection \<open>The contract\<close>

text \<open>\<open>says h\<close> are the frames that a plugin in state \<open>h\<close> can ever send.\<close>

locale bus_speaker =
  fixes cb :: "('h, 'a, 'x) callbacks"
    and says :: "'h \<Rightarrow> can_frame set"
    and deaf :: "'x \<Rightarrow> bool"
    and clean :: "'a \<Rightarrow> 'a"
  assumes activate: "cb_activate cb c h k = Done (r, h', k') \<Longrightarrow> says h' = says h \<and> puts k k' (says h)"
    and deactivate: "cb_deactivate cb h k = Done (r, h', k') \<Longrightarrow> says h' = says h \<and> puts k k' (says h)"
    and cleanup: "cb_cleanup cb = cb_deactivate cb"
    and shutdown: "cb_shutdown cb = cb_deactivate cb"
    and read: "cb_read cb period h = Done (q, h') \<Longrightarrow> says h' = says h"
    and "write": "cb_write cb h k = Done (q, h', k') \<Longrightarrow> says h' = says h \<and> puts k k' (says h)"
    and command: "says (cb_command cb i v h) = says h"
    and rx: "says (cb_rx cb x h) = says h"
    and deaf: "deaf x \<Longrightarrow> cb_rx cb x h = h"
    and clean: "cb_activate cb (clean c) = cb_activate cb c"
begin

lemma step_says:
  "plugin_step cb e p = Done p' \<Longrightarrow>
   says (pl_hw p') = says (pl_hw p) \<and> puts (pl_kernel p) (pl_kernel p') (says (pl_hw p))"
  by (cases e) (auto simp: and_then_Done_iff cleanup shutdown command rx split: if_splits
      dest: activate deactivate read "write")

lemma run_says:
  "plugin_run cb es p = Done p' \<Longrightarrow>
   says (pl_hw p') = says (pl_hw p) \<and> puts (pl_kernel p) (pl_kernel p') (says (pl_hw p))"
proof (induction es arbitrary: p)
  case (Cons e es)
  then obtain p1 where "plugin_step cb e p = Done p1" "plugin_run cb es p1 = Done p'"
    by (auto simp: and_then_Done_iff)
  with Cons.IH [of p1] step_says [of e p p1] show ?case by (metis puts_trans)
qed simp

lemma run_deafened: "plugin_run cb (deafen deaf clean es) p = plugin_run cb es p"
proof (induction es arbitrary: p)
  case (Cons e es)
  then have "and_then x (plugin_run cb (deafen deaf clean es)) = and_then x (plugin_run cb es)" for x
    by (cases x) simp_all
  with Cons show ?case by (cases e) (simp_all add: deaf clean)
qed simp

end

end
