(* ===== verification/Odesc_Backend.thy ===== *)
theory Odesc_Backend
  imports Odesc_Can Backend_Interface
begin

section \<open>The drivetrain's backends\<close>

text \<open>
  \<open>MockDriveBackend\<close> (\<open>odesc/src/mock\_drive\_backend.cpp\<close>) and \<open>SocketCanDriveBackend\<close>
  (\<open>odesc/src/socketcan\_drive\_backend.cpp\<close>): their members as records, their four operations, the
  receive thread's loop body, and the interpretations of the backend contract on both. Each
  critical section is one step; the receive thread writes nothing but \<open>estimates_\<close>, under the lock
  that \<open>read\<close> holds for its whole loop.
\<close>

definition odesc_kTwoPi :: fp where
  "odesc_kTwoPi = fmul binary64 (dlit 2) (dlit 3.14159265358979323846)"

record DriveBackendInfo =
  info_name :: string
  info_endpoint :: string

subsection \<open>The mock\<close>

record MockDrive =
  md_info :: DriveBackendInfo
  md_gear_ratio :: fp
  md_commands_rad_s :: "fp list"
  md_states :: "motion_state list"

definition new_MockDrive :: "nat \<Rightarrow> fp \<Rightarrow> string \<Rightarrow> MockDrive" where
  "new_MockDrive joint_count gear_ratio endpoint =
     \<lparr>md_info = \<lparr>info_name = ''mock'', info_endpoint = endpoint\<rparr>, md_gear_ratio = gear_ratio,
      md_commands_rad_s = replicate joint_count fzero, md_states = replicate joint_count zero_state\<rparr>"

definition mock_drive_activate :: "MockDrive \<Rightarrow> status \<times> MockDrive" where
  "mock_drive_activate b = ((True, None),
     b\<lparr>md_commands_rad_s := map (\<lambda>_. fzero) (md_commands_rad_s b),
       md_states := map (\<lambda>_. zero_state) (md_states b)\<rparr>)"

definition mock_drive_deactivate :: "MockDrive \<Rightarrow> status \<times> MockDrive" where
  "mock_drive_deactivate b = ((True, None),
     b\<lparr>md_commands_rad_s := map (\<lambda>_. fzero) (md_commands_rad_s b),
       md_states := map (\<lambda>s. s\<lparr>velocity_rad_s := fzero\<rparr>) (md_states b)\<rparr>)"

text \<open>One joint of \<open>read\<close>: the wheel, motor, wheel conversion of the real backend, then one step
  of integration.\<close>

definition mock_drive_joint :: "fp \<Rightarrow> fp \<Rightarrow> fp \<Rightarrow> motion_state \<Rightarrow> motion_state" where
  "mock_drive_joint gear_ratio period_seconds command s = (let
     motor_turns_s = fdiv binary64 (fmul binary64 command gear_ratio) odesc_kTwoPi;
     wheel_rad_s = fdiv binary64 (fmul binary64 motor_turns_s odesc_kTwoPi) gear_ratio;
     s = s\<lparr>velocity_rad_s := wheel_rad_s\<rparr>
   in if flt fzero period_seconds
      then s\<lparr>position_rad := fadd binary64 (position_rad s) (fmul binary64 wheel_rad_s period_seconds)\<rparr>
      else s)"

definition mock_drive_read ::
  "motion_state list \<Rightarrow> fp \<Rightarrow> MockDrive \<Rightarrow> (status \<times> motion_state list \<times> MockDrive) outcome" where
  "mock_drive_read states period_seconds b =
     (if \<not> fisfinite period_seconds then Done ((False, Some Mock_Period_Not_Finite), states, b)
      else and_then
        (for_each (\<lambda>i s. and_then (vec_at (md_commands_rad_s b) i)
            (\<lambda>c. Done (mock_drive_joint (md_gear_ratio b) period_seconds c s)))
          [0..<length (md_states b)] (md_states b))
        (\<lambda>sts. Done ((True, None), sts, b\<lparr>md_states := sts\<rparr>)))"

definition mock_drive_write :: "fp list \<Rightarrow> MockDrive \<Rightarrow> status \<times> MockDrive" where
  "mock_drive_write velocity_commands_rad_s b =
     (if length velocity_commands_rad_s \<noteq> length (md_commands_rad_s b)
      then ((False, Some Mock_Count_Mismatch), b)
      else ((True, None), b\<lparr>md_commands_rad_s := velocity_commands_rad_s\<rparr>))"

definition mock_drive_inv :: "MockDrive \<Rightarrow> bool" where
  "mock_drive_inv b \<longleftrightarrow> length (md_commands_rad_s b) = length (md_states b)"

definition mock_drive_width :: "MockDrive \<Rightarrow> nat" where
  "mock_drive_width b = length (md_states b)"

lemma mock_drive_read_eq:
  assumes "mock_drive_inv b" "fisfinite period"
  shows "mock_drive_read states period b = (let
      sts = map2 (mock_drive_joint (md_gear_ratio b) period) (md_commands_rad_s b) (md_states b)
    in Done ((True, None), sts, b\<lparr>md_states := sts\<rparr>))"
proof -
  let ?f = "\<lambda>i s. and_then (vec_at (md_commands_rad_s b) i)
    (\<lambda>c. Done (mock_drive_joint (md_gear_ratio b) period c s))"
  have "for_each ?f [0..<length (md_states b)] (md_states b) = Done (map (\<lambda>i.
      mock_drive_joint (md_gear_ratio b) period (md_commands_rad_s b ! i) (md_states b ! i))
      [0..<length (md_states b)])"
    using assms(1) by (intro for_each_all) (simp add: mock_drive_inv_def)
  then show ?thesis
    using assms by (simp add: mock_drive_read_def Let_def mock_drive_inv_def map_upt_nth2)
qed

text \<open>The mock holds no descriptor.\<close>

definition mock_drive_owns :: "int list \<Rightarrow> MockDrive \<Rightarrow> kernel \<Rightarrow> bool" where
  "mock_drive_owns base b k \<longleftrightarrow> mock_drive_inv b \<and> live_fds k = base"

interpretation mock_drive: joint_backend "mock_drive_owns base" mock_drive_width "\<lambda>_. True"
  "\<lambda>(_ :: open_calls) b k. case mock_drive_activate b of (s, b) \<Rightarrow> Done (s, b, k)"
  "\<lambda>b k. case mock_drive_deactivate b of (s, b) \<Rightarrow> (s, b, k)"
  mock_drive_read
  "\<lambda>cmds b k. case mock_drive_write cmds b of (s, b) \<Rightarrow> Done (s, b, k)"
  for base
proof unfold_locales
  fix b :: MockDrive and k and sts :: "motion_state list" and period :: fp
  assume own: "mock_drive_owns base b k" and len: "length sts = mock_drive_width b"
  then have inv: "mock_drive_inv b" by (simp add: mock_drive_owns_def)
  show "\<exists>ok e sts' b'. mock_drive_read sts period b = Done ((ok, e), sts', b') \<and> mock_drive_owns base b' k \<and>
    mock_drive_width b' = mock_drive_width b \<and> True = True \<and> length sts' = mock_drive_width b"
  proof (cases "fisfinite period")
    case True
    from mock_drive_read_eq [OF inv True, of sts] inv own show ?thesis
      by (auto simp: mock_drive_inv_def mock_drive_owns_def mock_drive_width_def Let_def)
  next
    case False
    then show ?thesis using own len by (auto simp: mock_drive_read_def)
  qed
qed (auto simp: mock_drive_owns_def mock_drive_inv_def mock_drive_width_def mock_drive_activate_def
    mock_drive_deactivate_def mock_drive_write_def split: if_splits)

subsection \<open>The SocketCAN backend\<close>

record MotorTurns =
  est_position_turns :: fp
  est_velocity_turns_s :: fp

definition zero_turns :: MotorTurns where
  "zero_turns = \<lparr>est_position_turns = fzero, est_velocity_turns_s = fzero\<rparr>"

record SocketCanDrive =
  sd_info :: DriveBackendInfo
  sd_can_interface :: string
  sd_node_ids :: "u8 list"
  sd_gear_ratio :: fp
  sd_fd :: int
  sd_rx_joinable :: bool
  sd_rx_running :: bool
  sd_estimates :: "MotorTurns list"

definition new_SocketCanDrive :: "string \<Rightarrow> u8 list \<Rightarrow> fp \<Rightarrow> SocketCanDrive" where
  "new_SocketCanDrive can_interface node_ids gear_ratio =
     \<lparr>sd_info = \<lparr>info_name = ''SocketCAN'', info_endpoint = can_interface\<rparr>,
      sd_can_interface = can_interface, sd_node_ids = node_ids, sd_gear_ratio = gear_ratio,
      sd_fd = -1, sd_rx_joinable = False, sd_rx_running = False,
      sd_estimates = replicate (unat kMaxNodeId + 1) zero_turns\<rparr>"

definition request_axis_state_all :: "AxisState \<Rightarrow> SocketCanDrive \<Rightarrow> kernel \<Rightarrow> status \<times> kernel" where
  "request_axis_state_all axis_state b k =
     send_all (sd_fd b) (map (\<lambda>n. MakeAxisStateFrame n axis_state) (sd_node_ids b)) k"

definition socketcan_drive_activate ::
  "open_calls \<Rightarrow> SocketCanDrive \<Rightarrow> kernel \<Rightarrow> (status \<times> SocketCanDrive \<times> kernel) outcome" where
  "socketcan_drive_activate c b k = (let
     ((ok, e), fd, k) = transport_open c (sd_can_interface b) (sd_fd b) k;
     b = b\<lparr>sd_fd := fd\<rparr>
   in if \<not> ok then Done ((False, e), b, k)
      else let b = b\<lparr>sd_estimates := map (\<lambda>_. zero_turns) (sd_estimates b), sd_rx_running := True\<rparr>
        in if sd_rx_joinable b then Terminated
        else let b = b\<lparr>sd_rx_joinable := True\<rparr>;
               ((_, e), k) = request_axis_state_all kClosedLoopControl b k
          in Done ((True, e), b, k))"

definition socketcan_drive_deactivate ::
  "SocketCanDrive \<Rightarrow> kernel \<Rightarrow> status \<times> SocketCanDrive \<times> kernel" where
  "socketcan_drive_deactivate b k = (let
     (st, k) = (if transport_is_open (sd_fd b) then request_axis_state_all kIdle b k
                else ((True, None), k));
     (fd, k) = transport_close (sd_fd b) k
   in (st, b\<lparr>sd_rx_running := False, sd_rx_joinable := False, sd_fd := fd\<rparr>, k))"

text \<open>The destructor; destroying a \<open>std::thread\<close> that is joinable ends the process, and the transport closes itself.\<close>

definition destroy_SocketCanDrive :: "SocketCanDrive \<Rightarrow> kernel \<Rightarrow> kernel outcome" where
  "destroy_SocketCanDrive b k = (case socketcan_drive_deactivate b k of (_, b, k) \<Rightarrow>
     if sd_rx_joinable b then Terminated else Done (snd (transport_close (sd_fd b) k)))"

definition drive_joint_state :: "fp \<Rightarrow> MotorTurns \<Rightarrow> motion_state \<Rightarrow> motion_state" where
  "drive_joint_state gear_ratio e s = s\<lparr>
     position_rad := fdiv binary64 (fmul binary64 (est_position_turns e) odesc_kTwoPi) gear_ratio,
     velocity_rad_s := fdiv binary64 (fmul binary64 (est_velocity_turns_s e) odesc_kTwoPi) gear_ratio\<rparr>"

definition socketcan_drive_read ::
  "motion_state list \<Rightarrow> fp \<Rightarrow> SocketCanDrive \<Rightarrow> (status \<times> motion_state list \<times> SocketCanDrive) outcome" where
  "socketcan_drive_read states period_seconds b =
     (if \<not> transport_is_open (sd_fd b) then Done ((False, Some Not_Active), states, b)
      else and_then
        (for_each (\<lambda>i s. and_then (vec_at (sd_node_ids b) i)
            (\<lambda>n. and_then (vec_at (sd_estimates b) (unat n))
              (\<lambda>e. Done (drive_joint_state (sd_gear_ratio b) e s))))
          [0..<length (sd_node_ids b)] (vec_resize (length (sd_node_ids b)) zero_state states))
        (\<lambda>sts. Done ((True, None), sts, b)))"

definition velocity_frame :: "fp \<Rightarrow> u8 \<Rightarrow> fp \<Rightarrow> Frame" where
  "velocity_frame gear_ratio node command = (let
     motor_turns_s = fdiv binary64 (fmul binary64 command gear_ratio) odesc_kTwoPi
   in MakeInputVelocityFrame node (fconv binary32 motor_turns_s))"

definition socketcan_drive_write ::
  "fp list \<Rightarrow> SocketCanDrive \<Rightarrow> kernel \<Rightarrow> (status \<times> SocketCanDrive \<times> kernel) outcome" where
  "socketcan_drive_write velocity_commands_rad_s b k =
     (if \<not> transport_is_open (sd_fd b) then Done ((False, Some Not_Active), b, k)
      else if length velocity_commands_rad_s \<noteq> length (sd_node_ids b)
      then Done ((False, Some Command_Count_Mismatch), b, k)
      else let (st, k) = send_all (sd_fd b)
             (map2 (velocity_frame (sd_gear_ratio b)) (sd_node_ids b) velocity_commands_rad_s) k
        in Done (st, b, k))"

text \<open>The body of the receive thread: one received frame, one turn of its loop, the loop.\<close>

definition drive_rx_frame :: "Frame \<Rightarrow> SocketCanDrive \<Rightarrow> SocketCanDrive" where
  "drive_rx_frame f b = (let id = ParseArbitrationId (arbitration_id f) in
     case ParseEncoderEstimate f of
       None \<Rightarrow> b
     | Some e \<Rightarrow>
         if command_id id = command_code MSG_GET_ENCODER_ESTIMATES
         then b\<lparr>sd_estimates := (sd_estimates b)[unat (node_id id) :=
             \<lparr>est_position_turns = fconv binary64 (position_turns e),
              est_velocity_turns_s = fconv binary64 (velocity_turns_s e)\<rparr>]\<rparr>
         else b)"

definition drive_rx_turn :: "rx_calls \<Rightarrow> SocketCanDrive \<Rightarrow> SocketCanDrive" where
  "drive_rx_turn c b = (if \<not> sd_rx_running b then b
     else case fst (transport_receive (sd_fd b) c) of None \<Rightarrow> b | Some f \<Rightarrow> drive_rx_frame f b)"

definition drive_rx_loop :: "rx_calls list \<Rightarrow> SocketCanDrive \<Rightarrow> SocketCanDrive" where
  "drive_rx_loop cs b = fold drive_rx_turn cs b"

subsection \<open>Invariant and contract of the SocketCAN backend\<close>

definition socketcan_drive_inv :: "SocketCanDrive \<Rightarrow> bool" where
  "socketcan_drive_inv b \<longleftrightarrow> length (sd_estimates b) = 64 \<and> (\<forall>n \<in> set (sd_node_ids b). n \<le> kMaxNodeId) \<and>
     (sd_rx_joinable b \<longleftrightarrow> 0 \<le> sd_fd b) \<and> (sd_rx_running b \<longleftrightarrow> 0 \<le> sd_fd b)"

definition socketcan_drive_owns :: "int list \<Rightarrow> SocketCanDrive \<Rightarrow> kernel \<Rightarrow> bool" where
  "socketcan_drive_owns base b k \<longleftrightarrow> socketcan_drive_inv b \<and> owns base (sd_fd b) k"

definition socketcan_drive_stopped :: "SocketCanDrive \<Rightarrow> bool" where
  "socketcan_drive_stopped b \<longleftrightarrow> \<not> sd_rx_joinable b"

definition socketcan_drive_width :: "SocketCanDrive \<Rightarrow> nat" where
  "socketcan_drive_width b = length (sd_node_ids b)"

lemmas socketcan_drive_defs =
  socketcan_drive_inv_def socketcan_drive_owns_def socketcan_drive_stopped_def socketcan_drive_width_def

lemma new_SocketCanDrive_inv:
  "\<forall>n \<in> set ns. n \<le> kMaxNodeId \<Longrightarrow> socketcan_drive_inv (new_SocketCanDrive c ns g)"
  by (simp add: socketcan_drive_inv_def new_SocketCanDrive_def kMaxNodeId_def)

lemma request_axis_state_all_fds [simp]:
  "live_fds (snd (request_axis_state_all a b k)) = live_fds k"
  by (simp add: request_axis_state_all_def send_all_frame)

lemma socketcan_drive_activate_law:
  assumes "socketcan_drive_owns base b k" "socketcan_drive_stopped b"
  shows "\<exists>ok e b' k'. socketcan_drive_activate c b k = Done ((ok, e), b', k') \<and>
    socketcan_drive_owns base b' k' \<and>
    socketcan_drive_width b' = socketcan_drive_width b \<and> (ok \<or> socketcan_drive_stopped b')"
proof -
  obtain ok e fd k1 where o: "transport_open c (sd_can_interface b) (sd_fd b) k = ((ok, e), fd, k1)"
    by (metis surj_pair)
  let ?b = "b\<lparr>sd_fd := fd, sd_estimates := map (\<lambda>_. zero_turns) (sd_estimates b),
    sd_rx_running := True, sd_rx_joinable := True\<rparr>"
  obtain ok2 e2 k2 where r: "request_axis_state_all kClosedLoopControl ?b k1 = ((ok2, e2), k2)"
    by (metis surj_pair)
  have "owns base fd k1" using transport_open_owns [OF _ o] assms(1) by (simp add: socketcan_drive_owns_def)
  moreover have "owns base fd k2 = owns base fd k1"
    using request_axis_state_all_fds [of kClosedLoopControl ?b k1] unfolding r by (simp add: owns_def)
  ultimately show ?thesis
    using assms transport_open_result [OF o]
    by (cases ok) (auto simp: socketcan_drive_activate_def o r socketcan_drive_defs Let_def)
qed

lemma socketcan_drive_deactivate_law:
  assumes "socketcan_drive_owns base b k" "socketcan_drive_deactivate b k = (st, b', k')"
  shows "socketcan_drive_owns base b' k' \<and> socketcan_drive_width b' = socketcan_drive_width b \<and>
    socketcan_drive_stopped b'"
proof -
  obtain st1 k1 where r: "(if transport_is_open (sd_fd b) then request_axis_state_all kIdle b k
      else ((True, None), k)) = (st1, k1)" by fastforce
  have "live_fds k1 = live_fds k"
    using request_axis_state_all_fds [of kIdle b k] r
    by (auto simp del: request_axis_state_all_fds split: if_splits)
  then have "owns base (sd_fd b) k1" using assms(1) by (simp add: socketcan_drive_owns_def owns_def)
  then have "owns base (fst (transport_close (sd_fd b) k1)) (snd (transport_close (sd_fd b) k1))"
    by (rule transport_close_owns)
  with assms transport_close_simps(1) [of "sd_fd b" k1] show ?thesis
    unfolding socketcan_drive_deactivate_def r Let_def
    by (auto simp: socketcan_drive_defs split: prod.splits)
qed

lemma socketcan_drive_read_eq:
  assumes inv: "socketcan_drive_inv b" and op: "0 \<le> sd_fd b"
  shows "socketcan_drive_read states period b = Done ((True, None),
    map (\<lambda>n. drive_joint_state (sd_gear_ratio b) (sd_estimates b ! unat n) zero_state) (sd_node_ids b), b)"
proof -
  let ?n = "length (sd_node_ids b)"
  let ?xs = "vec_resize ?n zero_state states"
  let ?f = "\<lambda>i s. and_then (vec_at (sd_node_ids b) i) (\<lambda>n. and_then (vec_at (sd_estimates b) (unat n))
    (\<lambda>e. Done (drive_joint_state (sd_gear_ratio b) e s)))"
  have ids: "unat (sd_node_ids b ! i) < 64" if "i < ?n" for i
  proof -
    have "sd_node_ids b ! i \<le> kMaxNodeId"
      using inv nth_mem [OF that] by (simp add: socketcan_drive_inv_def)
    then show ?thesis by (simp add: kMaxNodeId_def word_le_nat_alt)
  qed
  have "for_each ?f [0..<length ?xs] ?xs = Done (map (\<lambda>i. drive_joint_state (sd_gear_ratio b)
      (sd_estimates b ! unat (sd_node_ids b ! i)) (?xs ! i)) [0..<length ?xs])"
    using ids inv by (intro for_each_all) (simp add: socketcan_drive_inv_def)
  also have "\<dots> = Done (map (\<lambda>n. drive_joint_state (sd_gear_ratio b) (sd_estimates b ! unat n) zero_state)
      (sd_node_ids b))"
    by (auto intro!: nth_equalityI simp: drive_joint_state_def)
  finally show ?thesis
    using op by (simp add: socketcan_drive_read_def transport_is_open_def)
qed

lemma socketcan_drive_read_law:
  assumes "socketcan_drive_owns base b k" "length sts = socketcan_drive_width b"
  shows "\<exists>ok e sts' b'. socketcan_drive_read sts period b = Done ((ok, e), sts', b') \<and>
    socketcan_drive_owns base b' k \<and> socketcan_drive_width b' = socketcan_drive_width b \<and>
    socketcan_drive_stopped b' = socketcan_drive_stopped b \<and> length sts' = socketcan_drive_width b"
proof (cases "0 \<le> sd_fd b")
  case True
  have "socketcan_drive_inv b" using assms(1) by (simp add: socketcan_drive_owns_def)
  from socketcan_drive_read_eq [OF this True, of sts period] assms(1) show ?thesis
    by (auto simp: socketcan_drive_width_def)
next
  case False
  then show ?thesis using assms by (auto simp: socketcan_drive_read_def transport_is_open_def)
qed

lemma socketcan_drive_write_law:
  assumes "socketcan_drive_owns base b k"
  shows "\<exists>ok e b' k'. socketcan_drive_write cmds b k = Done ((ok, e), b', k') \<and>
    socketcan_drive_owns base b' k' \<and> socketcan_drive_width b' = socketcan_drive_width b \<and>
    socketcan_drive_stopped b' = socketcan_drive_stopped b \<and> (ok \<longrightarrow> length cmds = socketcan_drive_width b)"
proof -
  let ?fs = "map2 (velocity_frame (sd_gear_ratio b)) (sd_node_ids b) cmds"
  obtain ok e k1 where s: "send_all (sd_fd b) ?fs k = ((ok, e), k1)" by (metis surj_pair)
  have "live_fds k1 = live_fds k" using send_all_frame [of "sd_fd b" ?fs k] s by simp
  then show ?thesis
    using assms by (auto simp: socketcan_drive_write_def socketcan_drive_width_def s
        socketcan_drive_owns_def owns_def)
qed

interpretation socketcan_drive: joint_backend "socketcan_drive_owns base" socketcan_drive_width
  socketcan_drive_stopped socketcan_drive_activate socketcan_drive_deactivate socketcan_drive_read
  socketcan_drive_write
  for base
  by unfold_locales
    (fact socketcan_drive_activate_law socketcan_drive_deactivate_law socketcan_drive_read_law
      socketcan_drive_write_law)+

end
