(* ===== verification/Odesc_Hardware.thy ===== *)
theory Odesc_Hardware
  imports Odesc_Backend Plugin_Lifecycle
begin

section \<open>The drivetrain plugin: \<open>odesc/src/odesc.cpp\<close>\<close>

text \<open>
  \<open>OdescSystemHardware\<close>: its members, the factory that picks a backend, every lifecycle callback,
  \<open>read\<close> and \<open>write\<close>. Virtual calls on \<open>backend_\<close> go to the backend the factory made. Then the plugin
  as a state machine under its controller manager: the calls ros2\_control makes, the commands a
  controller stores through the exported pointers, and the turns of the receive thread.
\<close>

subsection \<open>The backend behind \<open>std::unique\_ptr<DriveBackend>\<close>\<close>

datatype DriveBackend = Mock_Drive MockDrive | SocketCan_Drive SocketCanDrive

record DriveBackendConfig =
  dc_endpoint :: string
  dc_joint_count :: nat
  dc_node_ids :: "u8 list"
  dc_gear_ratio :: fp

definition CreateDriveBackend :: "DriveBackendConfig \<Rightarrow> DriveBackend" where
  "CreateDriveBackend config =
     (if dc_endpoint config = ''mock'' \<or> dc_endpoint config = ''none''
      then Mock_Drive (new_MockDrive (dc_joint_count config) (dc_gear_ratio config) (dc_endpoint config))
      else SocketCan_Drive
        (new_SocketCanDrive (dc_endpoint config) (dc_node_ids config) (dc_gear_ratio config)))"

fun drive_activate :: "open_calls \<Rightarrow> DriveBackend \<Rightarrow> kernel \<Rightarrow> (status \<times> DriveBackend \<times> kernel) outcome" where
  "drive_activate c (Mock_Drive b) k =
     (case mock_drive_activate b of (st, b) \<Rightarrow> Done (st, Mock_Drive b, k))"
| "drive_activate c (SocketCan_Drive b) k =
     and_then (socketcan_drive_activate c b k) (\<lambda>(st, b, k). Done (st, SocketCan_Drive b, k))"

fun drive_deactivate :: "DriveBackend \<Rightarrow> kernel \<Rightarrow> status \<times> DriveBackend \<times> kernel" where
  "drive_deactivate (Mock_Drive b) k =
     (case mock_drive_deactivate b of (st, b) \<Rightarrow> (st, Mock_Drive b, k))"
| "drive_deactivate (SocketCan_Drive b) k =
     (case socketcan_drive_deactivate b k of (st, b, k) \<Rightarrow> (st, SocketCan_Drive b, k))"

fun drive_read ::
  "motion_state list \<Rightarrow> fp \<Rightarrow> DriveBackend \<Rightarrow> (status \<times> motion_state list \<times> DriveBackend) outcome" where
  "drive_read sts period (Mock_Drive b) =
     and_then (mock_drive_read sts period b) (\<lambda>(st, sts, b). Done (st, sts, Mock_Drive b))"
| "drive_read sts period (SocketCan_Drive b) =
     and_then (socketcan_drive_read sts period b) (\<lambda>(st, sts, b). Done (st, sts, SocketCan_Drive b))"

fun drive_write :: "fp list \<Rightarrow> DriveBackend \<Rightarrow> kernel \<Rightarrow> (status \<times> DriveBackend \<times> kernel) outcome" where
  "drive_write cmds (Mock_Drive b) k =
     (case mock_drive_write cmds b of (st, b) \<Rightarrow> Done (st, Mock_Drive b, k))"
| "drive_write cmds (SocketCan_Drive b) k =
     and_then (socketcan_drive_write cmds b k) (\<lambda>(st, b, k). Done (st, SocketCan_Drive b, k))"

fun drive_destroy :: "DriveBackend \<Rightarrow> kernel \<Rightarrow> kernel outcome" where
  "drive_destroy (Mock_Drive b) k = Done k"
| "drive_destroy (SocketCan_Drive b) k = destroy_SocketCanDrive b k"

fun drive_rx :: "rx_calls \<Rightarrow> DriveBackend \<Rightarrow> DriveBackend" where
  "drive_rx c (Mock_Drive b) = Mock_Drive b"
| "drive_rx c (SocketCan_Drive b) = SocketCan_Drive (drive_rx_turn c b)"

fun drive_owns :: "int list \<Rightarrow> DriveBackend \<Rightarrow> kernel \<Rightarrow> bool" where
  "drive_owns base (Mock_Drive b) k = mock_drive_owns base b k"
| "drive_owns base (SocketCan_Drive b) k = socketcan_drive_owns base b k"

fun drive_width :: "DriveBackend \<Rightarrow> nat" where
  "drive_width (Mock_Drive b) = mock_drive_width b"
| "drive_width (SocketCan_Drive b) = socketcan_drive_width b"

fun drive_stopped :: "DriveBackend \<Rightarrow> bool" where
  "drive_stopped (Mock_Drive b) = True"
| "drive_stopped (SocketCan_Drive b) = socketcan_drive_stopped b"

text \<open>The contract passes through the virtual calls: each law is the law of the backend called.\<close>

interpretation drive: joint_backend "drive_owns base" drive_width drive_stopped drive_activate
  drive_deactivate drive_read drive_write
  for base
proof unfold_locales
  fix b :: DriveBackend and env k
  assume "drive_owns base b k" "drive_stopped b"
  then show "\<exists>ok e b' k'. drive_activate env b k = Done ((ok, e), b', k') \<and> drive_owns base b' k' \<and>
    drive_width b' = drive_width b \<and> (ok \<or> drive_stopped b')"
    using mock_drive.activate_law [of base _ k] socketcan_drive.activate_law [of base _ k env]
    by (cases b) (fastforce split: prod.splits)+
next
  fix b :: DriveBackend and k st b' k'
  assume "drive_owns base b k" "drive_deactivate b k = (st, b', k')"
  then show "drive_owns base b' k' \<and> drive_width b' = drive_width b \<and> drive_stopped b'"
    using mock_drive.deactivate_law [of base _ k] socketcan_drive.deactivate_law [of base _ k]
    by (cases b) (fastforce split: prod.splits)+
next
  fix b :: DriveBackend and k and sts :: "motion_state list" and period :: fp
  assume "drive_owns base b k" "length sts = drive_width b"
  then show "\<exists>ok e sts' b'. drive_read sts period b = Done ((ok, e), sts', b') \<and> drive_owns base b' k \<and>
    drive_width b' = drive_width b \<and> drive_stopped b' = drive_stopped b \<and> length sts' = drive_width b"
    using mock_drive.read_law [of base _ k sts period] socketcan_drive.read_law [of base _ k sts period]
    by (cases b) fastforce+
next
  fix b :: DriveBackend and cmds k
  assume "drive_owns base b k"
  then show "\<exists>ok e b' k'. drive_write cmds b k = Done ((ok, e), b', k') \<and> drive_owns base b' k' \<and>
    drive_width b' = drive_width b \<and> drive_stopped b' = drive_stopped b \<and> (ok \<longrightarrow> length cmds = drive_width b)"
    using mock_drive.write_law [of base _ k cmds] socketcan_drive.write_law [of base _ k cmds]
    by (cases b) (fastforce split: prod.splits)+
qed

lemma drive_destroy_releases: "drive_owns base b k \<Longrightarrow> \<exists>k'. drive_destroy b k = Done k' \<and> live_fds k' = base"
proof (cases b)
  case (SocketCan_Drive d)
  assume "drive_owns base b k"
  obtain st b' k' where d: "socketcan_drive_deactivate d k = (st, b', k')" by (metis surj_pair)
  have "socketcan_drive_owns base b' k'" "socketcan_drive_stopped b'"
    using socketcan_drive.deactivate_law [OF _ d] \<open>drive_owns base b k\<close> SocketCan_Drive by auto
  then show ?thesis
    by (auto simp: SocketCan_Drive destroy_SocketCanDrive_def d socketcan_drive_defs owns_def transport_close_def)
qed (simp add: mock_drive_owns_def)

subsection \<open>The plugin's members and callbacks\<close>

record OdescSystemHardware =
  od_gear_ratio :: fp
  od_joint_names :: "string list"
  od_node_ids :: "u8 list"
  od_hw_positions :: "fp list"
  od_hw_velocities :: "fp list"
  od_hw_commands :: "fp list"
  od_backend_states :: "motion_state list"
  od_backend :: "DriveBackend option"

definition new_OdescSystemHardware :: OdescSystemHardware where
  "new_OdescSystemHardware = \<lparr>od_gear_ratio = dlit 48, od_joint_names = [], od_node_ids = [],
     od_hw_positions = [], od_hw_velocities = [], od_hw_commands = [], od_backend_states = [],
     od_backend = None\<rparr>"

text \<open>The loop over \<open>info_.joints\<close>, with its early returns.\<close>

fun odesc_init_joints ::
  "joint_info list \<Rightarrow> OdescSystemHardware \<Rightarrow> (callback_return \<times> OdescSystemHardware) outcome" where
  "odesc_init_joints [] h = Done (CB_SUCCESS, h)"
| "odesc_init_joints (joint # joints) h =
     (if length (ji_command_interfaces joint) \<noteq> 1 \<or> ji_command_interfaces joint ! 0 \<noteq> HW_IF_VELOCITY
      then Done (CB_ERROR, h)
      else let
        has_pos = list_ex (\<lambda>si. si = HW_IF_POSITION) (ji_state_interfaces joint);
        has_vel = list_ex (\<lambda>si. si = HW_IF_VELOCITY) (ji_state_interfaces joint)
      in if \<not> has_pos \<or> \<not> has_vel then Done (CB_ERROR, h)
      else case ji_parameters joint ''node_id'' of
        None \<Rightarrow> Done (CB_ERROR, h)
      | Some text \<Rightarrow> and_then (stoi text) (\<lambda>nid.
          if nid < 0 \<or> nid > uint kMaxNodeId then Done (CB_ERROR, h)
          else odesc_init_joints joints (h\<lparr>
            od_joint_names := od_joint_names h @ [ji_name joint],
            od_node_ids := od_node_ids h @ [word_of_int nid]\<rparr>)))"

definition odesc_on_init ::
  "bool \<Rightarrow> hardware_info \<Rightarrow> OdescSystemHardware \<Rightarrow> (callback_return \<times> OdescSystemHardware) outcome" where
  "odesc_on_init base_ok info h =
     (if \<not> base_ok then Done (CB_ERROR, h)
      else let
        connection = (case hi_parameters info ''can_interface'' of None \<Rightarrow> ''can2'' | Some c \<Rightarrow> c)
      in and_then
        (case hi_parameters info ''gear_ratio'' of None \<Rightarrow> Done (od_gear_ratio h) | Some t \<Rightarrow> stod t)
        (\<lambda>gear_ratio. let h = h\<lparr>od_gear_ratio := gear_ratio\<rparr> in
          if feq gear_ratio fzero \<or> \<not> fisfinite gear_ratio then Done (CB_ERROR, h)
          else let n = length (hi_joints info) in
            and_then (odesc_init_joints (hi_joints info) h) (\<lambda>(r, h).
              if r = CB_ERROR then Done (CB_ERROR, h)
              else Done (CB_SUCCESS, h\<lparr>
                od_hw_positions := replicate n fzero,
                od_hw_velocities := replicate n fzero,
                od_hw_commands := replicate n fzero,
                od_backend_states := replicate n zero_state,
                od_backend := Some (CreateDriveBackend \<lparr>dc_endpoint = connection, dc_joint_count = n,
                  dc_node_ids = od_node_ids h, dc_gear_ratio = gear_ratio\<rparr>)\<rparr>))))"

definition odesc_export_state_interfaces :: "OdescSystemHardware \<Rightarrow> interface list" where
  "odesc_export_state_interfaces h = concat (map (\<lambda>i.
     [(od_joint_names h ! i, HW_IF_POSITION, Hw_Positions i),
      (od_joint_names h ! i, HW_IF_VELOCITY, Hw_Velocities i)]) [0..<length (od_joint_names h)])"

definition odesc_export_command_interfaces :: "OdescSystemHardware \<Rightarrow> interface list" where
  "odesc_export_command_interfaces h = map (\<lambda>i.
     (od_joint_names h ! i, HW_IF_VELOCITY, Hw_Commands i)) [0..<length (od_joint_names h)]"

text \<open>A null \<open>backend_\<close> (no successful \<open>on_init\<close>) is dereferenced: undefined behaviour.\<close>

definition odesc_on_activate :: "open_calls \<Rightarrow> OdescSystemHardware \<Rightarrow> kernel \<Rightarrow>
    (callback_return \<times> OdescSystemHardware \<times> kernel) outcome" where
  "odesc_on_activate c h k = (case od_backend h of None \<Rightarrow> Undefined | Some b \<Rightarrow>
     and_then (drive_activate c b k) (\<lambda>((ok, _), b, k). let h = h\<lparr>od_backend := Some b\<rparr> in
       if \<not> ok then Done (CB_ERROR, h, k)
       else Done (CB_SUCCESS, h\<lparr>
         od_hw_commands := map (\<lambda>_. fzero) (od_hw_commands h),
         od_hw_positions := map (\<lambda>_. fzero) (od_hw_positions h),
         od_hw_velocities := map (\<lambda>_. fzero) (od_hw_velocities h)\<rparr>, k)))"

definition odesc_on_deactivate :: "OdescSystemHardware \<Rightarrow> kernel \<Rightarrow>
    (callback_return \<times> OdescSystemHardware \<times> kernel) outcome" where
  "odesc_on_deactivate h k = (case od_backend h of None \<Rightarrow> Undefined | Some b \<Rightarrow>
     (case drive_deactivate b k of (_, b, k) \<Rightarrow> Done (CB_SUCCESS, h\<lparr>
       od_backend := Some b,
       od_hw_commands := map (\<lambda>_. fzero) (od_hw_commands h),
       od_hw_velocities := map (\<lambda>_. fzero) (od_hw_velocities h)\<rparr>, k)))"

definition odesc_on_cleanup :: "OdescSystemHardware \<Rightarrow> kernel \<Rightarrow>
    (callback_return \<times> OdescSystemHardware \<times> kernel) outcome" where
  "odesc_on_cleanup h k = odesc_on_deactivate h k"

definition odesc_on_shutdown :: "OdescSystemHardware \<Rightarrow> kernel \<Rightarrow>
    (callback_return \<times> OdescSystemHardware \<times> kernel) outcome" where
  "odesc_on_shutdown h k = odesc_on_deactivate h k"

text \<open>Destroying the plugin destroys the backend it holds.\<close>

definition destroy_OdescSystemHardware :: "OdescSystemHardware \<Rightarrow> kernel \<Rightarrow> kernel outcome" where
  "destroy_OdescSystemHardware h k = (case od_backend h of None \<Rightarrow> Done k | Some b \<Rightarrow> drive_destroy b k)"

definition odesc_read :: "fp \<Rightarrow> OdescSystemHardware \<Rightarrow> (return_type \<times> OdescSystemHardware) outcome" where
  "odesc_read period_seconds h = (case od_backend h of None \<Rightarrow> Undefined | Some b \<Rightarrow>
     and_then (drive_read (od_backend_states h) period_seconds b) (\<lambda>((ok, _), sts, b).
       let h = h\<lparr>od_backend_states := sts, od_backend := Some b\<rparr> in
       if \<not> ok then Done (RT_ERROR, h)
       else and_then (copy_states [0..<length (od_joint_names h)] sts (od_hw_positions h, od_hw_velocities h))
         (\<lambda>(ps, vs). Done (RT_OK, h\<lparr>od_hw_positions := ps, od_hw_velocities := vs\<rparr>))))"

definition odesc_write :: "OdescSystemHardware \<Rightarrow> kernel \<Rightarrow>
    (return_type \<times> OdescSystemHardware \<times> kernel) outcome" where
  "odesc_write h k = (case od_backend h of None \<Rightarrow> Undefined | Some b \<Rightarrow>
     and_then (drive_write (od_hw_commands h) b k) (\<lambda>((ok, _), b, k).
       Done (if ok then RT_OK else RT_ERROR, h\<lparr>od_backend := Some b\<rparr>, k)))"

subsection \<open>Initialisation\<close>

lemma odesc_init_joints_success:
  assumes "odesc_init_joints js h = Done (CB_SUCCESS, h')"
  shows "\<exists>ids. h' = h\<lparr>od_joint_names := od_joint_names h @ map ji_name js, od_node_ids := od_node_ids h @ ids\<rparr> \<and>
    length ids = length js \<and> (\<forall>n \<in> set ids. n \<le> kMaxNodeId) \<and>
    list_all2 (\<lambda>j n. \<exists>t. ji_parameters j ''node_id'' = Some t \<and> stoi t = Done (uint n)) js ids \<and>
    (\<forall>j \<in> set js. ji_command_interfaces j = [HW_IF_VELOCITY] \<and>
      {HW_IF_POSITION, HW_IF_VELOCITY} \<subseteq> set (ji_state_interfaces j))"
  using assms
proof (induction js h rule: odesc_init_joints.induct)
  case (1 h)
  then show ?case by (auto intro: exI [of _ "[]"])
next
  case (2 joint joints h)
  note IH = 2(1)
  obtain t nid where c: "ji_command_interfaces joint = [HW_IF_VELOCITY]"
    "{HW_IF_POSITION, HW_IF_VELOCITY} \<subseteq> set (ji_state_interfaces joint)"
    and t: "ji_parameters joint ''node_id'' = Some t" "stoi t = Done nid"
    and r: "0 \<le> nid" "nid \<le> uint kMaxNodeId"
    and rest: "odesc_init_joints joints (h\<lparr>od_joint_names := od_joint_names h @ [ji_name joint],
      od_node_ids := od_node_ids h @ [word_of_int nid]\<rparr>) = Done (CB_SUCCESS, h')"
    using 2(2) by (auto simp: and_then_Done_iff list_ex_iff length_Suc_conv Let_def
        split: if_splits option.splits)
  have small: "uint (word_of_int nid :: u8) = nid" "(word_of_int nid :: u8) \<le> kMaxNodeId"
    using r by (simp_all add: kMaxNodeId_def uint_word_of_int word_le_def)
  obtain ids where "h' = h\<lparr>od_joint_names := od_joint_names h @ [ji_name joint] @ map ji_name joints,
      od_node_ids := od_node_ids h @ [word_of_int nid] @ ids\<rparr>" "length ids = length joints"
    "\<forall>n \<in> set ids. n \<le> kMaxNodeId"
    "list_all2 (\<lambda>j n. \<exists>t. ji_parameters j ''node_id'' = Some t \<and> stoi t = Done (uint n)) joints ids"
    "\<forall>j \<in> set joints. ji_command_interfaces j = [HW_IF_VELOCITY] \<and>
      {HW_IF_POSITION, HW_IF_VELOCITY} \<subseteq> set (ji_state_interfaces j)"
    using IH [OF _ refl refl _ t(1) _ rest] c r by (auto simp: list_ex_iff)
  then show ?case
    using c t small by (intro exI [of _ "word_of_int nid # ids"]) auto
qed

text \<open>Everything \<open>on_init\<close> accepts and leaves behind.\<close>

lemma odesc_on_init_success:
  assumes "odesc_on_init base_ok info new_OdescSystemHardware = Done (CB_SUCCESS, h)"
  obtains ids g where "length ids = length (hi_joints info)" "\<forall>n \<in> set ids. n \<le> kMaxNodeId"
    "list_all2 (\<lambda>j n. \<exists>t. ji_parameters j ''node_id'' = Some t \<and> stoi t = Done (uint n)) (hi_joints info) ids"
    "\<forall>j \<in> set (hi_joints info). ji_command_interfaces j = [HW_IF_VELOCITY] \<and>
      {HW_IF_POSITION, HW_IF_VELOCITY} \<subseteq> set (ji_state_interfaces j)"
    "\<not> feq g fzero" "fisfinite g" "fp_ok binary64 g"
    "h = \<lparr>od_gear_ratio = g, od_joint_names = map ji_name (hi_joints info), od_node_ids = ids,
      od_hw_positions = replicate (length (hi_joints info)) fzero,
      od_hw_velocities = replicate (length (hi_joints info)) fzero,
      od_hw_commands = replicate (length (hi_joints info)) fzero,
      od_backend_states = replicate (length (hi_joints info)) zero_state,
      od_backend = Some (CreateDriveBackend \<lparr>
        dc_endpoint = (case hi_parameters info ''can_interface'' of None \<Rightarrow> ''can2'' | Some c \<Rightarrow> c),
        dc_joint_count = length (hi_joints info), dc_node_ids = ids, dc_gear_ratio = g\<rparr>)\<rparr>"
proof -
  let ?gr = "case hi_parameters info ''gear_ratio'' of None \<Rightarrow> Done (dlit 48) | Some t \<Rightarrow> stod t"
  let ?new = "\<lambda>g. new_OdescSystemHardware\<lparr>od_gear_ratio := g\<rparr>"
  have base: "base_ok" using assms by (cases base_ok) (simp_all add: odesc_on_init_def)
  have od: "od_gear_ratio new_OdescSystemHardware = dlit 48" by (simp add: new_OdescSystemHardware_def)
  obtain g where g: "?gr = Done g" "\<not> feq g fzero" "fisfinite g"
    using assms unfolding odesc_on_init_def Let_def od
    by (cases ?gr) (auto simp: base split: if_splits)
  obtain r h1 where js: "odesc_init_joints (hi_joints info) (?new g) = Done (r, h1)"
    using assms unfolding odesc_on_init_def Let_def od g(1)
    by (cases "odesc_init_joints (hi_joints info) (?new g)") (auto simp: base g)
  have r: "r = CB_SUCCESS"
    using assms unfolding odesc_on_init_def Let_def od g(1)
    by (cases r) (simp_all add: base g js)
  have h: "h = h1\<lparr>od_hw_positions := replicate (length (hi_joints info)) fzero,
      od_hw_velocities := replicate (length (hi_joints info)) fzero,
      od_hw_commands := replicate (length (hi_joints info)) fzero,
      od_backend_states := replicate (length (hi_joints info)) zero_state,
      od_backend := Some (CreateDriveBackend \<lparr>
        dc_endpoint = (case hi_parameters info ''can_interface'' of None \<Rightarrow> ''can2'' | Some c \<Rightarrow> c),
        dc_joint_count = length (hi_joints info), dc_node_ids = od_node_ids h1, dc_gear_ratio = g\<rparr>)\<rparr>"
    using assms unfolding odesc_on_init_def Let_def od g(1)
    by (simp add: base g js r)
  have "fp_ok binary64 g"
    using g(1) by (cases "hi_parameters info ''gear_ratio''") (auto dest: stod_ok intro: fp_ok_intros)
  then show ?thesis
    using odesc_init_joints_success [OF js [unfolded r]] g(2,3)
    by (auto simp: h new_OdescSystemHardware_def intro: that)
qed

text \<open>Neither parser of a parameter can do worse than throw.\<close>

lemma odesc_init_joints_no_ub: "no_ub (odesc_init_joints js h)"
proof (induction js h rule: odesc_init_joints.induct)
  case (2 joint joints h)
  note IH = 2
  show ?case
  proof (cases "ji_parameters joint ''node_id''")
    case (Some t)
    then show ?thesis
      using IH by (auto simp: Let_def stoi_no_ub intro!: no_ub_and_then)
  qed (simp add: Let_def)
qed simp

lemma odesc_on_init_no_ub: "no_ub (odesc_on_init base_ok info h)"
  by (auto simp: odesc_on_init_def Let_def stod_no_ub odesc_init_joints_no_ub
      split: option.splits intro!: no_ub_and_then)

subsection \<open>The plugin's invariant\<close>

definition odesc_owns :: "int list \<Rightarrow> OdescSystemHardware \<Rightarrow> kernel \<Rightarrow> bool" where
  "odesc_owns base h k \<longleftrightarrow> (\<exists>b. od_backend h = Some b \<and> drive_owns base b k \<and>
     drive_width b = length (od_joint_names h) \<and>
     length (od_hw_positions h) = length (od_joint_names h) \<and>
     length (od_hw_velocities h) = length (od_joint_names h) \<and>
     length (od_hw_commands h) = length (od_joint_names h) \<and>
     length (od_backend_states h) = length (od_joint_names h))"

definition odesc_stopped :: "OdescSystemHardware \<Rightarrow> bool" where
  "odesc_stopped h \<longleftrightarrow> (case od_backend h of None \<Rightarrow> False | Some b \<Rightarrow> drive_stopped b)"

lemma odesc_ownsE:
  assumes "odesc_owns base h k"
  obtains b where "od_backend h = Some b" "drive_owns base b k" "drive_width b = length (od_joint_names h)"
    "length (od_hw_positions h) = length (od_joint_names h)"
    "length (od_hw_velocities h) = length (od_joint_names h)"
    "length (od_hw_commands h) = length (od_joint_names h)"
    "length (od_backend_states h) = length (od_joint_names h)"
  using assms by (auto simp: odesc_owns_def)

lemma new_DriveBackend:
  assumes "\<forall>n \<in> set (dc_node_ids c). n \<le> kMaxNodeId" "length (dc_node_ids c) = dc_joint_count c"
  shows "drive_owns (live_fds k) (CreateDriveBackend c) k"
    "drive_width (CreateDriveBackend c) = dc_joint_count c" "drive_stopped (CreateDriveBackend c)"
  using assms
  by (simp_all add: CreateDriveBackend_def mock_drive_owns_def mock_drive_inv_def new_MockDrive_def
      mock_drive_width_def socketcan_drive_defs new_SocketCanDrive_def owns_def kMaxNodeId_def)

lemma odesc_on_init_owns:
  assumes "odesc_on_init base_ok info new_OdescSystemHardware = Done (CB_SUCCESS, h)"
  shows "odesc_owns (live_fds k) h k" "odesc_stopped h"
proof -
  from assms show "odesc_owns (live_fds k) h k"
    by (rule odesc_on_init_success) (auto simp: odesc_owns_def new_DriveBackend)
  from assms show "odesc_stopped h"
    by (rule odesc_on_init_success) (auto simp: odesc_stopped_def new_DriveBackend)
qed

lemma odesc_stopped_fds: "odesc_owns base h k \<Longrightarrow> odesc_stopped h \<Longrightarrow> live_fds k = base"
proof (elim odesc_ownsE)
  fix b
  assume "odesc_stopped h" "od_backend h = Some b" "drive_owns base b k"
  then show ?thesis
    by (cases b) (auto simp: odesc_stopped_def mock_drive_owns_def socketcan_drive_defs owns_def)
qed

lemma odesc_destroy_releases:
  "odesc_owns base h k \<Longrightarrow> \<exists>k'. destroy_OdescSystemHardware h k = Done k' \<and> live_fds k' = base"
  by (elim odesc_ownsE) (simp add: destroy_OdescSystemHardware_def drive_destroy_releases)

subsection \<open>The plugin under its controller manager\<close>

definition odesc_command :: "nat \<Rightarrow> fp \<Rightarrow> OdescSystemHardware \<Rightarrow> OdescSystemHardware" where
  "odesc_command i c h = h\<lparr>od_hw_commands := (od_hw_commands h)[i := c]\<rparr>"

definition odesc_rx :: "rx_calls \<Rightarrow> OdescSystemHardware \<Rightarrow> OdescSystemHardware" where
  "odesc_rx c h = h\<lparr>od_backend := map_option (drive_rx c) (od_backend h)\<rparr>"

definition odesc_callbacks :: "(OdescSystemHardware, open_calls, rx_calls) callbacks" where
  "odesc_callbacks = \<lparr>cb_activate = odesc_on_activate, cb_deactivate = odesc_on_deactivate,
     cb_cleanup = odesc_on_cleanup, cb_shutdown = odesc_on_shutdown, cb_read = odesc_read,
     cb_write = odesc_write, cb_command = odesc_command, cb_rx = odesc_rx\<rparr>"

lemma drive_rx_frame_inv:
  "socketcan_drive_inv b \<Longrightarrow> socketcan_drive_inv (drive_rx_frame f b)"
  "sd_fd (drive_rx_frame f b) = sd_fd b" "sd_rx_joinable (drive_rx_frame f b) = sd_rx_joinable b"
  "sd_node_ids (drive_rx_frame f b) = sd_node_ids b" "sd_rx_running (drive_rx_frame f b) = sd_rx_running b"
  by (auto simp: drive_rx_frame_def socketcan_drive_inv_def Let_def split: option.splits)

lemma drive_rx_keeps:
  "drive_owns base b k \<Longrightarrow> drive_owns base (drive_rx c b) k"
  "drive_width (drive_rx c b) = drive_width b" "drive_stopped (drive_rx c b) = drive_stopped b"
  by (cases b; auto simp: socketcan_drive_owns_def drive_rx_turn_def drive_rx_frame_inv
      socketcan_drive_width_def socketcan_drive_stopped_def split: option.splits)+

interpretation odesc_plugin: hardware_plugin odesc_callbacks "odesc_owns base" odesc_stopped
  for base
proof unfold_locales
  fix h k and c :: open_calls
  assume "odesc_owns base h k" "odesc_stopped h"
  then obtain b where b: "od_backend h = Some b" "drive_owns base b k" "drive_stopped b"
      "drive_width b = length (od_joint_names h)"
      "length (od_hw_positions h) = length (od_joint_names h)"
      "length (od_hw_velocities h) = length (od_joint_names h)"
      "length (od_hw_commands h) = length (od_joint_names h)"
      "length (od_backend_states h) = length (od_joint_names h)"
    by (auto simp: odesc_stopped_def elim: odesc_ownsE)
  with drive.activate_law [OF b(2,3), of c] show "\<exists>r h' k'. cb_activate odesc_callbacks c h k = Done (r, h', k') \<and>
    odesc_owns base h' k' \<and> (r = CB_SUCCESS \<or> odesc_stopped h')"
    by (auto simp: odesc_callbacks_def odesc_on_activate_def odesc_owns_def odesc_stopped_def Let_def)
next
  fix h k
  assume "odesc_owns base h k"
  then obtain b where b: "od_backend h = Some b" "drive_owns base b k"
      "drive_width b = length (od_joint_names h)"
      "length (od_hw_positions h) = length (od_joint_names h)"
      "length (od_hw_velocities h) = length (od_joint_names h)"
      "length (od_hw_commands h) = length (od_joint_names h)"
      "length (od_backend_states h) = length (od_joint_names h)"
    by (auto elim: odesc_ownsE)
  obtain st b' k' where d: "drive_deactivate b k = (st, b', k')" by (metis surj_pair)
  from drive.deactivate_law [OF b(2) d] b show "\<exists>h' k'. cb_deactivate odesc_callbacks h k = Done (CB_SUCCESS, h', k') \<and>
    odesc_owns base h' k' \<and> odesc_stopped h'"
    by (auto simp: odesc_callbacks_def odesc_on_deactivate_def odesc_owns_def odesc_stopped_def d)
next
  fix h k and period :: fp
  assume "odesc_owns base h k"
  then obtain b where b: "od_backend h = Some b" "drive_owns base b k"
      "drive_width b = length (od_joint_names h)"
      "length (od_hw_positions h) = drive_width b"
      "length (od_hw_velocities h) = drive_width b"
      "length (od_hw_commands h) = drive_width b"
      "length (od_backend_states h) = drive_width b"
    by (auto elim: odesc_ownsE)
  obtain ok e sts' b' where r: "drive_read (od_backend_states h) period b = Done ((ok, e), sts', b')"
    "drive_owns base b' k" "drive_width b' = drive_width b" "drive_stopped b' = drive_stopped b"
    "length sts' = drive_width b"
    "copy_states [0..<drive_width b] sts' (od_hw_positions h, od_hw_velocities h) =
      Done (map position_rad sts', map velocity_rad_s sts')"
    using drive.read_then_copy [OF b(2,7,4,5)] by blast
  then show "\<exists>r h'. cb_read odesc_callbacks period h = Done (r, h') \<and> odesc_owns base h' k \<and>
    odesc_stopped h' = odesc_stopped h"
    using b by (auto simp: odesc_callbacks_def odesc_read_def odesc_owns_def odesc_stopped_def Let_def)
next
  fix h k
  assume "odesc_owns base h k"
  then obtain b where b: "od_backend h = Some b" "drive_owns base b k"
      "drive_width b = length (od_joint_names h)"
      "length (od_hw_positions h) = length (od_joint_names h)"
      "length (od_hw_velocities h) = length (od_joint_names h)"
      "length (od_hw_commands h) = length (od_joint_names h)"
      "length (od_backend_states h) = length (od_joint_names h)"
    by (auto elim: odesc_ownsE)
  from drive.write_law [OF b(2), of "od_hw_commands h"] b
  show "\<exists>r h' k'. cb_write odesc_callbacks h k = Done (r, h', k') \<and> odesc_owns base h' k' \<and>
    odesc_stopped h' = odesc_stopped h"
    by (auto simp: odesc_callbacks_def odesc_write_def odesc_owns_def odesc_stopped_def)
next
  fix h k i and v :: fp
  assume "odesc_owns base h k"
  then show "odesc_owns base (cb_command odesc_callbacks i v h) k \<and>
    odesc_stopped (cb_command odesc_callbacks i v h) = odesc_stopped h"
    by (auto simp: odesc_callbacks_def odesc_command_def odesc_owns_def odesc_stopped_def)
next
  fix h k and x :: rx_calls
  assume "odesc_owns base h k"
  then show "odesc_owns base (cb_rx odesc_callbacks x h) k \<and>
    odesc_stopped (cb_rx odesc_callbacks x h) = odesc_stopped h"
    by (auto simp: odesc_callbacks_def odesc_rx_def odesc_owns_def odesc_stopped_def drive_rx_keeps)
qed (simp_all add: odesc_callbacks_def odesc_on_cleanup_def odesc_on_shutdown_def fun_eq_iff)

end
