(* ===== verification/Drive_Bus.thy ===== *)
theory Drive_Bus
  imports Bus_Speaker Odesc_Hardware
begin

section \<open>The drivetrain on a bus\<close>

text \<open>
  What the drivetrain plugin can ever send, which frames it does not hear, and the interpretation of
  \<open>bus\_speaker\<close> on its callbacks.
\<close>

subsection \<open>The drivetrain speaks\<close>

definition wheel_says :: "u8 set \<Rightarrow> can_frame set" where
  "wheel_says ns = {f. \<exists>n \<in> ns. \<exists>c. can_id f = ucast (MakeArbitrationId n (command_code c)) AND CAN_SFF_MASK}"

lemma send_all_puts:
  "socket_frame ` set fs \<subseteq> S \<Longrightarrow> puts k (snd (send_all fd fs k)) S"
proof (induction fs arbitrary: k)
  case (Cons f fs)
  obtain st k1 where s: "transport_send fd f k = (st, k1)" by fastforce
  then have "puts k k1 S"
    using Cons.prems puts_write [of "socket_frame f" S k] by (auto simp: transport_send_def Let_def split: if_splits prod.splits)
  with Cons.IH [of k1] Cons.prems s show ?case by (auto split: prod.split intro: puts_trans)
qed simp

lemma wheel_saysI:
  "n \<in> ns \<Longrightarrow> arbitration_id f = MakeArbitrationId n (command_code c) \<Longrightarrow> socket_frame f \<in> wheel_says ns"
  unfolding wheel_says_def socket_frame_def by force

lemma axis_state_says: "n \<in> ns \<Longrightarrow> socket_frame (MakeAxisStateFrame n a) \<in> wheel_says ns"
  by (erule wheel_saysI) (rule MakeAxisStateFrame_simps(1))

lemma velocity_says: "n \<in> ns \<Longrightarrow> socket_frame (velocity_frame g n c) \<in> wheel_says ns"
  by (erule wheel_saysI) (simp only: velocity_frame_def Let_def MakeInputVelocityFrame_simps(1))

lemma request_puts: "puts k (snd (request_axis_state_all a b k)) (wheel_says (set (sd_node_ids b)))"
  unfolding request_axis_state_all_def by (rule send_all_puts) (auto intro: axis_state_says)

lemma socketcan_drive_activate_puts:
  assumes "socketcan_drive_activate c b k = Done (st, b', k')"
  shows "sd_node_ids b' = sd_node_ids b \<and> puts k k' (wheel_says (set (sd_node_ids b)))"
proof -
  obtain ok e fd k1 where o: "transport_open c (sd_can_interface b) (sd_fd b) k = ((ok, e), fd, k1)" by (metis surj_pair)
  have k1: "puts k k1 S" for S using transport_open_wire [OF o] by (simp add: puts_nothing)
  let ?b = "b\<lparr>sd_fd := fd, sd_estimates := map (\<lambda>_. zero_turns) (sd_estimates b), sd_rx_running := True,
    sd_rx_joinable := True\<rparr>"
  obtain st2 k2 where r: "request_axis_state_all kClosedLoopControl ?b k1 = (st2, k2)" by fastforce
  have "puts k1 k2 (wheel_says (set (sd_node_ids b)))"
    using request_puts [of k1 kClosedLoopControl ?b] by (simp add: r)
  with k1 have "puts k k2 (wheel_says (set (sd_node_ids b)))" by (rule puts_trans)
  with k1 assms o r show ?thesis
    by (cases ok; cases "sd_rx_joinable b") (auto simp: socketcan_drive_activate_def Let_def split: prod.splits)
qed

lemma socketcan_drive_deactivate_puts:
  assumes "socketcan_drive_deactivate b k = (st, b', k')"
  shows "sd_node_ids b' = sd_node_ids b \<and> puts k k' (wheel_says (set (sd_node_ids b)))"
proof -
  have close: "puts k1 (snd (transport_close fd k1)) S" for k1 fd S
    by (simp add: puts_nothing transport_close_simps)
  from assms request_puts [of k kIdle b] show ?thesis
    by (auto simp: socketcan_drive_deactivate_def Let_def split: if_splits prod.splits)
      (metis close puts_trans snd_conv)+
qed

fun drive_says :: "DriveBackend \<Rightarrow> can_frame set" where
  "drive_says (Mock_Drive b) = {}"
| "drive_says (SocketCan_Drive b) = wheel_says (set (sd_node_ids b))"

lemma drive_backend_puts:
  "drive_activate c b k = Done (st, b', k') \<Longrightarrow> drive_says b' = drive_says b \<and> puts k k' (drive_says b)"
  "drive_deactivate b k = (st, b', k') \<Longrightarrow> drive_says b' = drive_says b \<and> puts k k' (drive_says b)"
  "drive_read sts period b = Done (st, sts', b') \<Longrightarrow> drive_says b' = drive_says b"
  "drive_write cs b k = Done (st, b', k') \<Longrightarrow> drive_says b' = drive_says b \<and> puts k k' (drive_says b)"
proof -
  show "drive_activate c b k = Done (st, b', k') \<Longrightarrow> drive_says b' = drive_says b \<and> puts k k' (drive_says b)"
    by (cases b) (auto simp: and_then_Done_iff split: prod.splits dest: socketcan_drive_activate_puts)
  show "drive_deactivate b k = (st, b', k') \<Longrightarrow> drive_says b' = drive_says b \<and> puts k k' (drive_says b)"
    by (cases b) (auto split: prod.splits dest: socketcan_drive_deactivate_puts)
  show "drive_read sts period b = Done (st, sts', b') \<Longrightarrow> drive_says b' = drive_says b"
    by (cases b) (auto simp: and_then_Done_iff socketcan_drive_read_def split: if_splits)
  have w: "sd_node_ids d' = sd_node_ids d \<and> puts k k' (wheel_says (set (sd_node_ids d)))"
    if "socketcan_drive_write cs d k = Done (st, d', k')" for d d'
  proof -
    have "puts k (snd (send_all (sd_fd d) (map2 (velocity_frame (sd_gear_ratio d)) (sd_node_ids d) cs) k))
        (wheel_says (set (sd_node_ids d)))"
      by (rule send_all_puts) (auto intro!: velocity_says dest: set_zip_leftD)
    with that show ?thesis by (auto simp: socketcan_drive_write_def split: if_splits prod.splits)
  qed
  show "drive_write cs b k = Done (st, b', k') \<Longrightarrow> drive_says b' = drive_says b \<and> puts k k' (drive_says b)"
    using w by (cases b) (auto simp: and_then_Done_iff split: prod.splits)
qed

subsection \<open>What the drivetrain does not hear\<close>

text \<open>
  A frame whose low five bits are not those of an encoder estimate leaves the drivetrain as it is,
  whatever node it seems to come from.
\<close>

definition drive_deaf :: "can_frame set \<Rightarrow> rx_calls \<Rightarrow> bool" where
  "drive_deaf F c \<longleftrightarrow> rx_frame c \<in> F \<and> can_id (rx_frame c) AND 0x1F \<noteq> 9"

lemma drive_deaf_rx: "drive_deaf F c \<Longrightarrow> drive_rx_turn c b = b"
proof -
  assume d: "drive_deaf F c"
  have low: "can_id (rx_frame c) AND 0x1F =
      ucast (ucast ((ucast (can_id (rx_frame c) AND CAN_SFF_MASK) :: u16) AND 0x1F) :: u8)"
    by (rule bit_word_eqI) (auto simp: bit_simps bit_31 CAN_SFF_MASK_def bit_2047)
  then have "command_id (ParseArbitrationId (ucast (can_id (rx_frame c) AND CAN_SFF_MASK))) \<noteq> 9"
    using d by (auto simp: drive_deaf_def ParseArbitrationId_def)
  then show ?thesis
    by (auto simp: drive_rx_turn_def drive_rx_frame_def transport_receive_def Let_def
        split: option.splits if_splits)
qed

lemma drive_rx_says: "drive_says (drive_rx c b) = drive_says b"
  by (cases b) (auto simp: drive_rx_turn_def drive_rx_frame_inv split: option.split)

definition odesc_says :: "OdescSystemHardware \<Rightarrow> can_frame set" where
  "odesc_says h = (case od_backend h of None \<Rightarrow> {} | Some b \<Rightarrow> drive_says b)"

interpretation odesc_bus: bus_speaker odesc_callbacks odesc_says "drive_deaf F" "\<lambda>c. c" for F
proof unfold_locales
  fix h k r h' k' and c :: open_calls
  assume "cb_activate odesc_callbacks c h k = Done (r, h', k')"
  then show "odesc_says h' = odesc_says h \<and> puts k k' (odesc_says h)"
    using drive_backend_puts(1) by (auto simp: odesc_callbacks_def odesc_on_activate_def odesc_says_def Let_def
        and_then_Done_iff split: option.splits if_splits)
next
  fix h k r h' k'
  assume "cb_deactivate odesc_callbacks h k = Done (r, h', k')"
  then show "odesc_says h' = odesc_says h \<and> puts k k' (odesc_says h)"
    using drive_backend_puts(2) by (auto simp: odesc_callbacks_def odesc_on_deactivate_def odesc_says_def
        split: option.splits prod.splits)
next
  fix h q h' and period :: fp
  assume "cb_read odesc_callbacks period h = Done (q, h')"
  then show "odesc_says h' = odesc_says h"
    using drive_backend_puts(3) by (auto simp: odesc_callbacks_def odesc_read_def odesc_says_def Let_def
        and_then_Done_iff split: option.splits if_splits)
next
  fix h k q h' k'
  assume "cb_write odesc_callbacks h k = Done (q, h', k')"
  then show "odesc_says h' = odesc_says h \<and> puts k k' (odesc_says h)"
    using drive_backend_puts(4) by (auto simp: odesc_callbacks_def odesc_write_def odesc_says_def
        and_then_Done_iff split: option.splits)
next
  fix h and x :: rx_calls
  assume "drive_deaf F x"
  then have "drive_rx x b = b" for b by (cases b) (simp_all add: drive_deaf_rx)
  then have "map_option (drive_rx x) y = y" for y by (cases y) simp_all
  then show "cb_rx odesc_callbacks x h = h" by (simp add: odesc_callbacks_def odesc_rx_def)
qed (auto simp: odesc_callbacks_def odesc_on_cleanup_def odesc_on_shutdown_def odesc_command_def odesc_rx_def
    odesc_says_def drive_rx_says fun_eq_iff split: option.split)

end
