(* ===== verification/Pxx_Can.thy ===== *)
theory Pxx_Can
  imports Odesc_Can
begin

section \<open>CANopen for the arm: \<open>pxx/can.hpp\<close>\<close>

text \<open>
  The protocol helpers and the transport of the arm's motors: identifiers, the object dictionary
  entries and words the driver uses, the frames it sends, the four kinds of frame it parses, the
  conversions between encoder counts and radians, and the transport. The names of the header's
  namespaces are prefixes here. The lemmas: every frame is a fixed pattern of bytes, a frame has at
  most one meaning, counts survive the conversion to radians and back, and the transport keeps the
  contract of \<open>Socket_Can\<close>.
\<close>

subsection \<open>Constants\<close>

definition pxx_kMinNodeId :: u8 where "pxx_kMinNodeId = 1"

definition pxx_kMaxNodeId :: u8 where "pxx_kMaxNodeId = 127"

definition pxx_kMaxDataLength :: u8 where "pxx_kMaxDataLength = 8"

definition cob_kNmt :: u32 where "cob_kNmt = 0x000"

definition cob_kSync :: u32 where "cob_kSync = 0x080"

definition cob_kEmcy :: u32 where "cob_kEmcy = 0x080"

definition cob_kTpdo1 :: u32 where "cob_kTpdo1 = 0x180"

definition cob_kTpdo2 :: u32 where "cob_kTpdo2 = 0x280"

definition cob_kRpdo1 :: u32 where "cob_kRpdo1 = 0x200"

definition cob_kTsdo :: u32 where "cob_kTsdo = 0x580"

definition cob_kRsdo :: u32 where "cob_kRsdo = 0x600"

definition cob_kHeartbeat :: u32 where "cob_kHeartbeat = 0x700"

definition cob_kFunctionMask :: u32 where "cob_kFunctionMask = 0x780"

definition cob_kNodeMask :: u32 where "cob_kNodeMask = 0x07F"

lemmas cob_defs [simp] =
  cob_kNmt_def cob_kSync_def cob_kEmcy_def cob_kTpdo1_def cob_kTpdo2_def cob_kRpdo1_def
  cob_kTsdo_def cob_kRsdo_def cob_kHeartbeat_def cob_kFunctionMask_def cob_kNodeMask_def

datatype NmtCommand = kStart | kStop | kEnterPreOperational | kResetNode | kResetCommunication

fun nmt_code :: "NmtCommand \<Rightarrow> u8" where
  "nmt_code kStart = 0x01"
| "nmt_code kStop = 0x02"
| "nmt_code kEnterPreOperational = 0x80"
| "nmt_code kResetNode = 0x81"
| "nmt_code kResetCommunication = 0x82"

definition obj_kRpdo1Communication :: u16 where "obj_kRpdo1Communication = 0x1400"

definition obj_kRpdo1Mapping :: u16 where "obj_kRpdo1Mapping = 0x1600"

definition obj_kTpdo1Communication :: u16 where "obj_kTpdo1Communication = 0x1800"

definition obj_kTpdo2Communication :: u16 where "obj_kTpdo2Communication = 0x1801"

definition obj_kTpdo1Mapping :: u16 where "obj_kTpdo1Mapping = 0x1A00"

definition obj_kTpdo2Mapping :: u16 where "obj_kTpdo2Mapping = 0x1A01"

definition obj_kErrorCode :: u16 where "obj_kErrorCode = 0x603F"

definition obj_kControlWord :: u16 where "obj_kControlWord = 0x6040"

definition obj_kStatusWord :: u16 where "obj_kStatusWord = 0x6041"

definition obj_kModeOfOperation :: u16 where "obj_kModeOfOperation = 0x6060"

definition obj_kPositionActual :: u16 where "obj_kPositionActual = 0x6064"

definition obj_kVelocityActual :: u16 where "obj_kVelocityActual = 0x606C"

definition obj_kTargetPosition :: u16 where "obj_kTargetPosition = 0x607A"

lemmas obj_defs [simp] =
  obj_kRpdo1Communication_def obj_kRpdo1Mapping_def obj_kTpdo1Communication_def
  obj_kTpdo2Communication_def obj_kTpdo1Mapping_def obj_kTpdo2Mapping_def obj_kErrorCode_def
  obj_kControlWord_def obj_kStatusWord_def obj_kModeOfOperation_def obj_kPositionActual_def
  obj_kVelocityActual_def obj_kTargetPosition_def

definition PdoMapEntry :: "u16 \<Rightarrow> u8 \<Rightarrow> u8 \<Rightarrow> u32" where
  "PdoMapEntry index subindex bits = push_bit 16 (ucast index) OR push_bit 8 (ucast subindex) OR ucast bits"

definition kPdoDisabled :: u32 where "kPdoDisabled = 0x80000000"

definition kPdoTransmissionSyncEvery :: u8 where "kPdoTransmissionSyncEvery = 1"

definition control_word_kDisableVoltage :: u16 where "control_word_kDisableVoltage = 0x0000"

definition control_word_kShutdown :: u16 where "control_word_kShutdown = 0x0006"

definition control_word_kSwitchOn :: u16 where "control_word_kSwitchOn = 0x0007"

definition control_word_kEnableOperation :: u16 where "control_word_kEnableOperation = 0x000F"

definition control_word_kFaultReset :: u16 where "control_word_kFaultReset = 0x0080"

lemmas control_word_defs [simp] =
  control_word_kDisableVoltage_def control_word_kShutdown_def control_word_kSwitchOn_def
  control_word_kEnableOperation_def control_word_kFaultReset_def

definition status_word_kReadyToSwitchOn :: u16 where "status_word_kReadyToSwitchOn = push_bit 0 1"

definition status_word_kSwitchedOn :: u16 where "status_word_kSwitchedOn = push_bit 1 1"

definition status_word_kOperationEnabled :: u16 where "status_word_kOperationEnabled = push_bit 2 1"

definition status_word_kFault :: u16 where "status_word_kFault = push_bit 3 1"

definition status_word_kVoltageEnabled :: u16 where "status_word_kVoltageEnabled = push_bit 4 1"

definition status_word_kQuickStop :: u16 where "status_word_kQuickStop = push_bit 5 1"

definition status_word_kSwitchOnDisabled :: u16 where "status_word_kSwitchOnDisabled = push_bit 6 1"

definition status_word_kWarning :: u16 where "status_word_kWarning = push_bit 7 1"

definition status_word_kTargetReached :: u16 where "status_word_kTargetReached = push_bit 10 1"

lemmas status_word_defs [simp] =
  status_word_kReadyToSwitchOn_def status_word_kSwitchedOn_def status_word_kOperationEnabled_def
  status_word_kFault_def status_word_kVoltageEnabled_def status_word_kQuickStop_def
  status_word_kSwitchOnDisabled_def status_word_kWarning_def status_word_kTargetReached_def

datatype Mode = kProfilePosition | kProfileVelocity | kProfileTorque | kInterpolatedPosition
  | kCyclicSyncPosition | kCyclicSyncVelocity | kCyclicSyncTorque

fun mode_code :: "Mode \<Rightarrow> u8" where
  "mode_code kProfilePosition = 1"
| "mode_code kProfileVelocity = 3"
| "mode_code kProfileTorque = 4"
| "mode_code kInterpolatedPosition = 7"
| "mode_code kCyclicSyncPosition = 8"
| "mode_code kCyclicSyncVelocity = 9"
| "mode_code kCyclicSyncTorque = 10"

definition sdo_kUpload :: u8 where "sdo_kUpload = 0x40"

definition sdo_kDownloadResponse :: u8 where "sdo_kDownloadResponse = 0x60"

definition sdo_kAbort :: u8 where "sdo_kAbort = 0x80"

subsection \<open>Units\<close>

definition kPositionCountsPerRev :: fp where "kPositionCountsPerRev = dlit 7929856"

definition kVelocityCountsPerRevPerSec :: fp where "kVelocityCountsPerRevPerSec = dlit 7929856"

definition pxx_kTwoPi :: fp where "pxx_kTwoPi = dlit 6.283185307179586"

definition CountsToRad :: "32 word \<Rightarrow> fp" where
  "CountsToRad counts =
     fdiv binary64 (fmul binary64 (fof_int binary64 (sint counts)) pxx_kTwoPi) kPositionCountsPerRev"

text \<open>
  \<open>std::lround\<close> of a value that no \<open>long\<close> holds returns an unspecified value: it is the parameter
  \<open>lr\<close>. The conversion to 32 bits keeps the low bits.
\<close>

definition RadToCounts :: "(fp \<Rightarrow> int) \<Rightarrow> fp \<Rightarrow> 32 word" where
  "RadToCounts lr rad = (let
     x = fdiv binary64 (fmul binary64 rad kPositionCountsPerRev) pxx_kTwoPi
   in word_of_int (case flround x of Some n \<Rightarrow> n | None \<Rightarrow> lr x))"

definition VelocityToRadS :: "32 word \<Rightarrow> fp" where
  "VelocityToRadS raw =
     fdiv binary64 (fmul binary64 (fof_int binary64 (sint raw)) pxx_kTwoPi) kVelocityCountsPerRevPerSec"

subsection \<open>Frames\<close>

record PFrame =
  p_arbitration_id :: u32
  p_extended :: bool
  p_data_length :: u8
  p_data :: "u8 list"

definition empty_PFrame :: PFrame where
  "empty_PFrame = \<lparr>p_arbitration_id = 0, p_extended = False, p_data_length = 0, p_data = replicate 8 0\<rparr>"

definition PutLe :: "PFrame \<Rightarrow> nat \<Rightarrow> u32 \<Rightarrow> nat \<Rightarrow> PFrame" where
  "PutLe frame offset v bytes = fold (\<lambda>i f.
     f\<lparr>p_data := (p_data f)[offset + i := ucast (drop_bit (i * 8) v)]\<rparr>) [0..<bytes] frame"

definition GetLe :: "PFrame \<Rightarrow> nat \<Rightarrow> nat \<Rightarrow> u32" where
  "GetLe frame offset bytes = fold (\<lambda>i v.
     v OR push_bit (i * 8) (ucast (p_data frame ! (offset + i)))) [0..<bytes] 0"

definition set_byte :: "nat \<Rightarrow> u8 \<Rightarrow> PFrame \<Rightarrow> PFrame" where
  "set_byte i v f = f\<lparr>p_data := (p_data f)[i := v]\<rparr>"

definition MakeNmtFrame :: "NmtCommand \<Rightarrow> u8 \<Rightarrow> PFrame" where
  "MakeNmtFrame command node = (let
     f = empty_PFrame\<lparr>p_arbitration_id := cob_kNmt, p_data_length := 2\<rparr>
   in set_byte 1 node (set_byte 0 (nmt_code command) f))"

definition MakeSyncFrame :: PFrame where
  "MakeSyncFrame = empty_PFrame\<lparr>p_arbitration_id := cob_kSync\<rparr>"

definition MakeSdoWriteFrame :: "u8 \<Rightarrow> u16 \<Rightarrow> u8 \<Rightarrow> u32 \<Rightarrow> u8 \<Rightarrow> PFrame" where
  "MakeSdoWriteFrame node index subindex v bytes = (let
     f = empty_PFrame\<lparr>p_arbitration_id := cob_kRsdo + ucast node, p_data_length := 8\<rparr>;
     f = set_byte 0 (0x23 OR push_bit 2 (4 - bytes)) f;
     f = PutLe f 1 (ucast index) 2;
     f = set_byte 3 subindex f
   in PutLe f 4 v (unat bytes))"

definition MakeSdoReadFrame :: "u8 \<Rightarrow> u16 \<Rightarrow> u8 \<Rightarrow> PFrame" where
  "MakeSdoReadFrame node index subindex = (let
     f = empty_PFrame\<lparr>p_arbitration_id := cob_kRsdo + ucast node, p_data_length := 8\<rparr>;
     f = set_byte 0 sdo_kUpload f;
     f = PutLe f 1 (ucast index) 2
   in set_byte 3 subindex f)"

definition MakeTargetPositionFrame :: "u8 \<Rightarrow> 32 word \<Rightarrow> PFrame" where
  "MakeTargetPositionFrame node target_counts = (let
     f = empty_PFrame\<lparr>p_arbitration_id := cob_kRpdo1 + ucast node, p_data_length := 4\<rparr>
   in PutLe f 0 target_counts 4)"

subsection \<open>Parsers\<close>

record SdoResponse =
  sr_node_id :: u8
  sr_index :: u16
  sr_subindex :: u8
  sr_aborted :: bool
  sr_value :: u32

definition ParseSdoResponse :: "PFrame \<Rightarrow> SdoResponse option" where
  "ParseSdoResponse f =
     (if p_extended f \<or> p_data_length f < 8 \<or> p_arbitration_id f AND cob_kFunctionMask \<noteq> cob_kTsdo then None
      else Some \<lparr>sr_node_id = ucast (p_arbitration_id f AND cob_kNodeMask), sr_index = ucast (GetLe f 1 2),
        sr_subindex = p_data f ! 3, sr_aborted = (p_data f ! 0 = sdo_kAbort), sr_value = GetLe f 4 4\<rparr>)"

definition SdoAbortText :: "u32 \<Rightarrow> string" where
  "SdoAbortText code =
     (if code = 0x05040000 then ''SDO timeout''
      else if code = 0x06010001 then ''read not allowed''
      else if code = 0x06010002 then ''write not allowed''
      else if code = 0x06020000 then ''object does not exist''
      else if code = 0x06090030 then ''value out of range''
      else ''unknown abort code'')"

definition ErrorCodeText :: "u16 \<Rightarrow> string" where
  "ErrorCodeText code =
     (if code = 0x0000 then ''no error''
      else if code = 0x3230 then ''overload protection''
      else if code = 0x4210 then ''temperature too high''
      else if code = 0x7121 then ''motor stalled''
      else if code = 0x7310 then ''motor overspeed''
      else if code = 0x8130 then ''heartbeat offline''
      else if code = 0x8500 then ''speed error too large''
      else if code = 0x8611 then ''position error too large''
      else ''unknown error'')"

record MotionFeedback =
  mf_node_id :: u8
  mf_position_counts :: "32 word"
  mf_velocity_raw :: "32 word"

definition ParseMotionFeedback :: "PFrame \<Rightarrow> MotionFeedback option" where
  "ParseMotionFeedback f =
     (if p_extended f \<or> p_data_length f < 8 \<or> p_arbitration_id f AND cob_kFunctionMask \<noteq> cob_kTpdo1 then None
      else Some \<lparr>mf_node_id = ucast (p_arbitration_id f AND cob_kNodeMask),
        mf_position_counts = GetLe f 0 4, mf_velocity_raw = GetLe f 4 4\<rparr>)"

record StatusFeedback =
  sf_node_id :: u8
  sf_status_word :: u16

definition ParseStatusFeedback :: "PFrame \<Rightarrow> StatusFeedback option" where
  "ParseStatusFeedback f =
     (if p_extended f \<or> p_data_length f < 2 \<or> p_arbitration_id f AND cob_kFunctionMask \<noteq> cob_kTpdo2 then None
      else Some \<lparr>sf_node_id = ucast (p_arbitration_id f AND cob_kNodeMask), sf_status_word = ucast (GetLe f 0 2)\<rparr>)"

record Emergency =
  em_node_id :: u8
  em_error_code :: u16

definition ParseEmergency :: "PFrame \<Rightarrow> Emergency option" where
  "ParseEmergency f = (let node = ucast (p_arbitration_id f AND cob_kNodeMask) in
     if p_extended f \<or> p_data_length f < 2 \<or> node = 0 \<or> p_arbitration_id f AND cob_kFunctionMask \<noteq> cob_kEmcy
     then None
     else Some \<lparr>em_node_id = node, em_error_code = ucast (GetLe f 0 2)\<rparr>)"

subsection \<open>\<open>SocketCanTransport\<close>\<close>

definition pxx_is_open :: "int \<Rightarrow> bool" where
  "pxx_is_open fd \<longleftrightarrow> 0 \<le> fd"

definition pxx_close :: "int \<Rightarrow> kernel \<Rightarrow> int \<times> kernel" where
  "pxx_close fd k = (if 0 \<le> fd then (-1, sys_close fd k) else (fd, k))"

definition pxx_open ::
  "open_calls \<Rightarrow> string \<Rightarrow> int \<Rightarrow> kernel \<Rightarrow> (bool \<times> backend_error option) \<times> int \<times> kernel" where
  "pxx_open c interface_name fd k = (let
     (fd, k) = pxx_close fd k;
     (fd, k) = sys_socket c k
   in if fd < 0 then ((False, Some Socket_Failed), fd, k)
      else case if_index c (ifr_name interface_name) of
        None \<Rightarrow> (let (fd, k) = pxx_close fd k
                 in ((False, Some (Interface_Not_Found interface_name)), fd, k))
      | Some ifindex \<Rightarrow>
          if bind_ret c ifindex < 0
          then (let (fd, k) = pxx_close fd k in ((False, Some (Bind_Failed interface_name)), fd, k))
          else ((True, None), fd, k))"

definition pxx_socket_frame :: "PFrame \<Rightarrow> can_frame" where
  "pxx_socket_frame f = \<lparr>
     can_id = (if p_extended f then (p_arbitration_id f AND CAN_EFF_MASK) OR CAN_EFF_FLAG
               else p_arbitration_id f AND CAN_SFF_MASK),
     can_dlc = p_data_length f,
     can_data = copy_bytes (unat (p_data_length f)) (p_data f)\<rparr>"

definition pxx_send :: "int \<Rightarrow> PFrame \<Rightarrow> kernel \<Rightarrow> (bool \<times> backend_error option) \<times> kernel" where
  "pxx_send fd f k =
     (if \<not> pxx_is_open fd \<or> pxx_kMaxDataLength < p_data_length f
      then ((False, Some Closed_Or_Bad_Length), k)
      else let (n, k) = sys_write (pxx_socket_frame f) k
      in if n \<noteq> sizeof_can_frame then ((False, Some Write_Failed), k) else ((True, None), k))"

definition pxx_receive :: "int \<Rightarrow> rx_calls \<Rightarrow> PFrame option \<times> backend_error option" where
  "pxx_receive fd c =
     (if \<not> pxx_is_open fd then (None, Some Transport_Closed)
      else if poll_ret c = 0 \<or> (poll_ret c < 0 \<and> poll_eintr c) then (None, None)
      else if poll_ret c < 0 \<or> \<not> poll_in c then (None, Some Poll_Failed)
      else if read_ret c \<noteq> sizeof_can_frame then (None, Some Read_Failed)
      else let sf = rx_frame c; ext = (can_id sf AND CAN_EFF_FLAG \<noteq> 0) in
        (Some \<lparr>p_arbitration_id = (if ext then can_id sf AND CAN_EFF_MASK else can_id sf AND CAN_SFF_MASK),
           p_extended = ext, p_data_length = can_dlc sf,
           p_data = copy_bytes (unat (can_dlc sf)) (can_data sf)\<rparr>, None))"

lemma pxx_close_eq: "pxx_close = transport_close"
  by (simp add: fun_eq_iff pxx_close_def transport_close_def)

lemma pxx_open_eq: "pxx_open = transport_open"
  unfolding pxx_open_def transport_open_def pxx_close_eq fun_eq_iff by simp

lemma pxx_send_frame:
  "live_fds (snd (pxx_send fd f k)) = live_fds k" "write_ret (snd (pxx_send fd f k)) = write_ret k"
  by (simp_all add: pxx_send_def sys_write_def Let_def)

lemma pxx_send_ok:
  assumes "writes_ok k" "0 \<le> fd" "p_data_length f \<le> pxx_kMaxDataLength"
  shows "pxx_send fd f k =
    ((True, None), k\<lparr>n_writes := Suc (n_writes k), wire := wire k @ [pxx_socket_frame f]\<rparr>)"
  using assms by (simp add: pxx_send_def pxx_is_open_def sys_write_ok not_less [symmetric])

lemma pxx_send_closed: "fd < 0 \<Longrightarrow> pxx_send fd f k = ((False, Some Closed_Or_Bad_Length), k)"
  by (simp add: pxx_send_def pxx_is_open_def)

interpretation pxx_transport: socket_transport pxx_open pxx_close pxx_send
  by unfold_locales
    (auto simp: pxx_close_eq pxx_open_eq transport_close_simps transport_close_owns transport_open_owns
      pxx_send_frame pxx_send_closed dest: transport_open_result)

subsection \<open>Frames as bytes\<close>

lemma p_simps [simp]:
  "p_arbitration_id (set_byte i v f) = p_arbitration_id f" "p_extended (set_byte i v f) = p_extended f"
  "p_data_length (set_byte i v f) = p_data_length f" "p_data (set_byte i v f) = (p_data f)[i := v]"
  by (simp_all add: set_byte_def)

lemma upt_small: "[0..<1] = [0 :: nat]" "[0..<2] = [0, 1 :: nat]" "[0..<4] = [0, 1, 2, 3 :: nat]"
  by (simp_all add: upt_rec)

lemma PutLe_simps [simp]:
  "p_arbitration_id (PutLe f i v n) = p_arbitration_id f" "p_extended (PutLe f i v n) = p_extended f"
  "p_data_length (PutLe f i v n) = p_data_length f"
  by (induction n) (simp_all add: PutLe_def)

lemma PutLe_data:
  "p_data (PutLe f i v 1) = (p_data f)[i := byte_of 0 v]"
  "p_data (PutLe f i v 2) = (p_data f)[i := byte_of 0 v, i + 1 := byte_of 1 v]"
  "p_data (PutLe f i v 4) = (p_data f)[i := byte_of 0 v, i + 1 := byte_of 1 v, i + 2 := byte_of 2 v,
     i + 3 := byte_of 3 v]"
  by (simp_all add: PutLe_def upt_small byte_of_def del: upt_Suc One_nat_def)

lemma GetLe_bytes:
  "GetLe f i 2 = ucast (p_data f ! i) OR push_bit 8 (ucast (p_data f ! (i + 1)))"
  "GetLe f i 4 = word_at (p_data f) i"
  by (simp_all add: GetLe_def upt_small word_at_def or.assoc del: upt_Suc One_nat_def)

lemma zeros_8: "replicate 8 (0 :: u8) = [0, 0, 0, 0, 0, 0, 0, 0]"
  by (simp add: numeral_eq_Suc)

text \<open>The identifier and the bytes of every frame the driver sends.\<close>

lemma MakeNmtFrame_eq: "MakeNmtFrame c n = \<lparr>p_arbitration_id = 0, p_extended = False, p_data_length = 2,
    p_data = [nmt_code c, n, 0, 0, 0, 0, 0, 0]\<rparr>"
  by (simp add: MakeNmtFrame_def empty_PFrame_def set_byte_def zeros_8)

lemma MakeSyncFrame_eq: "MakeSyncFrame = \<lparr>p_arbitration_id = 0x80, p_extended = False, p_data_length = 0,
    p_data = [0, 0, 0, 0, 0, 0, 0, 0]\<rparr>"
  by (simp add: MakeSyncFrame_def empty_PFrame_def zeros_8)

lemma PFrame_eqI:
  "p_arbitration_id f = i \<Longrightarrow> p_extended f = e \<Longrightarrow> p_data_length f = l \<Longrightarrow> p_data f = d \<Longrightarrow>
   f = \<lparr>p_arbitration_id = i, p_extended = e, p_data_length = l, p_data = d\<rparr>"
  by (cases f) simp

lemma MakeSdoWriteFrame_eq:
  "MakeSdoWriteFrame n i s v 1 = \<lparr>p_arbitration_id = 0x600 + ucast n, p_extended = False, p_data_length = 8,
     p_data = [0x2F, byte_of 0 (ucast i), byte_of 1 (ucast i), s, byte_of 0 v, 0, 0, 0]\<rparr>"
  "MakeSdoWriteFrame n i s v 2 = \<lparr>p_arbitration_id = 0x600 + ucast n, p_extended = False, p_data_length = 8,
     p_data = [0x2B, byte_of 0 (ucast i), byte_of 1 (ucast i), s, byte_of 0 v, byte_of 1 v, 0, 0]\<rparr>"
  "MakeSdoWriteFrame n i s v 4 = \<lparr>p_arbitration_id = 0x600 + ucast n, p_extended = False, p_data_length = 8,
     p_data = [0x23, byte_of 0 (ucast i), byte_of 1 (ucast i), s, byte_of 0 v, byte_of 1 v, byte_of 2 v, byte_of 3 v]\<rparr>"
  by (rule PFrame_eqI; simp add: MakeSdoWriteFrame_def Let_def empty_PFrame_def PutLe_data zeros_8
      PutLe_data [unfolded One_nat_def])+

lemma MakeSdoReadFrame_eq: "MakeSdoReadFrame n i s = \<lparr>p_arbitration_id = 0x600 + ucast n, p_extended = False,
    p_data_length = 8, p_data = [0x40, byte_of 0 (ucast i), byte_of 1 (ucast i), s, 0, 0, 0, 0]\<rparr>"
  by (rule PFrame_eqI; simp add: MakeSdoReadFrame_def Let_def empty_PFrame_def PutLe_data zeros_8
      sdo_kUpload_def PutLe_data [unfolded One_nat_def])

lemma MakeTargetPositionFrame_eq: "MakeTargetPositionFrame n v = \<lparr>p_arbitration_id = 0x200 + ucast n,
    p_extended = False, p_data_length = 4,
    p_data = [byte_of 0 v, byte_of 1 v, byte_of 2 v, byte_of 3 v, 0, 0, 0, 0]\<rparr>"
  by (rule PFrame_eqI; simp add: MakeTargetPositionFrame_def Let_def empty_PFrame_def PutLe_data zeros_8
      PutLe_data [unfolded One_nat_def])

subsection \<open>What a received frame means\<close>

text \<open>The driver's name for a response: the frame a drive sends to acknowledge or answer.\<close>

definition sdo_answer :: "u8 \<Rightarrow> u8 \<Rightarrow> u16 \<Rightarrow> u8 \<Rightarrow> u32 \<Rightarrow> PFrame" where
  "sdo_answer specifier node index subindex v = \<lparr>p_arbitration_id = 0x580 + ucast node, p_extended = False,
     p_data_length = 8, p_data = [specifier, byte_of 0 (ucast index), byte_of 1 (ucast index), subindex,
       byte_of 0 v, byte_of 1 v, byte_of 2 v, byte_of 3 v]\<rparr>"

lemma node_of_identifier:
  assumes "node \<le> pxx_kMaxNodeId" "fc AND 0x7F = (0 :: u32)"
  shows "ucast ((fc + ucast node) AND 0x7F) = node" "(fc + ucast node) AND 0x780 = fc AND 0x780"
proof -
  have low: "bit node i \<Longrightarrow> i < 7" for i
    using high_bits_unset [of node 7 i] assms(1) by (force simp: pxx_kMaxNodeId_def word_le_def)
  have fc: "bit fc i \<Longrightarrow> 7 \<le> i" for i
    using arg_cong [OF assms(2), of "\<lambda>w. bit w i"] by (auto simp: bit_and_iff bit_127 not_less)
  have "fc + ucast node = fc OR ucast node"
    by (rule disjunctive_add) (use low fc in \<open>fastforce simp: bit_simps\<close>)
  note sum = this
  show "ucast ((fc + ucast node) AND 0x7F) = node" unfolding sum
    by (rule bit_word_eqI) (use low fc in \<open>fastforce simp: bit_simps bit_127\<close>)
  show "(fc + ucast node) AND 0x780 = fc AND 0x780" unfolding sum
    by (rule bit_word_eqI) (use low in \<open>fastforce simp: bit_simps bit_1920\<close>)
qed

lemma index_bytes: "ucast (ucast (byte_of 0 (ucast i)) OR push_bit 8 (ucast (byte_of 1 (ucast i))) :: u32) = (i :: u16)"
  unfolding word16_of_bytes by (rule bit_word_eqI) (simp add: bit_simps)

lemma ParseSdoResponse_answer:
  assumes "node \<le> pxx_kMaxNodeId"
  shows "ParseSdoResponse (sdo_answer spec node index subindex v) = Some \<lparr>sr_node_id = node, sr_index = index,
    sr_subindex = subindex, sr_aborted = (spec = 0x80), sr_value = v\<rparr>"
  using node_of_identifier [OF assms, of "0x580"] index_bytes [of index]
  by (simp add: ParseSdoResponse_def sdo_answer_def GetLe_bytes sdo_kAbort_def)

text \<open>A frame is taken by at most one of the four parsers.\<close>

lemma parsers_function:
  "ParseMotionFeedback f = Some m \<Longrightarrow> p_arbitration_id f AND 0x780 = 0x180"
  "ParseStatusFeedback f = Some s \<Longrightarrow> p_arbitration_id f AND 0x780 = 0x280"
  "ParseEmergency f = Some e \<Longrightarrow> p_arbitration_id f AND 0x780 = 0x80"
  "ParseSdoResponse f = Some r \<Longrightarrow> p_arbitration_id f AND 0x780 = 0x580"
  by (auto simp: ParseMotionFeedback_def ParseStatusFeedback_def ParseEmergency_def ParseSdoResponse_def Let_def
      split: if_splits)

lemma masked_node_small: "unat (ucast (a AND 0x7F :: u32) :: u8) < 128"
proof -
  have "(ucast (a AND 0x7F) :: u8) = take_bit 7 (ucast a)"
    by (rule bit_word_eqI) (auto simp: bit_simps bit_127)
  then have "unat (ucast (a AND 0x7F) :: u8) = take_bit 7 (unat (ucast a :: u8))"
    by (simp add: unsigned_take_bit_eq)
  then show ?thesis using take_bit_nat_less_exp [of 7 "unat (ucast a :: u8)"] by simp
qed

lemma parsed_nodes_small:
  "ParseMotionFeedback f = Some m \<Longrightarrow> unat (mf_node_id m) < 128"
  "ParseStatusFeedback f = Some s \<Longrightarrow> unat (sf_node_id s) < 128"
  "ParseEmergency f = Some e \<Longrightarrow> unat (em_node_id e) < 128"
  using masked_node_small [of "p_arbitration_id f"]
  by (auto simp: ParseMotionFeedback_def ParseStatusFeedback_def ParseEmergency_def Let_def split: if_splits)

subsection \<open>Counts and radians\<close>

definition counts_per_rev :: rat where
  "counts_per_rev = 7929856"

definition two_pi_double :: rat where
  "two_pi_double = 884279719003555 / 140737488355328"

lemma pxx_constants:
  "kPositionCountsPerRev = FFin False counts_per_rev" "kVelocityCountsPerRevPerSec = FFin False counts_per_rev"
  "pxx_kTwoPi = FFin False two_pi_double"
  unfolding counts_per_rev_def two_pi_double_def by code_simp+

lemma pxx_constants_sized:
  "0 < counts_per_rev" "sized 23 counts_per_rev" "signed False counts_per_rev = counts_per_rev"
  "0 < two_pi_double" "sized 3 two_pi_double" "signed False two_pi_double = two_pi_double"
  by (simp_all add: counts_per_rev_def two_pi_double_def sized_def signed_def power_int_minus)

lemma sized_int: "\<bar>c\<bar> \<le> 2 ^ 31 \<Longrightarrow> sized 31 (of_int c)"
proof -
  assume c: "\<bar>c\<bar> \<le> 2 ^ 31"
  then have "\<bar>of_int c\<bar> \<le> (2 ^ 31 :: rat)" using of_int_le_iff [of "\<bar>c\<bar>" "2 ^ 31", where ?'a = rat] by simp
  moreover have "c \<noteq> 0 \<Longrightarrow> 1 \<le> \<bar>of_int c :: rat\<bar>" using of_int_le_iff [of 1 "\<bar>c\<bar>", where ?'a = rat] by simp
  ultimately show ?thesis by (auto simp: sized_def power_int_minus)
qed

lemma int32_bound: "\<bar>sint (w :: 32 word)\<bar> \<le> 2 ^ 31"
  using sint_range_size [of w] by (auto simp: word_size abs_le_iff)

lemma signed_int: "signed (i < 0) (of_int \<bar>i\<bar>) = of_int i"
  by (simp add: signed_def)

lemma CountsToRad_near:
  "near 2 (CountsToRad w) (of_int (sint w) * two_pi_double / counts_per_rev)"
proof -
  let ?c = "sint w"
  have f: "fof_int binary64 ?c = FFin (?c < 0) (of_int \<bar>?c\<bar>)"
    using int32_bound [of w] by (intro fof_int_exact) simp_all
  have "near 0 (fof_int binary64 ?c) (of_int ?c)"
    unfolding f using signed_int [of ?c] by (intro near_exact) (simp_all del: of_int_sint)
  then have "near 1 (fmul binary64 (fof_int binary64 ?c) (FFin False two_pi_double)) (of_int ?c * two_pi_double)"
    using near_fmul_sized [of 0 "fof_int binary64 ?c" "of_int ?c" two_pi_double 31 3 False]
      sized_int [OF int32_bound [of w]] pxx_constants_sized by simp
  then have "near (Suc 1) (fdiv binary64 (fmul binary64 (fof_int binary64 ?c) (FFin False two_pi_double))
      (FFin False counts_per_rev)) (of_int ?c * two_pi_double / signed False counts_per_rev)"
    using sized_mult [OF sized_int [OF int32_bound [of w]] pxx_constants_sized(5)] pxx_constants_sized
    by (intro near_fdiv_sized [where i = 34 and j = 23]) simp_all
  then show ?thesis
    unfolding CountsToRad_def pxx_constants pxx_constants_sized(3) by (simp only: numeral_2_eq_2 One_nat_def)
qed

lemma RadToCounts_near:
  assumes "near k x (of_int (sint w) * two_pi_double / counts_per_rev)" "k \<le> 900"
  shows "RadToCounts lr x = w"
proof -
  let ?v = "of_int (sint w) * two_pi_double / counts_per_rev"
  have v: "sized 57 ?v"
    using sized_div [OF sized_mult [OF sized_int [OF int32_bound [of w]] pxx_constants_sized(5)] pxx_constants_sized(2)]
    by simp
  have "near (Suc k) (fmul binary64 x (FFin False counts_per_rev)) (?v * signed False counts_per_rev)"
    using assms v pxx_constants_sized by (intro near_fmul_sized [where i = 57 and j = 23]) simp_all
  then have "near (Suc k) (fmul binary64 x (FFin False counts_per_rev)) (of_int (sint w) * two_pi_double)"
    using pxx_constants_sized by simp
  then have "near (Suc (Suc k)) (fdiv binary64 (fmul binary64 x (FFin False counts_per_rev)) (FFin False two_pi_double))
      (of_int (sint w) * two_pi_double / signed False two_pi_double)"
    using assms sized_mult [OF sized_int [OF int32_bound [of w]] pxx_constants_sized(5)] pxx_constants_sized
    by (intro near_fdiv_sized [where i = 34 and j = 3]) simp_all
  then have "near (Suc (Suc k)) (fdiv binary64 (fmul binary64 x (FFin False counts_per_rev)) (FFin False two_pi_double))
      (of_int (sint w))"
    using pxx_constants_sized by simp
  then have "flround (fdiv binary64 (fmul binary64 x (FFin False counts_per_rev)) (FFin False two_pi_double)) =
      Some (sint w)"
    by (rule near_lround) (use assms(2) int32_bound [of w] in simp_all)
  then show ?thesis by (simp add: RadToCounts_def pxx_constants Let_def)
qed

end
