(* ===== verification/Pxx_Backend.thy ===== *)
theory Pxx_Backend
  imports Pxx_Can Backend_Interface
begin

section \<open>The arm's backends\<close>

text \<open>
  \<open>MockMotorBackend\<close> (\<open>pxx/src/mock\_motor\_backend.cpp\<close>) and \<open>SocketCanMotorBackend\<close>
  (\<open>pxx/src/socketcan\_motor\_backend.cpp\<close>). The second runs a configuration dialogue in \<open>activate\<close>:
  service-data (SDO) transactions in which the caller waits on a condition variable while the
  receive thread delivers frames. Every critical section is one step; what the receive thread does
  before and during a transaction is an input, a list of receive attempts and wake-ups in any order.
\<close>

definition quiet_NaN :: fp where
  "quiet_NaN = FNaN"

record MotorBackendInfo =
  minfo_name :: string
  minfo_endpoint :: string

subsection \<open>The mock\<close>

record MockMotor =
  mm_info :: MotorBackendInfo
  mm_commands_rad :: "fp list"
  mm_states :: "motion_state list"

definition new_MockMotor :: "nat \<Rightarrow> string \<Rightarrow> MockMotor" where
  "new_MockMotor joint_count endpoint =
     \<lparr>mm_info = \<lparr>minfo_name = ''mock'', minfo_endpoint = endpoint\<rparr>,
      mm_commands_rad = replicate joint_count quiet_NaN, mm_states = replicate joint_count zero_state\<rparr>"

definition mock_motor_activate :: "MockMotor \<Rightarrow> status \<times> MockMotor" where
  "mock_motor_activate b = ((True, None),
     b\<lparr>mm_commands_rad := map (\<lambda>_. quiet_NaN) (mm_commands_rad b),
       mm_states := map (\<lambda>_. zero_state) (mm_states b)\<rparr>)"

definition mock_motor_deactivate :: "MockMotor \<Rightarrow> status \<times> MockMotor" where
  "mock_motor_deactivate b = ((True, None),
     b\<lparr>mm_commands_rad := map (\<lambda>_. quiet_NaN) (mm_commands_rad b),
       mm_states := map (\<lambda>s. s\<lparr>velocity_rad_s := fzero\<rparr>) (mm_states b)\<rparr>)"

definition mock_motor_joint :: "fp \<Rightarrow> fp \<Rightarrow> motion_state \<Rightarrow> motion_state" where
  "mock_motor_joint period_seconds command s =
     (if fisnan command then s\<lparr>velocity_rad_s := fzero\<rparr>
      else let delta = fsub binary64 command (position_rad s)
      in s\<lparr>velocity_rad_s := (if flt fzero period_seconds then fdiv binary64 delta period_seconds else fzero),
           position_rad := command\<rparr>)"

definition mock_motor_read ::
  "motion_state list \<Rightarrow> fp \<Rightarrow> MockMotor \<Rightarrow> (status \<times> motion_state list \<times> MockMotor) outcome" where
  "mock_motor_read states period_seconds b =
     (if \<not> fisfinite period_seconds then Done ((False, Some Mock_Period_Not_Finite), states, b)
      else and_then
        (for_each (\<lambda>i s. and_then (vec_at (mm_commands_rad b) i) (\<lambda>c. Done (mock_motor_joint period_seconds c s)))
          [0..<length (mm_states b)] (mm_states b))
        (\<lambda>sts. Done ((True, None), sts, b\<lparr>mm_states := sts\<rparr>)))"

definition mock_motor_write :: "fp list \<Rightarrow> MockMotor \<Rightarrow> status \<times> MockMotor" where
  "mock_motor_write position_commands_rad b =
     (if length position_commands_rad \<noteq> length (mm_commands_rad b)
      then ((False, Some Mock_Count_Mismatch), b)
      else ((True, None), b\<lparr>mm_commands_rad := position_commands_rad\<rparr>))"

definition mock_motor_inv :: "MockMotor \<Rightarrow> bool" where
  "mock_motor_inv b \<longleftrightarrow> length (mm_commands_rad b) = length (mm_states b)"

definition mock_motor_owns :: "int list \<Rightarrow> MockMotor \<Rightarrow> kernel \<Rightarrow> bool" where
  "mock_motor_owns base b k \<longleftrightarrow> mock_motor_inv b \<and> live_fds k = base"

definition mock_motor_width :: "MockMotor \<Rightarrow> nat" where
  "mock_motor_width b = length (mm_states b)"

lemma mock_motor_read_eq:
  assumes "mock_motor_inv b" "fisfinite period"
  shows "mock_motor_read states period b = (let
      sts = map2 (mock_motor_joint period) (mm_commands_rad b) (mm_states b)
    in Done ((True, None), sts, b\<lparr>mm_states := sts\<rparr>))"
proof -
  let ?f = "\<lambda>i s. and_then (vec_at (mm_commands_rad b) i) (\<lambda>c. Done (mock_motor_joint period c s))"
  have "for_each ?f [0..<length (mm_states b)] (mm_states b) = Done (map (\<lambda>i.
      mock_motor_joint period (mm_commands_rad b ! i) (mm_states b ! i)) [0..<length (mm_states b)])"
    using assms(1) by (intro for_each_all) (simp add: mock_motor_inv_def)
  then show ?thesis
    using assms by (simp add: mock_motor_read_def Let_def mock_motor_inv_def map_upt_nth2)
qed

subsection \<open>The SocketCAN backend: members and receive thread\<close>

record MotorFeedback =
  fb_position_counts :: "32 word"
  fb_velocity_raw :: "32 word"
  fb_status_word :: u16
  fb_error_code :: u16

definition zero_feedback :: MotorFeedback where
  "zero_feedback = \<lparr>fb_position_counts = 0, fb_velocity_raw = 0, fb_status_word = 0, fb_error_code = 0\<rparr>"

record SocketCanMotor =
  sm_info :: MotorBackendInfo
  sm_can_interface :: string
  sm_node_ids :: "u8 list"
  sm_gear_ratios :: "fp list"
  sm_fd :: int
  sm_rx_joinable :: bool
  sm_rx_running :: bool
  sm_feedback :: "MotorFeedback list"
  sm_sdo_response :: "SdoResponse option"

definition new_SocketCanMotor :: "string \<Rightarrow> u8 list \<Rightarrow> fp list \<Rightarrow> SocketCanMotor" where
  "new_SocketCanMotor can_interface node_ids gear_ratios =
     \<lparr>sm_info = \<lparr>minfo_name = ''SocketCAN'', minfo_endpoint = can_interface\<rparr>,
      sm_can_interface = can_interface, sm_node_ids = node_ids, sm_gear_ratios = gear_ratios,
      sm_fd = -1, sm_rx_joinable = False, sm_rx_running = False,
      sm_feedback = replicate (unat pxx_kMaxNodeId + 1) zero_feedback, sm_sdo_response = None\<rparr>"

definition update_feedback :: "u8 \<Rightarrow> (MotorFeedback \<Rightarrow> MotorFeedback) \<Rightarrow> SocketCanMotor \<Rightarrow> SocketCanMotor" where
  "update_feedback node f b =
     b\<lparr>sm_feedback := (sm_feedback b)[unat node := f (sm_feedback b ! unat node)]\<rparr>"

definition motor_rx_frame :: "PFrame \<Rightarrow> SocketCanMotor \<Rightarrow> SocketCanMotor" where
  "motor_rx_frame frame b = (case ParseMotionFeedback frame of
     Some m \<Rightarrow> update_feedback (mf_node_id m) (\<lambda>fb. fb\<lparr>fb_position_counts := mf_position_counts m,
       fb_velocity_raw := mf_velocity_raw m\<rparr>) b
   | None \<Rightarrow> (case ParseStatusFeedback frame of
       Some s \<Rightarrow> update_feedback (sf_node_id s) (\<lambda>fb. fb\<lparr>fb_status_word := sf_status_word s\<rparr>) b
     | None \<Rightarrow> (case ParseEmergency frame of
         Some e \<Rightarrow> update_feedback (em_node_id e) (\<lambda>fb. fb\<lparr>fb_error_code := em_error_code e\<rparr>) b
       | None \<Rightarrow> (case ParseSdoResponse frame of
           Some r \<Rightarrow> b\<lparr>sm_sdo_response := Some r\<rparr>
         | None \<Rightarrow> b))))"

definition motor_rx_turn :: "rx_calls \<Rightarrow> SocketCanMotor \<Rightarrow> SocketCanMotor" where
  "motor_rx_turn c b = (if \<not> sm_rx_running b then b
     else case fst (pxx_receive (sm_fd b) c) of None \<Rightarrow> b | Some f \<Rightarrow> motor_rx_frame f b)"

definition motor_rx_loop :: "rx_calls list \<Rightarrow> SocketCanMotor \<Rightarrow> SocketCanMotor" where
  "motor_rx_loop cs b = fold motor_rx_turn cs b"

subsection \<open>SDO transactions\<close>

text \<open>
  One transaction's slot of the schedule: the receive attempts before the caller holds
  \<open>sdo\_mutex_\<close>, and what happens while it waits: further attempts and evaluations of the predicate
  (after a notification or a spurious wake-up). The end of the list is the timeout, at which
  \<open>wait\_for\<close> evaluates the predicate once more. Attempts after a successful evaluation come when the
  transaction has returned.
\<close>

datatype wait_event = W_Rx rx_calls | W_Wake

record sdo_slot =
  slot_before :: "rx_calls list"
  slot_during :: "wait_event list"

definition no_traffic :: sdo_slot where
  "no_traffic = \<lparr>slot_before = [], slot_during = []\<rparr>"

definition rx_of :: "wait_event list \<Rightarrow> rx_calls list" where
  "rx_of es = List.map_filter (\<lambda>e. case e of W_Rx c \<Rightarrow> Some c | W_Wake \<Rightarrow> None) es"

fun sdo_wait :: "(SdoResponse option \<Rightarrow> bool) \<Rightarrow> wait_event list \<Rightarrow> SocketCanMotor \<Rightarrow>
    bool \<times> SocketCanMotor \<times> wait_event list" where
  "sdo_wait answered [] b = (answered (sm_sdo_response b), b, [])"
| "sdo_wait answered (W_Rx c # es) b = sdo_wait answered es (motor_rx_turn c b)"
| "sdo_wait answered (W_Wake # es) b =
     (if answered (sm_sdo_response b) then (True, b, es) else sdo_wait answered es b)"

record motor_env =
  me_backend :: SocketCanMotor
  me_kernel :: kernel
  me_slots :: "sdo_slot list"

definition next_slot :: "motor_env \<Rightarrow> sdo_slot" where
  "next_slot s = (case me_slots s of [] \<Rightarrow> no_traffic | x # _ \<Rightarrow> x)"

definition sdo_answered :: "u8 \<Rightarrow> u16 \<Rightarrow> u8 \<Rightarrow> SdoResponse option \<Rightarrow> bool" where
  "sdo_answered node index subindex r = (case r of None \<Rightarrow> False
     | Some r \<Rightarrow> sr_node_id r = node \<and> sr_index r = index \<and> sr_subindex r = subindex)"

definition motor_send :: "PFrame \<Rightarrow> motor_env \<Rightarrow> status \<times> motor_env" where
  "motor_send f s = (case pxx_send (sm_fd (me_backend s)) f (me_kernel s) of (st, k) \<Rightarrow> (st, s\<lparr>me_kernel := k\<rparr>))"

text \<open>The result carries the value through the \<open>value\<close> out-parameter, when there is one.\<close>

definition sdo_transaction :: "PFrame \<Rightarrow> motor_env \<Rightarrow> (status \<times> u32 option) \<times> motor_env" where
  "sdo_transaction request s = (let
     node = ucast (p_arbitration_id request AND cob_kNodeMask);
     index = ucast (p_data request ! 1) OR push_bit 8 (ucast (p_data request ! 2));
     subindex = p_data request ! 3;
     slot = next_slot s;
     b = (motor_rx_loop (slot_before slot) (me_backend s))\<lparr>sm_sdo_response := None\<rparr>;
     s = s\<lparr>me_backend := b, me_slots := tl (me_slots s)\<rparr>;
     ((ok, e), s) = motor_send request s
   in if \<not> ok
      then (((False, e), None), s\<lparr>me_backend := motor_rx_loop (rx_of (slot_during slot)) b\<rparr>)
      else let
        (answered, b, later) = sdo_wait (sdo_answered node index subindex) (slot_during slot) b;
        s = s\<lparr>me_backend := motor_rx_loop (rx_of later) b\<rparr>
      in if \<not> answered then (((False, Some (Sdo_Timed_Out node index subindex)), None), s)
         else case sm_sdo_response b of
           None \<Rightarrow> (((False, None), None), s)
         | Some r \<Rightarrow>
             if sr_aborted r
             then (((False, Some (Sdo_Aborted node index subindex (sr_value r) (SdoAbortText (sr_value r)))), None), s)
             else (((True, None), Some (sr_value r)), s))"

definition sdo_write :: "u8 \<Rightarrow> u16 \<Rightarrow> u8 \<Rightarrow> u32 \<Rightarrow> u8 \<Rightarrow> motor_env \<Rightarrow> status \<times> motor_env" where
  "sdo_write node index subindex v bytes s =
     (case sdo_transaction (MakeSdoWriteFrame node index subindex v bytes) s of ((st, _), s) \<Rightarrow> (st, s))"

text \<open>The out-parameter keeps its value \<open>v\<close> when the transaction fails.\<close>

definition sdo_read :: "u8 \<Rightarrow> u16 \<Rightarrow> u8 \<Rightarrow> u32 \<Rightarrow> motor_env \<Rightarrow> (status \<times> u32) \<times> motor_env" where
  "sdo_read node index subindex v s =
     (case sdo_transaction (MakeSdoReadFrame node index subindex) s of
       ((st, r), s) \<Rightarrow> ((st, case r of None \<Rightarrow> v | Some v' \<Rightarrow> v'), s))"

subsection \<open>Activation\<close>

text \<open>\<open>a \<and> b\<close> of two operations with results: the second runs only after the first succeeded.\<close>

definition and_also :: "(motor_env \<Rightarrow> status \<times> motor_env) \<Rightarrow> (motor_env \<Rightarrow> status \<times> motor_env) \<Rightarrow>
    motor_env \<Rightarrow> status \<times> motor_env" where
  "and_also a b s = (case a s of ((ok, e), s') \<Rightarrow> if ok then b s' else ((False, e), s'))"

fun sdo_writes :: "u8 \<Rightarrow> (u16 \<times> u8 \<times> u32 \<times> u8) list \<Rightarrow> motor_env \<Rightarrow> status \<times> motor_env" where
  "sdo_writes node [] s = ((True, None), s)"
| "sdo_writes node ((index, subindex, v, bytes) # ws) s =
     and_also (sdo_write node index subindex v bytes) (sdo_writes node ws) s"

text \<open>The 21 writes of the \<open>configured\<close> conjunction: object, subindex, value, size.\<close>

definition pdo_configuration :: "u8 \<Rightarrow> (u16 \<times> u8 \<times> u32 \<times> u8) list" where
  "pdo_configuration node = (let
     rpdo1 = cob_kRpdo1 + ucast node; tpdo1 = cob_kTpdo1 + ucast node; tpdo2 = cob_kTpdo2 + ucast node
   in [(obj_kControlWord, 0, ucast control_word_kFaultReset, 2),
       (obj_kModeOfOperation, 0, ucast (mode_code kCyclicSyncPosition), 1),
       (obj_kRpdo1Communication, 1, kPdoDisabled OR rpdo1, 4),
       (obj_kRpdo1Mapping, 0, 0, 1),
       (obj_kRpdo1Mapping, 1, PdoMapEntry obj_kTargetPosition 0 32, 4),
       (obj_kRpdo1Mapping, 0, 1, 1),
       (obj_kRpdo1Communication, 2, ucast kPdoTransmissionSyncEvery, 1),
       (obj_kRpdo1Communication, 1, rpdo1, 4),
       (obj_kTpdo1Communication, 1, kPdoDisabled OR tpdo1, 4),
       (obj_kTpdo1Mapping, 0, 0, 1),
       (obj_kTpdo1Mapping, 1, PdoMapEntry obj_kPositionActual 0 32, 4),
       (obj_kTpdo1Mapping, 2, PdoMapEntry obj_kVelocityActual 0 32, 4),
       (obj_kTpdo1Mapping, 0, 2, 1),
       (obj_kTpdo1Communication, 2, ucast kPdoTransmissionSyncEvery, 1),
       (obj_kTpdo1Communication, 1, tpdo1, 4),
       (obj_kTpdo2Communication, 1, kPdoDisabled OR tpdo2, 4),
       (obj_kTpdo2Mapping, 0, 0, 1),
       (obj_kTpdo2Mapping, 1, PdoMapEntry obj_kStatusWord 0 16, 4),
       (obj_kTpdo2Mapping, 0, 1, 1),
       (obj_kTpdo2Communication, 2, ucast kPdoTransmissionSyncEvery, 1),
       (obj_kTpdo2Communication, 1, tpdo2, 4)])"

text \<open>The end of \<open>configure\_node\<close>: the status word decides, and the error code is read for the message.\<close>

definition check_enabled :: "u8 \<Rightarrow> motor_env \<Rightarrow> status \<times> motor_env" where
  "check_enabled node s = (let ((st, status), s) = sdo_read node obj_kStatusWord 0 0 s in
     if \<not> fst st then (st, s)
     else if status AND ucast status_word_kFault \<noteq> 0 \<or> status AND ucast status_word_kOperationEnabled = 0
     then let ((_, error_code), s) = sdo_read node obj_kErrorCode 0 0 s in
       ((False, Some (Failed_To_Enable node status error_code (ErrorCodeText (ucast error_code)))), s)
     else ((True, None), s))"

definition seed_position :: "u8 \<Rightarrow> u32 \<Rightarrow> motor_env \<Rightarrow> status \<times> motor_env" where
  "seed_position node position s = ((True, None), s\<lparr>me_backend :=
     update_feedback node (\<lambda>fb. fb\<lparr>fb_position_counts := position\<rparr>) (me_backend s)\<rparr>)"

definition enable_drive :: "u8 \<Rightarrow> motor_env \<Rightarrow> status \<times> motor_env" where
  "enable_drive node =
     and_also (motor_send (MakeNmtFrame kStart node))
     (and_also (sdo_write node obj_kControlWord 0 (ucast control_word_kShutdown) 2)
     (and_also (sdo_write node obj_kControlWord 0 (ucast control_word_kSwitchOn) 2)
     (and_also (sdo_write node obj_kControlWord 0 (ucast control_word_kEnableOperation) 2)
     (check_enabled node))))"

definition hold_position :: "u8 \<Rightarrow> motor_env \<Rightarrow> status \<times> motor_env" where
  "hold_position node s = (case sdo_read node obj_kPositionActual 0 0 s of ((st, position), s) \<Rightarrow>
     if \<not> fst st then (st, s)
     else and_also (sdo_write node obj_kTargetPosition 0 position 4)
       (and_also (seed_position node position) (enable_drive node)) s)"

definition configure_node :: "u8 \<Rightarrow> motor_env \<Rightarrow> status \<times> motor_env" where
  "configure_node node =
     and_also (motor_send (MakeNmtFrame kEnterPreOperational node))
     (and_also (sdo_writes node (pdo_configuration node)) (hold_position node))"

fun configure_nodes :: "u8 list \<Rightarrow> motor_env \<Rightarrow> status \<times> motor_env" where
  "configure_nodes [] s = ((True, None), s)"
| "configure_nodes (n # ns) s = and_also (configure_node n) (configure_nodes ns) s"

fun pxx_send_all :: "int \<Rightarrow> PFrame list \<Rightarrow> kernel \<Rightarrow> status \<times> kernel" where
  "pxx_send_all fd [] k = ((True, None), k)"
| "pxx_send_all fd (f # fs) k = (let
     ((ok1, e1), k) = pxx_send fd f k;
     ((ok2, e2), k) = pxx_send_all fd fs k
   in ((ok1 \<and> ok2, later_error e1 e2), k))"

definition disable_frames :: "u8 \<Rightarrow> PFrame list" where
  "disable_frames node = [MakeSdoWriteFrame node obj_kControlWord 0 (ucast control_word_kShutdown) 2,
     MakeNmtFrame kEnterPreOperational node]"

definition socketcan_motor_deactivate ::
  "SocketCanMotor \<Rightarrow> kernel \<Rightarrow> status \<times> SocketCanMotor \<times> kernel" where
  "socketcan_motor_deactivate b k = (let
     (st, k) = (if pxx_is_open (sm_fd b)
                then pxx_send_all (sm_fd b) (concat (map disable_frames (sm_node_ids b))) k
                else ((True, None), k));
     (fd, k) = pxx_close (sm_fd b) k
   in (st, b\<lparr>sm_rx_running := False, sm_rx_joinable := False, sm_fd := fd\<rparr>, k))"

text \<open>The destructor; destroying a \<open>std::thread\<close> that is joinable ends the process, and the transport closes itself.\<close>

definition destroy_SocketCanMotor :: "SocketCanMotor \<Rightarrow> kernel \<Rightarrow> kernel outcome" where
  "destroy_SocketCanMotor b k = (case socketcan_motor_deactivate b k of (_, b, k) \<Rightarrow>
     if sm_rx_joinable b then Terminated else Done (snd (pxx_close (sm_fd b) k)))"

record motor_calls =
  mc_open :: open_calls
  mc_slots :: "sdo_slot list"

definition socketcan_motor_activate ::
  "motor_calls \<Rightarrow> SocketCanMotor \<Rightarrow> kernel \<Rightarrow> (status \<times> SocketCanMotor \<times> kernel) outcome" where
  "socketcan_motor_activate c b k = (let
     ((ok, e), fd, k) = pxx_open (mc_open c) (sm_can_interface b) (sm_fd b) k;
     b = b\<lparr>sm_fd := fd\<rparr>
   in if \<not> ok then Done ((False, e), b, k)
      else let b = b\<lparr>sm_feedback := map (\<lambda>_. zero_feedback) (sm_feedback b), sm_rx_running := True\<rparr>
        in if sm_rx_joinable b then Terminated
        else let b = b\<lparr>sm_rx_joinable := True\<rparr>;
               ((ok, e), s) = configure_nodes (sm_node_ids b)
                 \<lparr>me_backend = b, me_kernel = k, me_slots = mc_slots c\<rparr>
          in if ok then Done ((True, e), me_backend s, me_kernel s)
             else case socketcan_motor_deactivate (me_backend s) (me_kernel s) of
               (_, b, k) \<Rightarrow> Done ((False, e), b, k))"

subsection \<open>The control cycle\<close>

definition motor_joint_state :: "fp \<Rightarrow> MotorFeedback \<Rightarrow> motion_state \<Rightarrow> motion_state" where
  "motor_joint_state gear fb s = s\<lparr>
     position_rad := fdiv binary64 (CountsToRad (fb_position_counts fb)) gear,
     velocity_rad_s := fdiv binary64 (VelocityToRadS (fb_velocity_raw fb)) gear\<rparr>"

definition in_fault :: "MotorFeedback \<Rightarrow> bool" where
  "in_fault fb \<longleftrightarrow> fb_status_word fb AND status_word_kFault \<noteq> 0"

text \<open>The loop of \<open>read\<close>, with its early return at the first node in fault.\<close>

fun motor_read_joints :: "nat list \<Rightarrow> SocketCanMotor \<Rightarrow> motion_state list \<Rightarrow> (status \<times> motion_state list) outcome" where
  "motor_read_joints [] b sts = Done ((True, None), sts)"
| "motor_read_joints (i # is) b sts =
     and_then (vec_at (sm_node_ids b) i) (\<lambda>n. and_then (vec_at (sm_feedback b) (unat n)) (\<lambda>fb.
       if in_fault fb
       then Done ((False, Some (In_Fault n (fb_status_word fb) (fb_error_code fb)
         (ErrorCodeText (fb_error_code fb)))), sts)
       else and_then (vec_at (sm_gear_ratios b) i) (\<lambda>g. and_then (vec_at sts i) (\<lambda>s.
         motor_read_joints is b (sts[i := motor_joint_state g fb s])))))"

definition socketcan_motor_read ::
  "motion_state list \<Rightarrow> fp \<Rightarrow> SocketCanMotor \<Rightarrow> (status \<times> motion_state list \<times> SocketCanMotor) outcome" where
  "socketcan_motor_read states period_seconds b =
     (if \<not> pxx_is_open (sm_fd b) then Done ((False, Some Not_Active), states, b)
      else and_then (motor_read_joints [0..<length (sm_node_ids b)] b
          (vec_resize (length (sm_node_ids b)) zero_state states))
        (\<lambda>(st, sts). Done (st, sts, b)))"

text \<open>The target frames of one cycle, in order; a NaN command sends nothing.\<close>

fun target_frames :: "(fp \<Rightarrow> int) \<Rightarrow> nat list \<Rightarrow> fp list \<Rightarrow> SocketCanMotor \<Rightarrow> PFrame list outcome" where
  "target_frames lr [] cmds b = Done []"
| "target_frames lr (i # is) cmds b =
     and_then (vec_at cmds i) (\<lambda>c.
       if fisnan c then target_frames lr is cmds b
       else and_then (vec_at (sm_gear_ratios b) i) (\<lambda>g. and_then (vec_at (sm_node_ids b) i) (\<lambda>n.
         and_then (target_frames lr is cmds b) (\<lambda>fs.
           Done (MakeTargetPositionFrame n (RadToCounts lr (fmul binary64 c g)) # fs)))))"

definition socketcan_motor_write :: "(fp \<Rightarrow> int) \<Rightarrow>
    fp list \<Rightarrow> SocketCanMotor \<Rightarrow> kernel \<Rightarrow> (status \<times> SocketCanMotor \<times> kernel) outcome" where
  "socketcan_motor_write lr position_commands_rad b k =
     (if \<not> pxx_is_open (sm_fd b) then Done ((False, Some Not_Active), b, k)
      else if length position_commands_rad \<noteq> length (sm_node_ids b)
      then Done ((False, Some Command_Count_Mismatch), b, k)
      else and_then (target_frames lr [0..<length (sm_node_ids b)] position_commands_rad b) (\<lambda>fs.
        let (st, k) = pxx_send_all (sm_fd b) (fs @ [MakeSyncFrame]) k in Done (st, b, k)))"

subsection \<open>What every step leaves alone\<close>

definition same_link :: "SocketCanMotor \<Rightarrow> SocketCanMotor \<Rightarrow> bool" where
  "same_link b b' \<longleftrightarrow> sm_fd b' = sm_fd b \<and> sm_rx_joinable b' = sm_rx_joinable b \<and>
     sm_rx_running b' = sm_rx_running b \<and> sm_node_ids b' = sm_node_ids b \<and>
     sm_gear_ratios b' = sm_gear_ratios b \<and> sm_can_interface b' = sm_can_interface b \<and>
     length (sm_feedback b') = length (sm_feedback b)"

lemma same_link_refl [simp]: "same_link b b"
  and same_link_trans: "same_link a b \<Longrightarrow> same_link b c \<Longrightarrow> same_link a c"
  by (simp_all add: same_link_def)

lemma same_link_update [simp]: "same_link b (update_feedback n f b)"
  by (simp add: same_link_def update_feedback_def)

lemma same_link_sdo [simp]: "same_link b (b\<lparr>sm_sdo_response := r\<rparr>)"
  by (simp add: same_link_def)

lemma same_link_rx_frame [simp]: "same_link b (motor_rx_frame f b)"
  by (simp add: motor_rx_frame_def split: option.split)

lemma same_link_rx_turn [simp]: "same_link b (motor_rx_turn c b)"
  by (simp add: motor_rx_turn_def split: option.split)

lemma same_link_cong: "same_link b c \<Longrightarrow> same_link a c \<longleftrightarrow> same_link a b"
  by (simp add: same_link_def)

lemma same_link_rx_loop [simp]: "same_link b (motor_rx_loop cs b)"
proof (induction cs arbitrary: b)
  case (Cons c cs)
  then show ?case
    using same_link_trans [OF same_link_rx_turn [of b c]] by (simp add: motor_rx_loop_def)
qed (simp add: motor_rx_loop_def)

lemma same_link_steps [simp]:
  "same_link a (motor_rx_loop cs b) \<longleftrightarrow> same_link a b"
  "same_link a (b\<lparr>sm_sdo_response := r\<rparr>) \<longleftrightarrow> same_link a b"
  "same_link a (update_feedback n f b) \<longleftrightarrow> same_link a b"
  by (rule same_link_cong; simp)+

lemma same_link_wait: "sdo_wait a es b = (r, b', later) \<Longrightarrow> same_link b b'"
proof (induction a es b rule: sdo_wait.induct)
  case (2 a c es b)
  then show ?case using same_link_trans [OF same_link_rx_turn [of b c]] by simp
qed (auto split: if_splits)

definition same_env :: "motor_env \<Rightarrow> motor_env \<Rightarrow> bool" where
  "same_env s s' \<longleftrightarrow> same_link (me_backend s) (me_backend s') \<and>
     live_fds (me_kernel s') = live_fds (me_kernel s) \<and> write_ret (me_kernel s') = write_ret (me_kernel s)"

lemma same_env_refl [simp]: "same_env s s"
  and same_env_trans: "same_env a b \<Longrightarrow> same_env b c \<Longrightarrow> same_env a c"
  by (auto simp: same_env_def intro: same_link_trans)

lemma same_env_send: "motor_send f s = (st, s') \<Longrightarrow> same_env s s'"
  using pxx_send_frame [of "sm_fd (me_backend s)" f "me_kernel s"]
  by (auto simp: motor_send_def same_env_def split: prod.splits)

text \<open>
  The shape of a transaction's two cases: the request was not sent, or it was and the wait gave
  \<open>answered\<close>.
\<close>

lemma sdo_transaction_cases:
  assumes t: "sdo_transaction request s = (((ok, e), v), s')"
  obtains (failed) b0 k where
    "b0 = (motor_rx_loop (slot_before (next_slot s)) (me_backend s))\<lparr>sm_sdo_response := None\<rparr>"
    "pxx_send (sm_fd b0) request (me_kernel s) = ((False, e), k)" "\<not> ok" "v = None"
    "s' = \<lparr>me_backend = motor_rx_loop (rx_of (slot_during (next_slot s))) b0, me_kernel = k,
      me_slots = tl (me_slots s)\<rparr>"
  | (waited) b0 k e0 answered b1 later where
    "b0 = (motor_rx_loop (slot_before (next_slot s)) (me_backend s))\<lparr>sm_sdo_response := None\<rparr>"
    "pxx_send (sm_fd b0) request (me_kernel s) = ((True, e0), k)"
    "sdo_wait (sdo_answered (ucast (p_arbitration_id request AND cob_kNodeMask))
       (ucast (p_data request ! 1) OR push_bit 8 (ucast (p_data request ! 2))) (p_data request ! 3))
       (slot_during (next_slot s)) b0 = (answered, b1, later)"
    "s' = \<lparr>me_backend = motor_rx_loop (rx_of later) b1, me_kernel = k, me_slots = tl (me_slots s)\<rparr>"
    "ok = (answered \<and> (\<exists>r. sm_sdo_response b1 = Some r \<and> \<not> sr_aborted r))"
    "v = (if ok then map_option sr_value (sm_sdo_response b1) else None)"
    "ok \<longrightarrow> e = None"
proof -
  let ?slot = "next_slot s"
  define b0 where "b0 = (motor_rx_loop (slot_before ?slot) (me_backend s))\<lparr>sm_sdo_response := None\<rparr>"
  obtain ok1 e1 k where snd: "pxx_send (sm_fd b0) request (me_kernel s) = ((ok1, e1), k)" by (metis surj_pair)
  obtain answered b1 later where w: "sdo_wait (sdo_answered (ucast (p_arbitration_id request AND cob_kNodeMask))
       (ucast (p_data request ! 1) OR push_bit 8 (ucast (p_data request ! 2))) (p_data request ! 3))
       (slot_during ?slot) b0 = (answered, b1, later)" by (metis surj_pair)
  have env: "s\<lparr>me_slots := z, me_kernel := y, me_backend := x\<rparr> =
      \<lparr>me_backend = x, me_kernel = y, me_slots = z\<rparr>" for x y z
    by (cases s) simp
  have eq: "sdo_transaction request s = (if \<not> ok1
      then (((False, e1), None), \<lparr>me_backend = motor_rx_loop (rx_of (slot_during ?slot)) b0, me_kernel = k,
        me_slots = tl (me_slots s)\<rparr>)
      else let s' = \<lparr>me_backend = motor_rx_loop (rx_of later) b1, me_kernel = k, me_slots = tl (me_slots s)\<rparr>
        in if \<not> answered
          then (((False, Some (Sdo_Timed_Out (ucast (p_arbitration_id request AND cob_kNodeMask))
            (ucast (p_data request ! 1) OR push_bit 8 (ucast (p_data request ! 2))) (p_data request ! 3))), None), s')
          else case sm_sdo_response b1 of None \<Rightarrow> (((False, None), None), s')
          | Some r \<Rightarrow> if sr_aborted r
            then (((False, Some (Sdo_Aborted (ucast (p_arbitration_id request AND cob_kNodeMask))
              (ucast (p_data request ! 1) OR push_bit 8 (ucast (p_data request ! 2))) (p_data request ! 3)
              (sr_value r) (SdoAbortText (sr_value r)))), None), s')
            else (((True, None), Some (sr_value r)), s'))"
    unfolding sdo_transaction_def Let_def b0_def [symmetric]
    by (simp add: motor_send_def snd w env del: cob_defs One_nat_def cong: if_cong option.case_cong)
  show ?thesis
  proof (cases ok1)
    case False
    then show ?thesis
      using t snd unfolding eq by (intro failed [OF b0_def, of k]) auto
  next
    case True
    show ?thesis
      by (rule waited [OF b0_def, of e1 k answered b1 later])
        (use True t snd w in \<open>auto simp: eq Let_def simp del: cob_defs One_nat_def split: option.splits if_splits\<close>)
  qed
qed

lemma same_env_transaction:
  assumes "sdo_transaction request s = (((ok, e), v), s')"
  shows "same_env s s'"
  using assms
proof (cases rule: sdo_transaction_cases)
  case (failed b0 k)
  then show ?thesis
    using pxx_send_frame [of "sm_fd b0" request "me_kernel s"]
    by (auto simp: same_env_def intro: same_link_trans)
next
  case (waited b0 k e0 answered b1 later)
  have "same_link (me_backend s) b1"
    by (rule same_link_trans [OF _ same_link_wait [OF waited(3)]]) (simp add: waited(1))
  moreover have "live_fds k = live_fds (me_kernel s)" "write_ret k = write_ret (me_kernel s)"
    using pxx_send_frame [of "sm_fd b0" request "me_kernel s"] unfolding waited(2) by simp_all
  ultimately show ?thesis by (simp add: same_env_def waited(4))
qed

lemma same_env_sdo_write: "sdo_write n i sub v bytes s = (st, s') \<Longrightarrow> same_env s s'"
  by (cases st) (auto simp: sdo_write_def split: prod.splits dest: same_env_transaction)

lemma same_env_sdo_read: "sdo_read n i sub v s = ((st, r), s') \<Longrightarrow> same_env s s'"
  by (cases st) (auto simp: sdo_read_def split: prod.splits dest: same_env_transaction)

text \<open>Operations that leave the link and the descriptors alone are closed under sequencing.\<close>

definition quiet :: "(motor_env \<Rightarrow> status \<times> motor_env) \<Rightarrow> bool" where
  "quiet f \<longleftrightarrow> (\<forall>s st s'. f s = (st, s') \<longrightarrow> same_env s s')"

lemma quiet_and_also: "quiet a \<Longrightarrow> quiet b \<Longrightarrow> quiet (and_also a b)"
  unfolding quiet_def and_also_def
  by (auto split: prod.splits if_splits) (metis same_env_trans)

lemma quiet_basic: "quiet (motor_send f)" "quiet (sdo_write n i sub v bytes)" "quiet (seed_position n p)"
  using same_env_send same_env_sdo_write by (auto simp: quiet_def seed_position_def same_env_def)

lemma quiet_sdo_writes: "quiet (sdo_writes n ws)"
proof (induction ws)
  case (Cons w ws)
  then show ?case
    by (cases w) (use quiet_and_also [OF quiet_basic(2) Cons] in \<open>auto simp: quiet_def\<close>)
qed (simp add: quiet_def)

lemma quiet_check_enabled: "quiet (check_enabled n)"
  by (auto simp: quiet_def check_enabled_def Let_def split: prod.splits if_splits
      dest!: same_env_sdo_read intro: same_env_trans)

lemma quiet_enable_drive: "quiet (enable_drive n)"
  unfolding enable_drive_def by (intro quiet_and_also quiet_basic quiet_check_enabled)

lemma quiet_hold_position: "quiet (hold_position n)"
proof -
  have q: "quiet (and_also (sdo_write n i 0 p 4) (and_also (seed_position n p) (enable_drive n)))" for i p
    by (intro quiet_and_also quiet_basic quiet_enable_drive)
  show ?thesis
    unfolding quiet_def hold_position_def
    by (auto split: prod.splits if_splits dest!: same_env_sdo_read
        intro: same_env_trans q [unfolded quiet_def, rule_format])
qed

lemma quiet_configure_nodes: "quiet (configure_nodes ns)"
proof (induction ns)
  case (Cons n ns)
  have "quiet (configure_node n)"
    unfolding configure_node_def by (intro quiet_and_also quiet_basic quiet_sdo_writes quiet_hold_position)
  from quiet_and_also [OF this Cons] show ?case by (auto simp: quiet_def)
qed (simp add: quiet_def)

subsection \<open>Invariants and contracts\<close>

interpretation mock_motor: joint_backend "mock_motor_owns base" mock_motor_width "\<lambda>_. True"
  "\<lambda>(_ :: motor_calls) b k. case mock_motor_activate b of (s, b) \<Rightarrow> Done (s, b, k)"
  "\<lambda>b k. case mock_motor_deactivate b of (s, b) \<Rightarrow> (s, b, k)"
  mock_motor_read
  "\<lambda>cmds b k. case mock_motor_write cmds b of (s, b) \<Rightarrow> Done (s, b, k)"
  for base
proof unfold_locales
  fix b :: MockMotor and k and sts :: "motion_state list" and period :: fp
  assume own: "mock_motor_owns base b k" and len: "length sts = mock_motor_width b"
  then have inv: "mock_motor_inv b" by (simp add: mock_motor_owns_def)
  show "\<exists>ok e sts' b'. mock_motor_read sts period b = Done ((ok, e), sts', b') \<and> mock_motor_owns base b' k \<and>
    mock_motor_width b' = mock_motor_width b \<and> True = True \<and> length sts' = mock_motor_width b"
  proof (cases "fisfinite period")
    case True
    from mock_motor_read_eq [OF inv True, of sts] inv own show ?thesis
      by (auto simp: mock_motor_inv_def mock_motor_owns_def mock_motor_width_def Let_def)
  next
    case False
    then show ?thesis using own len by (auto simp: mock_motor_read_def)
  qed
qed (auto simp: mock_motor_owns_def mock_motor_inv_def mock_motor_width_def mock_motor_activate_def
    mock_motor_deactivate_def mock_motor_write_def split: if_splits)

definition socketcan_motor_inv :: "SocketCanMotor \<Rightarrow> bool" where
  "socketcan_motor_inv b \<longleftrightarrow> length (sm_feedback b) = 128 \<and> (\<forall>n \<in> set (sm_node_ids b). n \<le> pxx_kMaxNodeId) \<and>
     length (sm_gear_ratios b) = length (sm_node_ids b) \<and>
     (sm_rx_joinable b \<longleftrightarrow> 0 \<le> sm_fd b) \<and> (sm_rx_running b \<longleftrightarrow> 0 \<le> sm_fd b)"

definition socketcan_motor_owns :: "int list \<Rightarrow> SocketCanMotor \<Rightarrow> kernel \<Rightarrow> bool" where
  "socketcan_motor_owns base b k \<longleftrightarrow> socketcan_motor_inv b \<and> owns base (sm_fd b) k"

definition socketcan_motor_stopped :: "SocketCanMotor \<Rightarrow> bool" where
  "socketcan_motor_stopped b \<longleftrightarrow> \<not> sm_rx_joinable b"

definition socketcan_motor_width :: "SocketCanMotor \<Rightarrow> nat" where
  "socketcan_motor_width b = length (sm_node_ids b)"

lemmas socketcan_motor_defs =
  socketcan_motor_inv_def socketcan_motor_owns_def socketcan_motor_stopped_def socketcan_motor_width_def

lemma pxx_send_all_frame:
  "live_fds (snd (pxx_send_all fd fs k)) = live_fds k \<and> write_ret (snd (pxx_send_all fd fs k)) = write_ret k"
proof (induction fs arbitrary: k)
  case (Cons f fs)
  obtain s k1 where "pxx_send fd f k = (s, k1)" by (cases "pxx_send fd f k")
  then show ?case using Cons [of k1] pxx_send_frame [of fd f k] by (auto split: prod.split)
qed simp

lemma pxx_send_all_ok:
  assumes "writes_ok k" "0 \<le> fd" "\<And>f. f \<in> set fs \<Longrightarrow> p_data_length f \<le> pxx_kMaxDataLength"
  shows "pxx_send_all fd fs k = ((True, None),
    k\<lparr>n_writes := n_writes k + length fs, wire := wire k @ map pxx_socket_frame fs\<rparr>)"
  using assms
proof (induction fs arbitrary: k)
  case (Cons f fs)
  have "writes_ok (k\<lparr>n_writes := Suc (n_writes k), wire := wire k @ [pxx_socket_frame f]\<rparr>)"
    using Cons.prems(1) by (simp add: writes_ok_def)
  from Cons.IH [OF this] Cons.prems show ?case by (simp add: pxx_send_ok)
qed simp

lemma pxx_close_owns: "owns base fd k \<Longrightarrow> pxx_close fd k = (fd', k') \<Longrightarrow> owns base fd' k' \<and> fd' < 0"
  using pxx_transport.close_owns [of base fd k] pxx_transport.close_closed [of fd k] by simp

lemma socketcan_motor_deactivate_law:
  assumes "socketcan_motor_owns base b k" "socketcan_motor_deactivate b k = (st, b', k')"
  shows "socketcan_motor_owns base b' k' \<and> socketcan_motor_width b' = socketcan_motor_width b \<and>
    socketcan_motor_stopped b'"
proof -
  obtain st1 k1 where r: "(if pxx_is_open (sm_fd b)
      then pxx_send_all (sm_fd b) (concat (map disable_frames (sm_node_ids b))) k
      else ((True, None), k)) = (st1, k1)" by fastforce
  have "live_fds k1 = live_fds k"
    using r pxx_send_all_frame [of "sm_fd b" "concat (map disable_frames (sm_node_ids b))" k]
    by (auto split: if_splits)
  then have o: "owns base (sm_fd b) k1" using assms(1) by (simp add: socketcan_motor_owns_def owns_def)
  obtain fd k2 where c: "pxx_close (sm_fd b) k1 = (fd, k2)" by fastforce
  have b': "b' = b\<lparr>sm_rx_running := False, sm_rx_joinable := False, sm_fd := fd\<rparr>" "k' = k2"
    using assms(2) unfolding socketcan_motor_deactivate_def r Let_def by (simp_all add: c)
  show ?thesis
    using pxx_close_owns [OF o c] assms(1) by (simp add: b' socketcan_motor_defs)
qed

lemma socketcan_motor_activate_law:
  assumes "socketcan_motor_owns base b k" "socketcan_motor_stopped b"
  shows "\<exists>ok e b' k'. socketcan_motor_activate c b k = Done ((ok, e), b', k') \<and>
    socketcan_motor_owns base b' k' \<and>
    socketcan_motor_width b' = socketcan_motor_width b \<and> (ok \<or> socketcan_motor_stopped b')"
proof -
  obtain ok e fd k1 where o: "pxx_open (mc_open c) (sm_can_interface b) (sm_fd b) k = ((ok, e), fd, k1)"
    by (metis surj_pair)
  have own: "owns base fd k1" and fd: "ok = (0 \<le> fd)"
    using pxx_transport.open_owns [OF _ o] pxx_transport.open_result [OF o] assms(1)
    by (auto simp: socketcan_motor_owns_def)
  show ?thesis
  proof (cases ok)
    case False
    then show ?thesis
      using o own fd assms by (auto simp: socketcan_motor_activate_def socketcan_motor_defs)
  next
    case True
    let ?b = "b\<lparr>sm_fd := fd, sm_feedback := map (\<lambda>_. zero_feedback) (sm_feedback b), sm_rx_running := True,
      sm_rx_joinable := True\<rparr>"
    let ?s = "\<lparr>me_backend = ?b, me_kernel = k1, me_slots = mc_slots c\<rparr>"
    obtain ok2 e2 s where cfg: "configure_nodes (sm_node_ids b) ?s = ((ok2, e2), s)" by (metis surj_pair)
    have q: "same_env ?s s"
      using quiet_configure_nodes [of "sm_node_ids b"] cfg by (simp add: quiet_def)
    then have os: "socketcan_motor_owns base (me_backend s) (me_kernel s)"
        "socketcan_motor_width (me_backend s) = socketcan_motor_width b"
      using own fd True assms by (auto simp: same_env_def same_link_def socketcan_motor_defs owns_def)
    have j: "\<not> sm_rx_joinable b" using assms(2) by (simp add: socketcan_motor_stopped_def)
    obtain st b' k' where d: "socketcan_motor_deactivate (me_backend s) (me_kernel s) = (st, b', k')"
      by (metis surj_pair)
    show ?thesis
      using o cfg True j os socketcan_motor_deactivate_law [OF os(1) d]
      by (cases ok2) (auto simp: socketcan_motor_activate_def Let_def d)
  qed
qed

lemma motor_read_joints_defined:
  assumes inv: "socketcan_motor_inv b" and i: "\<forall>i \<in> set is. i < length (sm_node_ids b)"
    and len: "length sts = length (sm_node_ids b)"
  shows "\<exists>ok e sts'. motor_read_joints is b sts = Done ((ok, e), sts') \<and> length sts' = length sts"
  using i len
proof (induction "is" arbitrary: sts)
  case (Cons i "is")
  have i: "i < length (sm_node_ids b)" using Cons.prems by simp
  then have "sm_node_ids b ! i \<le> pxx_kMaxNodeId"
    using inv nth_mem [OF i] by (simp add: socketcan_motor_inv_def)
  then have "unat (sm_node_ids b ! i) < length (sm_feedback b)"
    using inv by (simp add: socketcan_motor_inv_def pxx_kMaxNodeId_def word_le_nat_alt)
  then show ?case
    using Cons inv i by (auto simp: socketcan_motor_inv_def)
qed auto

lemma socketcan_motor_read_law:
  assumes "socketcan_motor_owns base b k" "length sts = socketcan_motor_width b"
  shows "\<exists>ok e sts' b'. socketcan_motor_read sts period b = Done ((ok, e), sts', b') \<and>
    socketcan_motor_owns base b' k \<and> socketcan_motor_width b' = socketcan_motor_width b \<and>
    socketcan_motor_stopped b' = socketcan_motor_stopped b \<and> length sts' = socketcan_motor_width b"
proof -
  let ?n = "length (sm_node_ids b)"
  obtain ok e sts' where "motor_read_joints [0..<?n] b (vec_resize ?n zero_state sts) = Done ((ok, e), sts')"
    "length sts' = ?n"
    using motor_read_joints_defined [of b "[0..<?n]" "vec_resize ?n zero_state sts"] assms(1)
    by (auto simp: socketcan_motor_owns_def)
  then show ?thesis using assms by (auto simp: socketcan_motor_read_def socketcan_motor_width_def)
qed

lemma target_frames_eq:
  assumes "length cmds = n" "length (sm_gear_ratios b) = n" "length (sm_node_ids b) = n" "\<forall>i \<in> set is. i < n"
  shows "target_frames lr is cmds b = Done (List.map_filter (\<lambda>i.
    if fisnan (cmds ! i) then None
    else Some (MakeTargetPositionFrame (sm_node_ids b ! i)
      (RadToCounts lr (fmul binary64 (cmds ! i) (sm_gear_ratios b ! i))))) is)"
  using assms(4) by (induction "is") (use assms(1-3) in \<open>simp_all add: map_filter_simps\<close>)

lemma socketcan_motor_write_law:
  assumes "socketcan_motor_owns base b k"
  shows "\<exists>ok e b' k'. socketcan_motor_write lr cmds b k = Done ((ok, e), b', k') \<and>
    socketcan_motor_owns base b' k' \<and> socketcan_motor_width b' = socketcan_motor_width b \<and>
    socketcan_motor_stopped b' = socketcan_motor_stopped b \<and> (ok \<longrightarrow> length cmds = socketcan_motor_width b)"
proof (cases "pxx_is_open (sm_fd b) \<and> length cmds = length (sm_node_ids b)")
  case True
  then obtain fs where fs: "target_frames lr [0..<length (sm_node_ids b)] cmds b = Done fs"
    using target_frames_eq [of cmds "length (sm_node_ids b)" b] assms
    by (auto simp: socketcan_motor_owns_def socketcan_motor_inv_def)
  obtain ok e k1 where snd: "pxx_send_all (sm_fd b) (fs @ [MakeSyncFrame]) k = ((ok, e), k1)" by (metis surj_pair)
  have "live_fds k1 = live_fds k" using pxx_send_all_frame [of "sm_fd b" "fs @ [MakeSyncFrame]" k] snd by simp
  then show ?thesis
    using True assms by (simp add: socketcan_motor_write_def fs snd socketcan_motor_owns_def owns_def
        socketcan_motor_width_def)
qed (use assms in \<open>auto simp: socketcan_motor_write_def\<close>)

interpretation socketcan_motor: joint_backend "socketcan_motor_owns base" socketcan_motor_width
  socketcan_motor_stopped socketcan_motor_activate socketcan_motor_deactivate socketcan_motor_read
  "socketcan_motor_write lr"
  for base lr
  by unfold_locales
    (fact socketcan_motor_activate_law socketcan_motor_deactivate_law socketcan_motor_read_law
      socketcan_motor_write_law)+

end
