(* ===== verification/Pxx_Hardware.thy ===== *)
theory Pxx_Hardware
  imports Pxx_Backend Plugin_Lifecycle
begin

section \<open>The arm plugin: \<open>pxx/src/pxx.cpp\<close>\<close>

text \<open>
  \<open>PxxSystemHardware\<close>: its members, the factory, every lifecycle callback, \<open>read\<close> and \<open>write\<close>, its
  invariant, and its interpretation as a plugin under a controller manager. A position command is
  NaN until a controller stores one.
\<close>

subsection \<open>The backend behind \<open>std::unique\_ptr<MotorBackend>\<close>\<close>

datatype MotorBackend = Mock_Motor MockMotor | SocketCan_Motor SocketCanMotor

record MotorBackendConfig =
  mbc_endpoint :: string
  mbc_node_ids :: "u8 list"
  mbc_gear_ratios :: "fp list"

definition CreateMotorBackend :: "MotorBackendConfig \<Rightarrow> MotorBackend" where
  "CreateMotorBackend config =
     (if mbc_endpoint config = ''mock'' \<or> mbc_endpoint config = ''none''
      then Mock_Motor (new_MockMotor (length (mbc_node_ids config)) (mbc_endpoint config))
      else SocketCan_Motor
        (new_SocketCanMotor (mbc_endpoint config) (mbc_node_ids config) (mbc_gear_ratios config)))"

fun motor_activate :: "motor_calls \<Rightarrow> MotorBackend \<Rightarrow> kernel \<Rightarrow> (status \<times> MotorBackend \<times> kernel) outcome" where
  "motor_activate c (Mock_Motor b) k =
     (case mock_motor_activate b of (st, b) \<Rightarrow> Done (st, Mock_Motor b, k))"
| "motor_activate c (SocketCan_Motor b) k =
     and_then (socketcan_motor_activate c b k) (\<lambda>(st, b, k). Done (st, SocketCan_Motor b, k))"

fun motor_deactivate :: "MotorBackend \<Rightarrow> kernel \<Rightarrow> status \<times> MotorBackend \<times> kernel" where
  "motor_deactivate (Mock_Motor b) k =
     (case mock_motor_deactivate b of (st, b) \<Rightarrow> (st, Mock_Motor b, k))"
| "motor_deactivate (SocketCan_Motor b) k =
     (case socketcan_motor_deactivate b k of (st, b, k) \<Rightarrow> (st, SocketCan_Motor b, k))"

fun motor_read ::
  "motion_state list \<Rightarrow> fp \<Rightarrow> MotorBackend \<Rightarrow> (status \<times> motion_state list \<times> MotorBackend) outcome" where
  "motor_read sts period (Mock_Motor b) =
     and_then (mock_motor_read sts period b) (\<lambda>(st, sts, b). Done (st, sts, Mock_Motor b))"
| "motor_read sts period (SocketCan_Motor b) =
     and_then (socketcan_motor_read sts period b) (\<lambda>(st, sts, b). Done (st, sts, SocketCan_Motor b))"

fun motor_write :: "(fp \<Rightarrow> int) \<Rightarrow> fp list \<Rightarrow> MotorBackend \<Rightarrow> kernel \<Rightarrow> (status \<times> MotorBackend \<times> kernel) outcome" where
  "motor_write lr cmds (Mock_Motor b) k =
     (case mock_motor_write cmds b of (st, b) \<Rightarrow> Done (st, Mock_Motor b, k))"
| "motor_write lr cmds (SocketCan_Motor b) k =
     and_then (socketcan_motor_write lr cmds b k) (\<lambda>(st, b, k). Done (st, SocketCan_Motor b, k))"

fun motor_destroy :: "MotorBackend \<Rightarrow> kernel \<Rightarrow> kernel outcome" where
  "motor_destroy (Mock_Motor b) k = Done k"
| "motor_destroy (SocketCan_Motor b) k = destroy_SocketCanMotor b k"

fun motor_rx :: "rx_calls \<Rightarrow> MotorBackend \<Rightarrow> MotorBackend" where
  "motor_rx c (Mock_Motor b) = Mock_Motor b"
| "motor_rx c (SocketCan_Motor b) = SocketCan_Motor (motor_rx_turn c b)"

fun motor_owns :: "int list \<Rightarrow> MotorBackend \<Rightarrow> kernel \<Rightarrow> bool" where
  "motor_owns base (Mock_Motor b) k = mock_motor_owns base b k"
| "motor_owns base (SocketCan_Motor b) k = socketcan_motor_owns base b k"

fun motor_width :: "MotorBackend \<Rightarrow> nat" where
  "motor_width (Mock_Motor b) = mock_motor_width b"
| "motor_width (SocketCan_Motor b) = socketcan_motor_width b"

fun motor_stopped :: "MotorBackend \<Rightarrow> bool" where
  "motor_stopped (Mock_Motor b) = True"
| "motor_stopped (SocketCan_Motor b) = socketcan_motor_stopped b"

text \<open>The contract passes through the virtual calls: each law is the law of the backend called.\<close>

interpretation motor: joint_backend "motor_owns base" motor_width motor_stopped motor_activate
  motor_deactivate motor_read "motor_write lr"
  for base lr
proof unfold_locales
  fix b :: MotorBackend and env k
  assume "motor_owns base b k" "motor_stopped b"
  then show "\<exists>ok e b' k'. motor_activate env b k = Done ((ok, e), b', k') \<and> motor_owns base b' k' \<and>
    motor_width b' = motor_width b \<and> (ok \<or> motor_stopped b')"
    using mock_motor.activate_law [of base _ k] socketcan_motor.activate_law [of base _ k env]
    by (cases b) (fastforce split: prod.splits)+
next
  fix b :: MotorBackend and k st b' k'
  assume "motor_owns base b k" "motor_deactivate b k = (st, b', k')"
  then show "motor_owns base b' k' \<and> motor_width b' = motor_width b \<and> motor_stopped b'"
    using mock_motor.deactivate_law [of base _ k] socketcan_motor.deactivate_law [of base _ k]
    by (cases b) (fastforce split: prod.splits)+
next
  fix b :: MotorBackend and k and sts :: "motion_state list" and period :: fp
  assume "motor_owns base b k" "length sts = motor_width b"
  then show "\<exists>ok e sts' b'. motor_read sts period b = Done ((ok, e), sts', b') \<and> motor_owns base b' k \<and>
    motor_width b' = motor_width b \<and> motor_stopped b' = motor_stopped b \<and> length sts' = motor_width b"
    using mock_motor.read_law [of base _ k sts period] socketcan_motor.read_law [of base _ k sts period]
    by (cases b) fastforce+
next
  fix b :: MotorBackend and cmds k
  assume "motor_owns base b k"
  then show "\<exists>ok e b' k'. motor_write lr cmds b k = Done ((ok, e), b', k') \<and> motor_owns base b' k' \<and>
    motor_width b' = motor_width b \<and> motor_stopped b' = motor_stopped b \<and> (ok \<longrightarrow> length cmds = motor_width b)"
    using mock_motor.write_law [of base _ k cmds] socketcan_motor.write_law [of base _ k lr cmds]
    by (cases b) (fastforce split: prod.splits)+
qed

subsection \<open>The plugin's members and callbacks\<close>

record PxxSystemHardware =
  px_joint_names :: "string list"
  px_node_ids :: "u8 list"
  px_gear_ratios :: "fp list"
  px_hw_positions :: "fp list"
  px_hw_velocities :: "fp list"
  px_hw_commands :: "fp list"
  px_backend_states :: "motion_state list"
  px_backend :: "MotorBackend option"

definition new_PxxSystemHardware :: PxxSystemHardware where
  "new_PxxSystemHardware = \<lparr>px_joint_names = [], px_node_ids = [], px_gear_ratios = [],
     px_hw_positions = [], px_hw_velocities = [], px_hw_commands = [], px_backend_states = [],
     px_backend = None\<rparr>"

fun pxx_init_joints ::
  "joint_info list \<Rightarrow> PxxSystemHardware \<Rightarrow> (callback_return \<times> PxxSystemHardware) outcome" where
  "pxx_init_joints [] h = Done (CB_SUCCESS, h)"
| "pxx_init_joints (joint # joints) h =
     (if length (ji_command_interfaces joint) \<noteq> 1 \<or> ji_command_interfaces joint ! 0 \<noteq> HW_IF_POSITION
      then Done (CB_ERROR, h)
      else let
        has_pos = list_ex (\<lambda>si. si = HW_IF_POSITION) (ji_state_interfaces joint);
        has_vel = list_ex (\<lambda>si. si = HW_IF_VELOCITY) (ji_state_interfaces joint)
      in if \<not> has_pos \<or> \<not> has_vel then Done (CB_ERROR, h)
      else case ji_parameters joint ''node_id'' of
        None \<Rightarrow> Done (CB_ERROR, h)
      | Some text \<Rightarrow> and_then (stoi text) (\<lambda>nid.
          if nid < uint pxx_kMinNodeId \<or> nid > uint pxx_kMaxNodeId then Done (CB_ERROR, h)
          else and_then
            (case ji_parameters joint ''gear_ratio'' of None \<Rightarrow> Done (dlit 1) | Some t \<Rightarrow> stod t)
            (\<lambda>gear_ratio.
              if feq gear_ratio fzero \<or> \<not> fisfinite gear_ratio then Done (CB_ERROR, h)
              else pxx_init_joints joints (h\<lparr>
                px_joint_names := px_joint_names h @ [ji_name joint],
                px_node_ids := px_node_ids h @ [word_of_int nid],
                px_gear_ratios := px_gear_ratios h @ [gear_ratio]\<rparr>))))"

definition pxx_on_init ::
  "bool \<Rightarrow> hardware_info \<Rightarrow> PxxSystemHardware \<Rightarrow> (callback_return \<times> PxxSystemHardware) outcome" where
  "pxx_on_init base_ok info h =
     (if \<not> base_ok then Done (CB_ERROR, h)
      else let
        connection = (case hi_parameters info ''can_interface'' of None \<Rightarrow> ''can0'' | Some c \<Rightarrow> c);
        n = length (hi_joints info)
      in and_then (pxx_init_joints (hi_joints info) h) (\<lambda>(r, h).
        if r = CB_ERROR then Done (CB_ERROR, h)
        else Done (CB_SUCCESS, h\<lparr>
          px_hw_positions := replicate n fzero,
          px_hw_velocities := replicate n fzero,
          px_hw_commands := replicate n quiet_NaN,
          px_backend_states := replicate n zero_state,
          px_backend := Some (CreateMotorBackend \<lparr>mbc_endpoint = connection,
            mbc_node_ids = px_node_ids h, mbc_gear_ratios = px_gear_ratios h\<rparr>)\<rparr>)))"

definition pxx_export_state_interfaces :: "PxxSystemHardware \<Rightarrow> interface list" where
  "pxx_export_state_interfaces h = concat (map (\<lambda>i.
     [(px_joint_names h ! i, HW_IF_POSITION, Hw_Positions i),
      (px_joint_names h ! i, HW_IF_VELOCITY, Hw_Velocities i)]) [0..<length (px_joint_names h)])"

definition pxx_export_command_interfaces :: "PxxSystemHardware \<Rightarrow> interface list" where
  "pxx_export_command_interfaces h = map (\<lambda>i.
     (px_joint_names h ! i, HW_IF_POSITION, Hw_Commands i)) [0..<length (px_joint_names h)]"

text \<open>A null \<open>backend_\<close> is dereferenced: undefined behaviour.\<close>

definition pxx_on_activate :: "motor_calls \<Rightarrow> PxxSystemHardware \<Rightarrow> kernel \<Rightarrow>
    (callback_return \<times> PxxSystemHardware \<times> kernel) outcome" where
  "pxx_on_activate c h k = (case px_backend h of None \<Rightarrow> Undefined | Some b \<Rightarrow>
     and_then (motor_activate c b k) (\<lambda>((ok, _), b, k). let h = h\<lparr>px_backend := Some b\<rparr> in
       if \<not> ok then Done (CB_ERROR, h, k)
       else Done (CB_SUCCESS, h\<lparr>
         px_hw_commands := map (\<lambda>_. quiet_NaN) (px_hw_commands h),
         px_hw_velocities := map (\<lambda>_. fzero) (px_hw_velocities h)\<rparr>, k)))"

definition pxx_on_deactivate :: "PxxSystemHardware \<Rightarrow> kernel \<Rightarrow>
    (callback_return \<times> PxxSystemHardware \<times> kernel) outcome" where
  "pxx_on_deactivate h k = (case px_backend h of None \<Rightarrow> Undefined | Some b \<Rightarrow>
     (case motor_deactivate b k of (_, b, k) \<Rightarrow> Done (CB_SUCCESS, h\<lparr>
       px_backend := Some b,
       px_hw_commands := map (\<lambda>_. quiet_NaN) (px_hw_commands h),
       px_hw_velocities := map (\<lambda>_. fzero) (px_hw_velocities h)\<rparr>, k)))"

definition pxx_on_cleanup :: "PxxSystemHardware \<Rightarrow> kernel \<Rightarrow>
    (callback_return \<times> PxxSystemHardware \<times> kernel) outcome" where
  "pxx_on_cleanup h k = pxx_on_deactivate h k"

definition pxx_on_shutdown :: "PxxSystemHardware \<Rightarrow> kernel \<Rightarrow>
    (callback_return \<times> PxxSystemHardware \<times> kernel) outcome" where
  "pxx_on_shutdown h k = pxx_on_deactivate h k"

text \<open>Destroying the plugin destroys the backend it holds.\<close>

definition destroy_PxxSystemHardware :: "PxxSystemHardware \<Rightarrow> kernel \<Rightarrow> kernel outcome" where
  "destroy_PxxSystemHardware h k = (case px_backend h of None \<Rightarrow> Done k | Some b \<Rightarrow> motor_destroy b k)"

definition pxx_read :: "fp \<Rightarrow> PxxSystemHardware \<Rightarrow> (return_type \<times> PxxSystemHardware) outcome" where
  "pxx_read period_seconds h = (case px_backend h of None \<Rightarrow> Undefined | Some b \<Rightarrow>
     and_then (motor_read (px_backend_states h) period_seconds b) (\<lambda>((ok, _), sts, b).
       let h = h\<lparr>px_backend_states := sts, px_backend := Some b\<rparr> in
       if \<not> ok then Done (RT_ERROR, h)
       else and_then (copy_states [0..<length (px_joint_names h)] sts (px_hw_positions h, px_hw_velocities h))
         (\<lambda>(ps, vs). Done (RT_OK, h\<lparr>px_hw_positions := ps, px_hw_velocities := vs\<rparr>))))"

definition pxx_write :: "(fp \<Rightarrow> int) \<Rightarrow> PxxSystemHardware \<Rightarrow> kernel \<Rightarrow>
    (return_type \<times> PxxSystemHardware \<times> kernel) outcome" where
  "pxx_write lr h k = (case px_backend h of None \<Rightarrow> Undefined | Some b \<Rightarrow>
     and_then (motor_write lr (px_hw_commands h) b k) (\<lambda>((ok, _), b, k).
       Done (if ok then RT_OK else RT_ERROR, h\<lparr>px_backend := Some b\<rparr>, k)))"

subsection \<open>Initialisation\<close>

text \<open>What \<open>on_init\<close> accepts of one joint.\<close>

definition pxx_joint_ok :: "joint_info \<Rightarrow> u8 \<Rightarrow> fp \<Rightarrow> bool" where
  "pxx_joint_ok j n g \<longleftrightarrow> ji_command_interfaces j = [HW_IF_POSITION] \<and>
     {HW_IF_POSITION, HW_IF_VELOCITY} \<subseteq> set (ji_state_interfaces j) \<and>
     (\<exists>t. ji_parameters j ''node_id'' = Some t \<and> stoi t = Done (uint n)) \<and>
     pxx_kMinNodeId \<le> n \<and> n \<le> pxx_kMaxNodeId \<and>
     (case ji_parameters j ''gear_ratio'' of None \<Rightarrow> Done (dlit 1) | Some t \<Rightarrow> stod t) = Done g \<and>
     \<not> feq g fzero \<and> fisfinite g"

lemma pxx_init_joints_success:
  assumes "pxx_init_joints js h = Done (CB_SUCCESS, h')"
  shows "\<exists>ids gs. h' = h\<lparr>px_joint_names := px_joint_names h @ map ji_name js,
      px_node_ids := px_node_ids h @ ids, px_gear_ratios := px_gear_ratios h @ gs\<rparr> \<and>
    length ids = length js \<and> length gs = length js \<and>
    (\<forall>i < length js. pxx_joint_ok (js ! i) (ids ! i) (gs ! i))"
  using assms
proof (induction js h rule: pxx_init_joints.induct)
  case (1 h)
  then show ?case by (auto intro!: exI [of _ "[]"])
next
  case (2 joint joints h)
  note IH = 2(1)
  let ?gr = "case ji_parameters joint ''gear_ratio'' of None \<Rightarrow> Done (dlit 1) | Some t \<Rightarrow> stod t"
  obtain t nid g where c: "ji_command_interfaces joint = [HW_IF_POSITION]"
    "{HW_IF_POSITION, HW_IF_VELOCITY} \<subseteq> set (ji_state_interfaces joint)"
    and t: "ji_parameters joint ''node_id'' = Some t" "stoi t = Done nid"
    and r: "uint pxx_kMinNodeId \<le> nid" "nid \<le> uint pxx_kMaxNodeId"
    and g: "?gr = Done g" "\<not> feq g fzero" "fisfinite g"
    and rest: "pxx_init_joints joints (h\<lparr>px_joint_names := px_joint_names h @ [ji_name joint],
      px_node_ids := px_node_ids h @ [word_of_int nid], px_gear_ratios := px_gear_ratios h @ [g]\<rparr>) =
      Done (CB_SUCCESS, h')"
    using 2(2) by (simp add: and_then_Done_iff list_ex_iff length_Suc_conv Let_def
        split: if_splits option.splits) (auto split: if_splits option.splits)
  have small: "uint (word_of_int nid :: u8) = nid"
    using r by (simp add: pxx_kMaxNodeId_def pxx_kMinNodeId_def uint_word_of_int)
  then have ok: "pxx_joint_ok joint (word_of_int nid) g"
    using c t r g by (auto simp: pxx_joint_ok_def word_le_def)
  obtain ids gs where h': "h' = h\<lparr>px_joint_names := px_joint_names h @ [ji_name joint] @ map ji_name joints,
      px_node_ids := px_node_ids h @ [word_of_int nid] @ ids, px_gear_ratios := px_gear_ratios h @ [g] @ gs\<rparr>"
    "length ids = length joints" "length gs = length joints"
    "\<forall>i < length joints. pxx_joint_ok (joints ! i) (ids ! i) (gs ! i)"
    using IH [OF _ refl refl _ t(1) _ _ rest] c r g by (auto simp: list_ex_iff)
  then show ?case
    using ok by (intro exI [of _ "word_of_int nid # ids"] exI [of _ "g # gs"]) (auto simp: less_Suc_eq_0_disj)
qed

text \<open>Everything \<open>on_init\<close> accepts and leaves behind.\<close>

lemma pxx_on_init_success:
  assumes "pxx_on_init base_ok info new_PxxSystemHardware = Done (CB_SUCCESS, h)"
  obtains ids gs where "length ids = length (hi_joints info)" "length gs = length (hi_joints info)"
    "\<forall>i < length (hi_joints info). pxx_joint_ok (hi_joints info ! i) (ids ! i) (gs ! i)"
    "h = \<lparr>px_joint_names = map ji_name (hi_joints info), px_node_ids = ids, px_gear_ratios = gs,
      px_hw_positions = replicate (length (hi_joints info)) fzero,
      px_hw_velocities = replicate (length (hi_joints info)) fzero,
      px_hw_commands = replicate (length (hi_joints info)) quiet_NaN,
      px_backend_states = replicate (length (hi_joints info)) zero_state,
      px_backend = Some (CreateMotorBackend \<lparr>
        mbc_endpoint = (case hi_parameters info ''can_interface'' of None \<Rightarrow> ''can0'' | Some c \<Rightarrow> c),
        mbc_node_ids = ids, mbc_gear_ratios = gs\<rparr>)\<rparr>"
proof -
  have base: "base_ok" using assms by (cases base_ok) (simp_all add: pxx_on_init_def)
  obtain r h1 where js: "pxx_init_joints (hi_joints info) new_PxxSystemHardware = Done (r, h1)"
    using assms by (cases "pxx_init_joints (hi_joints info) new_PxxSystemHardware")
      (auto simp: pxx_on_init_def Let_def base)
  have r: "r = CB_SUCCESS"
    using assms by (cases r) (simp_all add: pxx_on_init_def Let_def base js)
  have h: "h = h1\<lparr>px_hw_positions := replicate (length (hi_joints info)) fzero,
      px_hw_velocities := replicate (length (hi_joints info)) fzero,
      px_hw_commands := replicate (length (hi_joints info)) quiet_NaN,
      px_backend_states := replicate (length (hi_joints info)) zero_state,
      px_backend := Some (CreateMotorBackend \<lparr>
        mbc_endpoint = (case hi_parameters info ''can_interface'' of None \<Rightarrow> ''can0'' | Some c \<Rightarrow> c),
        mbc_node_ids = px_node_ids h1, mbc_gear_ratios = px_gear_ratios h1\<rparr>)\<rparr>"
    using assms by (simp add: pxx_on_init_def Let_def base js r)
  show ?thesis
    using pxx_init_joints_success [OF js [unfolded r]]
    by (auto simp: h new_PxxSystemHardware_def intro: that)
qed

subsection \<open>The plugin's invariant\<close>

definition pxx_owns :: "int list \<Rightarrow> PxxSystemHardware \<Rightarrow> kernel \<Rightarrow> bool" where
  "pxx_owns base h k \<longleftrightarrow> (\<exists>b. px_backend h = Some b \<and> motor_owns base b k \<and>
     motor_width b = length (px_joint_names h) \<and>
     length (px_hw_positions h) = length (px_joint_names h) \<and>
     length (px_hw_velocities h) = length (px_joint_names h) \<and>
     length (px_hw_commands h) = length (px_joint_names h) \<and>
     length (px_backend_states h) = length (px_joint_names h))"

definition pxx_stopped :: "PxxSystemHardware \<Rightarrow> bool" where
  "pxx_stopped h \<longleftrightarrow> (case px_backend h of None \<Rightarrow> False | Some b \<Rightarrow> motor_stopped b)"

lemma pxx_ownsE:
  assumes "pxx_owns base h k"
  obtains b where "px_backend h = Some b" "motor_owns base b k" "motor_width b = length (px_joint_names h)"
    "length (px_hw_positions h) = length (px_joint_names h)"
    "length (px_hw_velocities h) = length (px_joint_names h)"
    "length (px_hw_commands h) = length (px_joint_names h)"
    "length (px_backend_states h) = length (px_joint_names h)"
  using assms by (auto simp: pxx_owns_def)

lemma new_MotorBackend:
  assumes "\<forall>n \<in> set (mbc_node_ids c). n \<le> pxx_kMaxNodeId"
    "length (mbc_gear_ratios c) = length (mbc_node_ids c)"
  shows "motor_owns (live_fds k) (CreateMotorBackend c) k"
    "motor_width (CreateMotorBackend c) = length (mbc_node_ids c)" "motor_stopped (CreateMotorBackend c)"
  using assms
  by (simp_all add: CreateMotorBackend_def mock_motor_owns_def mock_motor_inv_def new_MockMotor_def
      mock_motor_width_def socketcan_motor_defs new_SocketCanMotor_def owns_def pxx_kMaxNodeId_def)

lemma pxx_ids_ok:
  "\<forall>i < length js. pxx_joint_ok (js ! i) (ids ! i) (gs ! i) \<Longrightarrow> length ids = length js \<Longrightarrow>
   \<forall>n \<in> set ids. n \<le> pxx_kMaxNodeId"
  by (auto simp: in_set_conv_nth pxx_joint_ok_def)

lemma pxx_on_init_owns:
  assumes "pxx_on_init base_ok info new_PxxSystemHardware = Done (CB_SUCCESS, h)"
  shows "pxx_owns (live_fds k) h k" "pxx_stopped h"
proof -
  from assms show "pxx_owns (live_fds k) h k"
    by (rule pxx_on_init_success) (frule (1) pxx_ids_ok, simp add: pxx_owns_def new_MotorBackend)
  from assms show "pxx_stopped h"
    by (rule pxx_on_init_success) (frule (1) pxx_ids_ok, simp add: pxx_stopped_def new_MotorBackend)
qed

lemma pxx_stopped_fds: "pxx_owns base h k \<Longrightarrow> pxx_stopped h \<Longrightarrow> live_fds k = base"
proof (elim pxx_ownsE)
  fix b
  assume "pxx_stopped h" "px_backend h = Some b" "motor_owns base b k"
  then show ?thesis
    by (cases b) (auto simp: pxx_stopped_def mock_motor_owns_def socketcan_motor_defs owns_def)
qed

lemma motor_destroy_releases: "motor_owns base b k \<Longrightarrow> \<exists>k'. motor_destroy b k = Done k' \<and> live_fds k' = base"
proof (cases b)
  case (SocketCan_Motor d)
  assume "motor_owns base b k"
  obtain st b' k' where d: "socketcan_motor_deactivate d k = (st, b', k')" by (metis surj_pair)
  have "socketcan_motor_owns base b' k'" "socketcan_motor_stopped b'"
    using socketcan_motor.deactivate_law [OF _ d] \<open>motor_owns base b k\<close> SocketCan_Motor by auto
  then show ?thesis
    by (auto simp: SocketCan_Motor destroy_SocketCanMotor_def d socketcan_motor_defs owns_def pxx_close_def)
qed (simp add: mock_motor_owns_def)

lemma pxx_destroy_releases:
  "pxx_owns base h k \<Longrightarrow> \<exists>k'. destroy_PxxSystemHardware h k = Done k' \<and> live_fds k' = base"
  by (elim pxx_ownsE) (simp add: destroy_PxxSystemHardware_def motor_destroy_releases)

subsection \<open>The plugin under its controller manager\<close>

definition pxx_command :: "nat \<Rightarrow> fp \<Rightarrow> PxxSystemHardware \<Rightarrow> PxxSystemHardware" where
  "pxx_command i c h = h\<lparr>px_hw_commands := (px_hw_commands h)[i := c]\<rparr>"

definition pxx_rx :: "rx_calls \<Rightarrow> PxxSystemHardware \<Rightarrow> PxxSystemHardware" where
  "pxx_rx c h = h\<lparr>px_backend := map_option (motor_rx c) (px_backend h)\<rparr>"

definition pxx_callbacks :: "(fp \<Rightarrow> int) \<Rightarrow> (PxxSystemHardware, motor_calls, rx_calls) callbacks" where
  "pxx_callbacks lr = \<lparr>cb_activate = pxx_on_activate, cb_deactivate = pxx_on_deactivate,
     cb_cleanup = pxx_on_cleanup, cb_shutdown = pxx_on_shutdown, cb_read = pxx_read,
     cb_write = pxx_write lr, cb_command = pxx_command, cb_rx = pxx_rx\<rparr>"

lemma motor_rx_keeps:
  "motor_owns base b k \<Longrightarrow> motor_owns base (motor_rx c b) k"
  "motor_width (motor_rx c b) = motor_width b" "motor_stopped (motor_rx c b) = motor_stopped b"
proof -
  have "same_link x (motor_rx_turn c x)" for x by simp
  then show "motor_owns base b k \<Longrightarrow> motor_owns base (motor_rx c b) k"
    "motor_width (motor_rx c b) = motor_width b" "motor_stopped (motor_rx c b) = motor_stopped b"
    unfolding same_link_def by (cases b; simp add: socketcan_motor_defs)+
qed

interpretation pxx_plugin: hardware_plugin "pxx_callbacks lr" "pxx_owns base" pxx_stopped
  for base lr
proof unfold_locales
  fix h k and c :: motor_calls
  assume "pxx_owns base h k" "pxx_stopped h"
  then obtain b where b: "px_backend h = Some b" "motor_owns base b k" "motor_stopped b"
      "motor_width b = length (px_joint_names h)"
      "length (px_hw_positions h) = length (px_joint_names h)"
      "length (px_hw_velocities h) = length (px_joint_names h)"
      "length (px_hw_commands h) = length (px_joint_names h)"
      "length (px_backend_states h) = length (px_joint_names h)"
    by (auto simp: pxx_stopped_def elim: pxx_ownsE)
  with motor.activate_law [OF b(2,3), of c] show "\<exists>r h' k'. cb_activate (pxx_callbacks lr) c h k = Done (r, h', k') \<and>
    pxx_owns base h' k' \<and> (r = CB_SUCCESS \<or> pxx_stopped h')"
    by (auto simp: pxx_callbacks_def pxx_on_activate_def pxx_owns_def pxx_stopped_def Let_def)
next
  fix h k
  assume "pxx_owns base h k"
  then obtain b where b: "px_backend h = Some b" "motor_owns base b k"
      "motor_width b = length (px_joint_names h)"
      "length (px_hw_positions h) = length (px_joint_names h)"
      "length (px_hw_velocities h) = length (px_joint_names h)"
      "length (px_hw_commands h) = length (px_joint_names h)"
      "length (px_backend_states h) = length (px_joint_names h)"
    by (auto elim: pxx_ownsE)
  obtain st b' k' where d: "motor_deactivate b k = (st, b', k')" by (metis surj_pair)
  from motor.deactivate_law [OF b(2) d] b show "\<exists>h' k'. cb_deactivate (pxx_callbacks lr) h k = Done (CB_SUCCESS, h', k') \<and>
    pxx_owns base h' k' \<and> pxx_stopped h'"
    by (auto simp: pxx_callbacks_def pxx_on_deactivate_def pxx_owns_def pxx_stopped_def d)
next
  fix h k and period :: fp
  assume "pxx_owns base h k"
  then obtain b where b: "px_backend h = Some b" "motor_owns base b k"
      "motor_width b = length (px_joint_names h)"
      "length (px_hw_positions h) = motor_width b"
      "length (px_hw_velocities h) = motor_width b"
      "length (px_hw_commands h) = motor_width b"
      "length (px_backend_states h) = motor_width b"
    by (auto elim: pxx_ownsE)
  obtain ok e sts' b' where r: "motor_read (px_backend_states h) period b = Done ((ok, e), sts', b')"
    "motor_owns base b' k" "motor_width b' = motor_width b" "motor_stopped b' = motor_stopped b"
    "length sts' = motor_width b"
    "copy_states [0..<motor_width b] sts' (px_hw_positions h, px_hw_velocities h) =
      Done (map position_rad sts', map velocity_rad_s sts')"
    using motor.read_then_copy [OF b(2,7,4,5)] by blast
  then show "\<exists>r h'. cb_read (pxx_callbacks lr) period h = Done (r, h') \<and> pxx_owns base h' k \<and>
    pxx_stopped h' = pxx_stopped h"
    using b by (auto simp: pxx_callbacks_def pxx_read_def pxx_owns_def pxx_stopped_def Let_def)
next
  fix h k
  assume "pxx_owns base h k"
  then obtain b where b: "px_backend h = Some b" "motor_owns base b k"
      "motor_width b = length (px_joint_names h)"
      "length (px_hw_positions h) = length (px_joint_names h)"
      "length (px_hw_velocities h) = length (px_joint_names h)"
      "length (px_hw_commands h) = length (px_joint_names h)"
      "length (px_backend_states h) = length (px_joint_names h)"
    by (auto elim: pxx_ownsE)
  from motor.write_law [OF b(2), of lr "px_hw_commands h"] b
  show "\<exists>r h' k'. cb_write (pxx_callbacks lr) h k = Done (r, h', k') \<and> pxx_owns base h' k' \<and>
    pxx_stopped h' = pxx_stopped h"
    by (auto simp: pxx_callbacks_def pxx_write_def pxx_owns_def pxx_stopped_def)
next
  fix h k i and v :: fp
  assume "pxx_owns base h k"
  then show "pxx_owns base (cb_command (pxx_callbacks lr) i v h) k \<and>
    pxx_stopped (cb_command (pxx_callbacks lr) i v h) = pxx_stopped h"
    by (auto simp: pxx_callbacks_def pxx_command_def pxx_owns_def pxx_stopped_def)
next
  fix h k and x :: rx_calls
  assume "pxx_owns base h k"
  then show "pxx_owns base (cb_rx (pxx_callbacks lr) x h) k \<and>
    pxx_stopped (cb_rx (pxx_callbacks lr) x h) = pxx_stopped h"
    by (auto simp: pxx_callbacks_def pxx_rx_def pxx_owns_def pxx_stopped_def motor_rx_keeps)
qed (simp_all add: pxx_callbacks_def pxx_on_cleanup_def pxx_on_shutdown_def fun_eq_iff)

end
