(* ===== verification/Arm_Bus.thy ===== *)
theory Arm_Bus
  imports Bus_Speaker Pxx_Hardware
begin

section \<open>The arm on a bus\<close>

text \<open>
  What the arm plugin can ever send, which frames it does not hear, also while an SDO transaction
  waits, and the interpretation of \<open>bus\_speaker\<close> on its callbacks.
\<close>

subsection \<open>The arm speaks\<close>

definition arm_ids :: "u8 set \<Rightarrow> u32 set" where
  "arm_ids ns = {cob_kNmt, cob_kSync} \<union> (\<lambda>n. cob_kRpdo1 + ucast n) ` ns \<union> (\<lambda>n. cob_kRsdo + ucast n) ` ns"

definition arm_says :: "u8 set \<Rightarrow> can_frame set" where
  "arm_says ns = {f. \<exists>i \<in> arm_ids ns. can_id f = i AND CAN_SFF_MASK}"

lemma arm_saysI:
  "p_arbitration_id f \<in> arm_ids ns \<Longrightarrow> \<not> p_extended f \<Longrightarrow> pxx_socket_frame f \<in> arm_says ns"
  by (auto simp: arm_says_def pxx_socket_frame_def)

lemma arm_frames_say [simp]:
  "pxx_socket_frame (MakeNmtFrame c m) \<in> arm_says ns"
  "pxx_socket_frame MakeSyncFrame \<in> arm_says ns"
  "n \<in> ns \<Longrightarrow> pxx_socket_frame (MakeSdoWriteFrame n i sub v bytes) \<in> arm_says ns"
  "n \<in> ns \<Longrightarrow> pxx_socket_frame (MakeSdoReadFrame n i sub) \<in> arm_says ns"
  "n \<in> ns \<Longrightarrow> pxx_socket_frame (MakeTargetPositionFrame n w) \<in> arm_says ns"
  by (rule arm_saysI; simp add: arm_ids_def MakeNmtFrame_eq MakeSyncFrame_eq MakeSdoReadFrame_eq
      MakeTargetPositionFrame_eq MakeSdoWriteFrame_def empty_PFrame_def Let_def)+

lemma pxx_send_puts: "pxx_socket_frame f \<in> S \<Longrightarrow> puts k (snd (pxx_send fd f k)) S"
  using puts_write [of "pxx_socket_frame f" S k] by (auto simp: pxx_send_def Let_def split: prod.splits)

lemma pxx_send_all_puts: "pxx_socket_frame ` set fs \<subseteq> S \<Longrightarrow> puts k (snd (pxx_send_all fd fs k)) S"
proof (induction fs arbitrary: k)
  case (Cons f fs)
  obtain st k1 where s: "pxx_send fd f k = (st, k1)" by fastforce
  then have "puts k k1 S" using Cons.prems pxx_send_puts [of f S k fd] by simp
  with Cons.IH [of k1] Cons.prems s show ?case by (auto split: prod.split intro: puts_trans)
qed simp

text \<open>Operations of the configuration dialogue that put only frames of \<open>S\<close> on the bus, as
  \<open>quiet\<close> states what they leave alone.\<close>

definition speaks :: "can_frame set \<Rightarrow> (motor_env \<Rightarrow> 'r \<times> motor_env) \<Rightarrow> bool" where
  "speaks S f \<longleftrightarrow> (\<forall>s r s'. f s = (r, s') \<longrightarrow> puts (me_kernel s) (me_kernel s') S)"

lemma speaksD: "speaks S f \<Longrightarrow> f s = (r, s') \<Longrightarrow> puts (me_kernel s) (me_kernel s') S"
  by (simp add: speaks_def)

lemma speaks_and_also: "speaks S a \<Longrightarrow> speaks S b \<Longrightarrow> speaks S (and_also a b)"
  unfolding speaks_def and_also_def
  by (auto split: prod.splits if_splits) (metis puts_trans)

lemma speaks_send: "pxx_socket_frame f \<in> S \<Longrightarrow> speaks S (motor_send f)"
  unfolding speaks_def motor_send_def
  by (auto split: prod.splits) (metis pxx_send_puts snd_conv)

lemma speaks_transaction:
  assumes "pxx_socket_frame f \<in> S"
  shows "speaks S (sdo_transaction f)"
proof -
  have "puts (me_kernel s) (me_kernel s') S" if t: "sdo_transaction f s = (((ok, e), v), s')" for s ok e v s'
    using t
  proof (cases rule: sdo_transaction_cases)
    case (failed b0 k)
    then show ?thesis using pxx_send_puts [OF assms, of "me_kernel s" "sm_fd b0"] by simp
  next
    case (waited b0 k e0 answered b1 later)
    then show ?thesis using pxx_send_puts [OF assms, of "me_kernel s" "sm_fd b0"] by simp
  qed
  then show ?thesis by (auto simp: speaks_def)
qed

lemma speaks_sdo:
  "n \<in> ns \<Longrightarrow> speaks (arm_says ns) (sdo_write n i sub v bytes)"
  "n \<in> ns \<Longrightarrow> speaks (arm_says ns) (sdo_read n i sub w)"
proof -
  assume n: "n \<in> ns"
  then have "speaks (arm_says ns) (sdo_transaction (MakeSdoWriteFrame n i sub v bytes))"
    "speaks (arm_says ns) (sdo_transaction (MakeSdoReadFrame n i sub))"
    by (simp_all add: speaks_transaction)
  then show "speaks (arm_says ns) (sdo_write n i sub v bytes)" "speaks (arm_says ns) (sdo_read n i sub w)"
    by (auto simp: speaks_def sdo_write_def sdo_read_def split: prod.splits)
qed

lemma speaks_sdo_writes: "n \<in> ns \<Longrightarrow> speaks (arm_says ns) (sdo_writes n ws)"
proof (induction ws)
  case (Cons w ws)
  then show ?case
    using speaks_and_also [OF speaks_sdo(1) Cons.IH] by (cases w) (auto simp: speaks_def)
qed (simp add: speaks_def)

lemma speaks_check_enabled:
  assumes "n \<in> ns"
  shows "speaks (arm_says ns) (check_enabled n)"
  unfolding speaks_def check_enabled_def Let_def
  by (auto split: prod.splits if_splits dest!: speaksD [OF speaks_sdo(2) [OF assms]] intro: puts_trans)

lemma speaks_seed: "speaks S (seed_position n p)"
  by (simp add: speaks_def seed_position_def)

lemmas speaks_intros = speaks_and_also speaks_send speaks_sdo speaks_sdo_writes speaks_check_enabled speaks_seed

lemma speaks_enable: "n \<in> ns \<Longrightarrow> speaks (arm_says ns) (enable_drive n)"
  unfolding enable_drive_def by (intro speaks_intros) simp_all

lemma speaks_hold:
  assumes n: "n \<in> ns"
  shows "speaks (arm_says ns) (hold_position n)"
proof -
  have "speaks (arm_says ns) (and_also (sdo_write n i 0 p 4) (and_also (seed_position n p) (enable_drive n)))" for i p
    using n by (intro speaks_intros speaks_enable)
  note tail = speaksD [OF this]
  show ?thesis
    unfolding speaks_def hold_position_def
    by (auto split: prod.splits if_splits dest!: speaksD [OF speaks_sdo(2) [OF n]] tail intro: puts_trans)
qed

lemma speaks_configure: "n \<in> ns \<Longrightarrow> speaks (arm_says ns) (configure_node n)"
  unfolding configure_node_def by (intro speaks_intros speaks_hold) simp_all

lemma speaks_configure_nodes: "set ns \<subseteq> ms \<Longrightarrow> speaks (arm_says ms) (configure_nodes ns)"
proof (induction ns)
  case (Cons n ns)
  then have "speaks (arm_says ms) (and_also (configure_node n) (configure_nodes ns))"
    by (intro speaks_and_also speaks_configure) simp_all
  then show ?case by (simp add: speaks_def)
qed (simp add: speaks_def)

subsection \<open>Its backends speak\<close>

lemma transport_open_puts: "pxx_open c name fd k = (st, fd', k') \<Longrightarrow> puts k k' S"
  by (simp add: pxx_open_eq transport_open_wire puts_nothing)

lemma socketcan_motor_deactivate_puts:
  assumes "socketcan_motor_deactivate b k = (st, b', k')"
  shows "sm_node_ids b' = sm_node_ids b \<and> puts k k' (arm_says (set (sm_node_ids b)))"
proof -
  have close: "puts k1 (snd (pxx_close fd k1)) S" for k1 fd S
    by (simp add: puts_nothing pxx_close_eq transport_close_simps)
  have "puts k (snd (pxx_send_all (sm_fd b) (concat (map disable_frames (sm_node_ids b))) k))
      (arm_says (set (sm_node_ids b)))"
    by (rule pxx_send_all_puts) (auto simp: disable_frames_def)
  with assms show ?thesis
    by (auto simp: socketcan_motor_deactivate_def Let_def split: if_splits prod.splits)
      (metis close puts_trans snd_conv)+
qed

lemma socketcan_motor_activate_puts:
  assumes "socketcan_motor_activate c b k = Done (st, b', k')"
  shows "sm_node_ids b' = sm_node_ids b \<and> puts k k' (arm_says (set (sm_node_ids b)))"
proof -
  obtain ok e fd k1 where o: "pxx_open (mc_open c) (sm_can_interface b) (sm_fd b) k = ((ok, e), fd, k1)" by (metis surj_pair)
  note k1 = transport_open_puts [OF o]
  let ?b = "b\<lparr>sm_fd := fd, sm_feedback := map (\<lambda>_. zero_feedback) (sm_feedback b), sm_rx_running := True,
    sm_rx_joinable := True\<rparr>"
  let ?s = "\<lparr>me_backend = ?b, me_kernel = k1, me_slots = mc_slots c\<rparr>"
  obtain ok2 e2 s where cfg: "configure_nodes (sm_node_ids b) ?s = ((ok2, e2), s)" by (metis surj_pair)
  have "puts k1 (me_kernel s) (arm_says (set (sm_node_ids b)))"
    using speaksD [OF speaks_configure_nodes cfg] by simp
  with k1 have ks: "puts k (me_kernel s) (arm_says (set (sm_node_ids b)))" by (rule puts_trans)
  have ids: "sm_node_ids (me_backend s) = sm_node_ids b"
    using quiet_configure_nodes [of "sm_node_ids b"] cfg by (simp add: quiet_def same_env_def same_link_def)
  obtain st2 b2 k2 where d: "socketcan_motor_deactivate (me_backend s) (me_kernel s) = (st2, b2, k2)" by (metis surj_pair)
  have "sm_node_ids b2 = sm_node_ids b" "puts k k2 (arm_says (set (sm_node_ids b)))"
    using socketcan_motor_deactivate_puts [OF d] ks ids by (auto intro: puts_trans)
  with assms o cfg d ks ids k1 show ?thesis
    by (cases ok; cases "sm_rx_joinable b"; cases ok2) (simp_all add: socketcan_motor_activate_def Let_def, auto)
qed

lemma target_frames_puts:
  "target_frames lr is cmds b = Done fs \<Longrightarrow> pxx_socket_frame ` set fs \<subseteq> arm_says (set (sm_node_ids b))"
  by (induction "is" arbitrary: fs) (force simp: and_then_Done_iff vec_at_def split: if_splits)+

lemma socketcan_motor_write_puts:
  assumes "socketcan_motor_write lr cmds b k = Done (st, b', k')"
  shows "sm_node_ids b' = sm_node_ids b \<and> puts k k' (arm_says (set (sm_node_ids b)))"
proof (cases "pxx_is_open (sm_fd b) \<and> length cmds = length (sm_node_ids b)")
  case True
  then obtain fs where fs: "target_frames lr [0..<length (sm_node_ids b)] cmds b = Done fs"
    and out: "b' = b" "k' = snd (pxx_send_all (sm_fd b) (fs @ [MakeSyncFrame]) k)"
    using assms by (cases "target_frames lr [0..<length (sm_node_ids b)] cmds b")
      (auto simp: socketcan_motor_write_def Let_def split: prod.splits)
  have "puts k k' (arm_says (set (sm_node_ids b)))"
    unfolding out by (rule pxx_send_all_puts) (use target_frames_puts [OF fs] in auto)
  with out show ?thesis by simp
qed (use assms in \<open>auto simp: socketcan_motor_write_def split: if_splits\<close>)

fun motor_says :: "MotorBackend \<Rightarrow> can_frame set" where
  "motor_says (Mock_Motor b) = {}"
| "motor_says (SocketCan_Motor b) = arm_says (set (sm_node_ids b))"

lemma motor_backend_puts:
  "motor_activate c b k = Done (st, b', k') \<Longrightarrow> motor_says b' = motor_says b \<and> puts k k' (motor_says b)"
  "motor_deactivate b k = (st, b', k') \<Longrightarrow> motor_says b' = motor_says b \<and> puts k k' (motor_says b)"
  "motor_read sts period b = Done (st, sts', b') \<Longrightarrow> motor_says b' = motor_says b"
  "motor_write lr cs b k = Done (st, b', k') \<Longrightarrow> motor_says b' = motor_says b \<and> puts k k' (motor_says b)"
     apply (cases b; auto simp: and_then_Done_iff split: prod.splits dest: socketcan_motor_activate_puts)
    apply (cases b; auto split: prod.splits dest: socketcan_motor_deactivate_puts)
   apply (cases b; auto simp: and_then_Done_iff socketcan_motor_read_def split: if_splits)
  apply (cases b; auto simp: and_then_Done_iff split: prod.splits dest: socketcan_motor_write_puts)
  done

lemma motor_rx_says: "motor_says (motor_rx c b) = motor_says b"
proof (cases b)
  case (SocketCan_Motor d)
  have "same_link d (motor_rx_turn c d)" by simp
  with SocketCan_Motor show ?thesis by (simp add: same_link_def)
qed simp

subsection \<open>What the arm does not hear\<close>

text \<open>
  A frame with a function code of zero leaves the arm as it is, in the control cycle and in the middle
  of a configuration dialogue.
\<close>

definition motor_deaf :: "can_frame set \<Rightarrow> rx_calls \<Rightarrow> bool" where
  "motor_deaf F c \<longleftrightarrow> rx_frame c \<in> F \<and> can_id (rx_frame c) < 0x80"

lemma motor_deaf_rx [simp]: "motor_deaf F c \<Longrightarrow> motor_rx_turn c b = b"
proof -
  assume d: "motor_deaf F c"
  then have low: "bit (can_id (rx_frame c)) i \<Longrightarrow> i < 7" for i
    using high_bits_unset [of "can_id (rx_frame c)" 7 i] by (force simp: motor_deaf_def word_less_def)
  have none: "(can_id (rx_frame c) AND m) AND 0x780 = 0" for m :: u32
    by (rule bit_word_eqI) (use low in \<open>force simp: bit_simps bit_1920\<close>)
  have "motor_rx_frame f b = b" if "fst (pxx_receive (sm_fd b) c) = Some f" for f
  proof -
    have "p_arbitration_id f AND 0x780 = 0"
      using that none by (auto simp: pxx_receive_def Let_def split: if_splits)
    then have "ParseMotionFeedback f = None" "ParseStatusFeedback f = None" "ParseEmergency f = None"
      "ParseSdoResponse f = None"
      by (simp_all add: ParseMotionFeedback_def ParseStatusFeedback_def ParseEmergency_def ParseSdoResponse_def Let_def)
    then show ?thesis by (simp add: motor_rx_frame_def)
  qed
  then show ?thesis by (simp add: motor_rx_turn_def split: option.split)
qed

definition hush_slot :: "(rx_calls \<Rightarrow> bool) \<Rightarrow> sdo_slot \<Rightarrow> sdo_slot" where
  "hush_slot deaf s = \<lparr>slot_before = filter (\<lambda>c. \<not> deaf c) (slot_before s),
     slot_during = filter (\<lambda>e. case e of W_Rx c \<Rightarrow> \<not> deaf c | W_Wake \<Rightarrow> True) (slot_during s)\<rparr>"

definition hush :: "(rx_calls \<Rightarrow> bool) \<Rightarrow> motor_calls \<Rightarrow> motor_calls" where
  "hush deaf c = c\<lparr>mc_slots := map (hush_slot deaf) (mc_slots c)\<rparr>"

definition hush_env :: "can_frame set \<Rightarrow> motor_env \<Rightarrow> motor_env" where
  "hush_env F s = s\<lparr>me_slots := map (hush_slot (motor_deaf F)) (me_slots s)\<rparr>"

lemma hush_loop: "motor_rx_loop (filter (\<lambda>c. \<not> motor_deaf F c) cs) b = motor_rx_loop cs b"
  by (induction cs arbitrary: b) (simp_all add: motor_rx_loop_def)

lemma hush_rx_of: "rx_of (filter (\<lambda>e. case e of W_Rx c \<Rightarrow> \<not> motor_deaf F c | W_Wake \<Rightarrow> True) es) =
    filter (\<lambda>c. \<not> motor_deaf F c) (rx_of es)"
  by (induction es) (simp_all add: rx_of_def map_filter_simps split: wait_event.split)

lemma hush_wait: "sdo_wait a (filter (\<lambda>e. case e of W_Rx c \<Rightarrow> \<not> motor_deaf F c | W_Wake \<Rightarrow> True) es) b =
    (case sdo_wait a es b of (r, b', later) \<Rightarrow>
      (r, b', filter (\<lambda>e. case e of W_Rx c \<Rightarrow> \<not> motor_deaf F c | W_Wake \<Rightarrow> True) later))"
  by (induction a es b rule: sdo_wait.induct) (auto split: prod.splits)

lemma hush_next: "next_slot (hush_env F s) = hush_slot (motor_deaf F) (next_slot s)"
  by (simp add: next_slot_def hush_env_def hush_slot_def no_traffic_def split: list.split)

definition hushes :: "can_frame set \<Rightarrow> (motor_env \<Rightarrow> 'r \<times> motor_env) \<Rightarrow> bool" where
  "hushes F f \<longleftrightarrow> (\<forall>s. f (hush_env F s) = (fst (f s), hush_env F (snd (f s))))"

lemma hushesD: "hushes F f \<Longrightarrow> f (hush_env F s) = (fst (f s), hush_env F (snd (f s)))"
  by (simp add: hushes_def)

lemma hush_env_simps [simp]:
  "me_backend (hush_env F s) = me_backend s" "me_kernel (hush_env F s) = me_kernel s"
  "me_slots (hush_env F s) = map (hush_slot (motor_deaf F)) (me_slots s)"
  by (simp_all add: hush_env_def)

lemma hushes_and_also: "hushes F a \<Longrightarrow> hushes F b \<Longrightarrow> hushes F (and_also a b)"
  by (simp add: hushes_def and_also_def split: prod.split)

lemma hushes_send: "hushes F (motor_send f)"
  by (simp add: hushes_def motor_send_def hush_env_def split: prod.split)

lemma hushes_seed: "hushes F (seed_position n p)"
  by (simp add: hushes_def seed_position_def hush_env_def)

lemma hushes_transaction: "hushes F (sdo_transaction f)"
  unfolding hushes_def
proof (intro allI)
  fix s
  let ?slot = "next_slot s"
  define b0 where "b0 = (motor_rx_loop (slot_before ?slot) (me_backend s))\<lparr>sm_sdo_response := None\<rparr>"
  obtain ok1 e1 k where snd: "pxx_send (sm_fd b0) f (me_kernel s) = ((ok1, e1), k)" by (metis surj_pair)
  let ?a = "sdo_answered (ucast (p_arbitration_id f AND cob_kNodeMask))
       (ucast (p_data f ! 1) OR push_bit 8 (ucast (p_data f ! 2))) (p_data f ! 3)"
  obtain answered b1 later where w: "sdo_wait ?a (slot_during ?slot) b0 = (answered, b1, later)" by (metis surj_pair)
  have before: "motor_rx_loop (slot_before (hush_slot (motor_deaf F) ?slot)) (me_backend s) =
      motor_rx_loop (slot_before ?slot) (me_backend s)"
    by (simp add: hush_slot_def hush_loop)
  have during: "motor_rx_loop (rx_of (slot_during (hush_slot (motor_deaf F) ?slot))) b = motor_rx_loop (rx_of (slot_during ?slot)) b" for b
    by (simp add: hush_slot_def hush_rx_of hush_loop)
  have wait: "sdo_wait ?a (slot_during (hush_slot (motor_deaf F) ?slot)) b0 = (answered, b1,
      filter (\<lambda>e. case e of W_Rx c \<Rightarrow> \<not> motor_deaf F c | W_Wake \<Rightarrow> True) later)"
    unfolding hush_slot_def by (simp add: hush_wait w del: cob_defs One_nat_def)
  show "sdo_transaction f (hush_env F s) = (fst (sdo_transaction f s), hush_env F (snd (sdo_transaction f s)))"
    unfolding sdo_transaction_def Let_def hush_next hush_env_simps before b0_def [symmetric]
    by (simp add: motor_send_def snd w wait during hush_rx_of hush_loop map_tl del: cob_defs One_nat_def
        split: option.split cong: if_cong)
qed

lemma hushes_sdo: "hushes F (sdo_write n i sub v bytes)" "hushes F (sdo_read n i sub w)"
  by (simp_all add: hushes_def sdo_write_def sdo_read_def hushesD [OF hushes_transaction] split: prod.split)

lemma hushes_sdo_writes: "hushes F (sdo_writes n ws)"
proof (induction ws)
  case (Cons w ws)
  then show ?case
    using hushes_and_also [OF hushes_sdo(1) Cons.IH] by (cases w) (simp add: hushes_def)
qed (simp add: hushes_def)

lemma hushes_check_enabled: "hushes F (check_enabled n)"
  by (simp add: hushes_def check_enabled_def Let_def hushesD [OF hushes_sdo(2)] split: prod.split)

lemmas hushes_intros = hushes_and_also hushes_send hushes_sdo hushes_sdo_writes hushes_check_enabled hushes_seed

lemma hushes_enable: "hushes F (enable_drive n)"
  unfolding enable_drive_def by (intro hushes_intros)

lemma hushes_hold: "hushes F (hold_position n)"
proof -
  have "hushes F (and_also (sdo_write n i 0 p 4) (and_also (seed_position n p) (enable_drive n)))" for i p
    by (intro hushes_intros hushes_enable)
  then show ?thesis
    by (simp add: hushes_def [of F "hold_position n"] hold_position_def hushesD [OF hushes_sdo(2)] hushesD
        split: prod.split)
qed

lemma hushes_configure_nodes: "hushes F (configure_nodes ns)"
proof (induction ns)
  case (Cons n ns)
  then have "hushes F (and_also (configure_node n) (configure_nodes ns))"
    unfolding configure_node_def by (intro hushes_intros hushes_hold)
  then show ?case by (simp add: hushes_def)
qed (simp add: hushes_def)

lemma socketcan_motor_activate_hush: "socketcan_motor_activate (hush (motor_deaf F) c) b k = socketcan_motor_activate c b k"
proof -
  obtain ok e fd k1 where o: "pxx_open (mc_open c) (sm_can_interface b) (sm_fd b) k = ((ok, e), fd, k1)" by (metis surj_pair)
  let ?b = "b\<lparr>sm_fd := fd, sm_feedback := map (\<lambda>_. zero_feedback) (sm_feedback b), sm_rx_running := True,
    sm_rx_joinable := True\<rparr>"
  let ?s = "\<lparr>me_backend = ?b, me_kernel = k1, me_slots = mc_slots c\<rparr>"
  obtain ok2 e2 s where cfg: "configure_nodes (sm_node_ids b) ?s = ((ok2, e2), s)" by (metis surj_pair)
  have "configure_nodes (sm_node_ids b) \<lparr>me_backend = ?b, me_kernel = k1, me_slots = map (hush_slot (motor_deaf F)) (mc_slots c)\<rparr> =
      ((ok2, e2), hush_env F s)"
    using hushesD [OF hushes_configure_nodes, where F = F and s = ?s] cfg by (simp add: hush_env_def)
  with o cfg show ?thesis
    by (cases ok; cases "sm_rx_joinable b"; cases ok2) (simp_all add: socketcan_motor_activate_def Let_def hush_def)
qed

definition pxx_says :: "PxxSystemHardware \<Rightarrow> can_frame set" where
  "pxx_says h = (case px_backend h of None \<Rightarrow> {} | Some b \<Rightarrow> motor_says b)"

interpretation pxx_bus: bus_speaker "pxx_callbacks lr" pxx_says "motor_deaf F" "hush (motor_deaf F)" for lr F
proof unfold_locales
  fix h k r h' k' and c :: motor_calls
  assume "cb_activate (pxx_callbacks lr) c h k = Done (r, h', k')"
  then show "pxx_says h' = pxx_says h \<and> puts k k' (pxx_says h)"
    using motor_backend_puts(1) by (auto simp: pxx_callbacks_def pxx_on_activate_def pxx_says_def Let_def
        and_then_Done_iff split: option.splits if_splits)
next
  fix h k r h' k'
  assume "cb_deactivate (pxx_callbacks lr) h k = Done (r, h', k')"
  then show "pxx_says h' = pxx_says h \<and> puts k k' (pxx_says h)"
    using motor_backend_puts(2) by (auto simp: pxx_callbacks_def pxx_on_deactivate_def pxx_says_def
        split: option.splits prod.splits)
next
  fix h q h' and period :: fp
  assume "cb_read (pxx_callbacks lr) period h = Done (q, h')"
  then show "pxx_says h' = pxx_says h"
    using motor_backend_puts(3) by (auto simp: pxx_callbacks_def pxx_read_def pxx_says_def Let_def
        and_then_Done_iff split: option.splits if_splits)
next
  fix h k q h' k'
  assume "cb_write (pxx_callbacks lr) h k = Done (q, h', k')"
  then show "pxx_says h' = pxx_says h \<and> puts k k' (pxx_says h)"
    using motor_backend_puts(4) by (auto simp: pxx_callbacks_def pxx_write_def pxx_says_def
        and_then_Done_iff split: option.splits)
next
  fix h and x :: rx_calls
  assume "motor_deaf F x"
  then have "motor_rx x b = b" for b by (cases b) simp_all
  then have "map_option (motor_rx x) y = y" for y by (cases y) simp_all
  then show "cb_rx (pxx_callbacks lr) x h = h" by (simp add: pxx_callbacks_def pxx_rx_def)
next
  fix c :: motor_calls
  have "motor_activate (hush (motor_deaf F) c) = motor_activate c"
  proof (intro ext)
    fix b k
    show "motor_activate (hush (motor_deaf F) c) b k = motor_activate c b k"
      by (cases b) (simp_all add: socketcan_motor_activate_hush)
  qed
  then show "cb_activate (pxx_callbacks lr) (hush (motor_deaf F) c) = cb_activate (pxx_callbacks lr) c"
    by (simp add: pxx_callbacks_def pxx_on_activate_def [abs_def] cong: option.case_cong)
qed (auto simp: pxx_callbacks_def pxx_on_cleanup_def pxx_on_shutdown_def pxx_command_def pxx_rx_def
    pxx_says_def motor_rx_says fun_eq_iff split: option.split)

end
