(* ===== verification/Drive_Properties.thy ===== *)
theory Drive_Properties
  imports Odesc_Hardware
begin

section \<open>What the drivetrain does\<close>

text \<open>
  The properties of the drivetrain's code, from the bits of an identifier to whole runs of the
  plugin. The frames are stated as bytes on the bus, not through the functions that build them.
\<close>

subsection \<open>Frames as bytes\<close>

text \<open>The identifier an ODrive expects: the node times 32, plus the command.\<close>

definition odrive_frame :: "u8 \<Rightarrow> u32 \<Rightarrow> u8 list \<Rightarrow> can_frame" where
  "odrive_frame node command payload = \<lparr>can_id = ucast node * 32 + command,
     can_dlc = of_nat (length payload), can_data = payload @ replicate (8 - length payload) 0\<rparr>"

lemma socket_identifier:
  assumes "node \<le> kMaxNodeId"
  shows "ucast (MakeArbitrationId node (command_code c)) AND CAN_SFF_MASK =
    (ucast node * 32 + ucast (command_code c) :: u32)"
proof -
  let ?n = "push_bit 5 (ucast node) :: u32" and ?c = "ucast (command_code c) :: u32"
  have "ucast (MakeArbitrationId node (command_code c)) AND CAN_SFF_MASK = ?n OR ?c"
    unfolding MakeArbitrationId_def kCommandIdBits_def CAN_SFF_MASK_def
    by (rule bit_word_eqI)
      (auto simp: bit_simps bit_2047 bit_31 not_less dest: node_low [OF assms] command_code_low bit_imp_le_length)
  also have "\<dots> = ?n + ?c"
    by (rule disjunctive_add [symmetric]) (auto simp: bit_simps dest: command_code_low)
  also have "?n = ucast node * 32" by (simp add: push_bit_eq_mult)
  finally show ?thesis .
qed

lemma socket_MakeAxisStateFrame:
  "node \<le> kMaxNodeId \<Longrightarrow>
   socket_frame (MakeAxisStateFrame node a) = odrive_frame node 7 (le_bytes (axis_state_value a))"
  using socket_identifier [of node MSG_SET_AXIS_REQUESTED_STATE]
  by (simp add: socket_frame_def odrive_frame_def copy_bytes_def le_bytes_def del: One_nat_def)

lemma socket_MakeInputVelocityFrame:
  "node \<le> kMaxNodeId \<Longrightarrow>
   socket_frame (MakeInputVelocityFrame node v) = odrive_frame node 13 (le_bytes (encode32 v) @ [0, 0, 0, 0])"
  using socket_identifier [of node MSG_SET_INPUT_VEL]
  by (simp add: socket_frame_def odrive_frame_def copy_bytes_def le_bytes_def del: One_nat_def)

lemma node_ids_valid: "socketcan_drive_inv b \<Longrightarrow> n \<in> set (sd_node_ids b) \<Longrightarrow> n \<le> kMaxNodeId"
  by (simp add: socketcan_drive_inv_def)

lemma request_axis_state_all_ok:
  assumes "socketcan_drive_inv b" "0 \<le> sd_fd b" "writes_ok k"
  shows "request_axis_state_all a b k = ((True, None), k\<lparr>n_writes := n_writes k + length (sd_node_ids b),
    wire := wire k @ map (\<lambda>n. odrive_frame n 7 (le_bytes (axis_state_value a))) (sd_node_ids b)\<rparr>)"
proof -
  have "send_all (sd_fd b) (map (\<lambda>n. MakeAxisStateFrame n a) (sd_node_ids b)) k = ((True, None),
      k\<lparr>n_writes := n_writes k + length (map (\<lambda>n. MakeAxisStateFrame n a) (sd_node_ids b)),
        wire := wire k @ map socket_frame (map (\<lambda>n. MakeAxisStateFrame n a) (sd_node_ids b))\<rparr>)"
    using assms by (intro send_all_ok) (auto simp: kMaxDataLength_def)
  then show ?thesis
    using node_ids_valid [OF assms(1)]
    by (simp add: request_axis_state_all_def socket_MakeAxisStateFrame cong: map_cong)
qed

subsection \<open>Identifiers and payloads\<close>

text \<open>
  An encoder-estimates frame survives the bus: for every node up to 63 and any two floats,
  the frame an ODrive sends is received with the same node number and the command 9, and its payload
  is parsed to the same two floats, NaN, infinities and signed zeros included.
\<close>

theorem odrive_frames_survive_the_bus:
  assumes "0 \<le> fd" "poll_ret c = 1" "poll_in c" "read_ret c = sizeof_can_frame"
    and "node \<le> kMaxNodeId" "fp_ok binary32 p" "fp_ok binary32 v"
    and "rx_frame c = socket_frame (estimate_frame node p v)"
  shows "\<exists>f. transport_receive fd c = (Some f, None) \<and>
    ParseArbitrationId (arbitration_id f) = \<lparr>node_id = node, command_id = 9\<rparr> \<and>
    ParseEncoderEstimate f = Some \<lparr>position_turns = p, velocity_turns_s = v\<rparr>"
proof -
  let ?f = "estimate_frame node p v"
  have "transport_receive fd c = (Some (?f\<lparr>data := copy_bytes (unat (data_length ?f)) (data ?f)\<rparr>), None)"
    using assms by (intro transport_receive_socket_frame)
      (use MakeArbitrationId_11_bits [OF assms(5), of MSG_GET_ENCODER_ESTIMATES] in
        \<open>simp_all add: estimate_frame_def kMaxDataLength_def\<close>)
  moreover have "?f\<lparr>data := copy_bytes (unat (data_length ?f)) (data ?f)\<rparr> = ?f"
    by (simp add: estimate_frame_def)
  ultimately show ?thesis
    using assms ParseEncoderEstimate_frame [OF assms(6,7), of node]
      ParseArbitrationId_MakeArbitrationId [OF assms(5), of MSG_GET_ENCODER_ESTIMATES]
    by (simp add: estimate_frame_def)
qed

subsection \<open>Stopping\<close>

text \<open>
  C21: Stopping the drivetrain: when the bus is up, \<open>on_deactivate\<close> queues one frame per wheel that
  requests the idle state (command 7, value 1), in the order of the joints, then closes the socket,
  stops the receive thread and zeroes the stored commands and velocities.
\<close>

theorem drive_deactivate_idles_every_wheel:
  assumes "odesc_owns base h k" "od_backend h = Some (SocketCan_Drive b)" "0 \<le> sd_fd b" "writes_ok k"
  shows "\<exists>h' k'. odesc_on_deactivate h k = Done (CB_SUCCESS, h', k') \<and>
    wire k' = wire k @ map (\<lambda>n. odrive_frame n 7 [1, 0, 0, 0]) (sd_node_ids b) \<and>
    live_fds k' = base \<and> odesc_stopped h' \<and>
    (\<forall>c \<in> set (od_hw_commands h'). c = fzero) \<and> (\<forall>v \<in> set (od_hw_velocities h'). v = fzero)"
proof -
  have inv: "socketcan_drive_inv b" and own: "owns base (sd_fd b) k"
    using assms(1,2) by (auto simp: odesc_owns_def socketcan_drive_owns_def)
  have idle: "le_bytes 1 = [1, 0, 0, 0]" by (simp add: le_bytes_def byte_of_def)
  show ?thesis
    using request_axis_state_all_ok [OF inv assms(3,4), of kIdle] assms(2,3) own
    by (simp add: odesc_on_deactivate_def socketcan_drive_deactivate_def transport_is_open_def Let_def
        transport_close_def sys_close_def owns_def odesc_stopped_def socketcan_drive_stopped_def idle)
qed

subsection \<open>Commanding\<close>

text \<open>The motor velocity in turns per second that the driver computes, as a double.\<close>

definition motor_turns :: "fp \<Rightarrow> fp \<Rightarrow> fp" where
  "motor_turns gear_ratio command = fdiv binary64 (fmul binary64 command gear_ratio) odesc_kTwoPi"

lemma velocity_frame_bytes:
  "node \<le> kMaxNodeId \<Longrightarrow> socket_frame (velocity_frame g node c) =
     odrive_frame node 13 (le_bytes (encode32 (fconv binary32 (motor_turns g c))) @ [0, 0, 0, 0])"
  by (simp add: velocity_frame_def motor_turns_def socket_MakeInputVelocityFrame)

lemma drive_write_frames:
  assumes "odesc_owns base h k" "od_backend h = Some (SocketCan_Drive b)" "0 \<le> sd_fd b" "writes_ok k"
  shows "\<exists>k'. odesc_write h k = Done (RT_OK, h, k') \<and>
    wire k' = wire k @ map2 (\<lambda>n c. odrive_frame n 13
      (le_bytes (encode32 (fconv binary32 (motor_turns (sd_gear_ratio b) c))) @ [0, 0, 0, 0]))
      (sd_node_ids b) (od_hw_commands h)"
proof -
  have inv: "socketcan_drive_inv b" and len: "length (od_hw_commands h) = length (sd_node_ids b)"
    using assms(1,2) by (auto simp: odesc_owns_def socketcan_drive_owns_def socketcan_drive_width_def)
  let ?fs = "map2 (velocity_frame (sd_gear_ratio b)) (sd_node_ids b) (od_hw_commands h)"
  have "send_all (sd_fd b) ?fs k = ((True, None),
      k\<lparr>n_writes := n_writes k + length ?fs, wire := wire k @ map socket_frame ?fs\<rparr>)"
    using assms by (intro send_all_ok) (auto simp: velocity_frame_def Let_def kMaxDataLength_def)
  moreover have "map socket_frame ?fs = map2 (\<lambda>n c. odrive_frame n 13
      (le_bytes (encode32 (fconv binary32 (motor_turns (sd_gear_ratio b) c))) @ [0, 0, 0, 0]))
      (sd_node_ids b) (od_hw_commands h)"
    using node_ids_valid [OF inv] by (auto simp: velocity_frame_bytes dest: set_zip_leftD)
  moreover have "h\<lparr>od_backend := Some (SocketCan_Drive b)\<rparr> = h" using assms(2) by (cases h) simp
  ultimately show ?thesis
    using assms(2,3) len by (simp add: odesc_write_def socketcan_drive_write_def transport_is_open_def)
qed

text \<open>
  C19: One control cycle of the drivetrain: \<open>write\<close> queues exactly one Set\_Input\_Vel frame per wheel, in
  the order of the joints; its first four payload bytes are the little-endian float nearest to the
  motor's turns per second computed from the command, its feed-forward torque is zero.
\<close>

theorem drive_write_commands_every_wheel:
  assumes "odesc_owns base h k" "od_backend h = Some (SocketCan_Drive b)" "0 \<le> sd_fd b" "writes_ok k"
  shows "\<exists>h' k'. odesc_write h k = Done (RT_OK, h', k') \<and>
    wire k' = wire k @ map2 (\<lambda>n c. odrive_frame n 13
      (le_bytes (encode32 (fconv binary32 (motor_turns (sd_gear_ratio b) c))) @ [0, 0, 0, 0]))
      (sd_node_ids b) (od_hw_commands h)"
  using drive_write_frames [OF assms] by blast

text \<open>
  C23: \<open>on_activate\<close> ignores the outcome of the closed-loop requests: when the socket opens and every
  later write on it fails, it still reports success, with no wheel armed and nothing on the bus.
\<close>

theorem drive_activate_reports_success_whatever_the_bus_does:
  assumes "odesc_owns base h k" "od_backend h = Some (SocketCan_Drive b)" "\<not> sd_rx_joinable b"
    and "0 \<le> socket_ret c" "if_index c (ifr_name (sd_can_interface b)) = Some i" "0 \<le> bind_ret c i"
    and "write_ret k = (\<lambda>_. -1)"
  shows "\<exists>h' k'. odesc_on_activate c h k = Done (CB_SUCCESS, h', k') \<and> wire k' = wire k"
proof -
  have inv: "socketcan_drive_inv b" "sd_fd b < 0"
    using assms(1-3) by (auto simp: odesc_owns_def socketcan_drive_owns_def socketcan_drive_inv_def)
  have wire: "wire (snd (send_all fd fs k1)) = wire k1" if "write_ret k1 = (\<lambda>_. -1)" for fd fs k1
    using that
  proof (induction fs arbitrary: k1)
    case (Cons f fs)
    obtain st k2 where t: "transport_send fd f k1 = (st, k2)" by (cases "transport_send fd f k1")
    then have "wire k2 = wire k1" "write_ret k2 = (\<lambda>_. -1)"
      using Cons.prems transport_send_frame(2) [of fd f k1]
      by (auto simp: transport_send_def sys_write_def sizeof_can_frame_def split: if_splits)
    with Cons.IH [of k2] t show ?case by (cases st; cases "send_all fd fs k2") auto
  qed simp
  let ?k = "k\<lparr>live_fds := socket_ret c # live_fds k\<rparr>"
  let ?b = "b\<lparr>sd_fd := socket_ret c, sd_estimates := map (\<lambda>_. zero_turns) (sd_estimates b),
    sd_rx_running := True, sd_rx_joinable := True\<rparr>"
  obtain st k1 where r: "request_axis_state_all kClosedLoopControl ?b ?k = (st, k1)" by fastforce
  have "wire k1 = wire k"
    using wire [of ?k] assms(7) r unfolding request_axis_state_all_def by (metis (no_types, lifting) kernel.select_convs(2) kernel.surjective kernel.update_convs(1) kernel.select_convs(4) snd_conv)
  with assms(2-6) inv(2) r show ?thesis
    by (simp add: odesc_on_activate_def socketcan_drive_activate_def transport_open_def
        transport_close_def sys_socket_def Let_def split: prod.split)
qed

subsection \<open>Reading\<close>

text \<open>
  What the bus last said about a node: the estimates of the last frame, among those received, that
  carries the encoder command, the node's number and a full payload.
\<close>

definition estimate_of :: "u8 \<Rightarrow> Frame \<Rightarrow> MotorTurns option" where
  "estimate_of n f = (let id = ParseArbitrationId (arbitration_id f) in
     if command_id id = 9 \<and> node_id id = n \<and> 8 \<le> data_length f
     then Some \<lparr>est_position_turns = decode32 (word_at (data f) 0),
                est_velocity_turns_s = decode32 (word_at (data f) 4)\<rparr>
     else None)"

definition received :: "int \<Rightarrow> rx_calls list \<Rightarrow> Frame list" where
  "received fd cs = List.map_filter (\<lambda>c. fst (transport_receive fd c)) cs"

definition last_estimate :: "u8 \<Rightarrow> Frame list \<Rightarrow> MotorTurns option" where
  "last_estimate n fs = (case List.map_filter (estimate_of n) fs of [] \<Rightarrow> None | es \<Rightarrow> Some (last es))"

lemma fconv_decode32: "fconv binary64 (decode32 w) = decode32 w"
  by (simp add: fconv_widen fp_ok_decode32)

lemma parsed_node_small: "unat (node_id (ParseArbitrationId a)) < 64"
proof -
  have "node_id (ParseArbitrationId a) = ucast (drop_bit 5 a AND 63)"
    by (simp add: ParseArbitrationId_def kMaxNodeId_def kCommandIdBits_def)
  also have "\<dots> = take_bit 6 (ucast (drop_bit 5 a))"
    by (rule bit_word_eqI) (auto simp: bit_simps bit_63)
  finally have "unat (node_id (ParseArbitrationId a)) = take_bit 6 (unat (ucast (drop_bit 5 a) :: u8))"
    by (simp add: unsigned_take_bit_eq)
  then show ?thesis
    using take_bit_nat_less_exp [of 6 "unat (ucast (drop_bit 5 a) :: u8)"] by simp
qed

lemma drive_rx_frame_estimates:
  assumes "length (sd_estimates b) = 64" "unat n < 64"
  shows "sd_estimates (drive_rx_frame f b) ! unat n =
    (case estimate_of n f of None \<Rightarrow> sd_estimates b ! unat n | Some e \<Rightarrow> e)"
  using assms parsed_node_small [of "arbitration_id f"]
  by (auto simp: drive_rx_frame_def estimate_of_def ParseEncoderEstimate_eq fconv_decode32 Let_def
      nth_list_update not_less [symmetric] word_unat_eq_iff split: option.splits)

lemma last_estimate_Cons:
  "last_estimate n (f # fs) = (case last_estimate n fs of Some e \<Rightarrow> Some e | None \<Rightarrow> estimate_of n f)"
  by (auto simp: last_estimate_def map_filter_simps split: option.splits list.splits)

lemma drive_rx_loop_estimates:
  assumes "socketcan_drive_inv b" "0 \<le> sd_fd b" "unat n < 64"
  shows "sd_estimates (drive_rx_loop cs b) ! unat n =
    (case last_estimate n (received (sd_fd b) cs) of None \<Rightarrow> sd_estimates b ! unat n | Some e \<Rightarrow> e) \<and>
    socketcan_drive_inv (drive_rx_loop cs b) \<and> sd_fd (drive_rx_loop cs b) = sd_fd b \<and>
    sd_node_ids (drive_rx_loop cs b) = sd_node_ids b \<and> sd_gear_ratio (drive_rx_loop cs b) = sd_gear_ratio b"
  using assms
proof (induction cs arbitrary: b)
  case Nil
  then show ?case by (simp add: drive_rx_loop_def received_def last_estimate_def map_filter_simps)
next
  case (Cons c cs)
  have run: "sd_rx_running b" using Cons.prems by (simp add: socketcan_drive_inv_def)
  have loop: "drive_rx_loop (c # cs) b = drive_rx_loop cs (drive_rx_turn c b)"
    by (simp add: drive_rx_loop_def)
  show ?case
  proof (cases "fst (transport_receive (sd_fd b) c)")
    case None
    then show ?thesis
      using Cons run by (simp add: loop drive_rx_turn_def received_def map_filter_simps)
  next
    case (Some f)
    have t: "drive_rx_turn c b = drive_rx_frame f b" using run Some by (simp add: drive_rx_turn_def)
    have g: "sd_gear_ratio (drive_rx_frame f b) = sd_gear_ratio b"
      by (simp add: drive_rx_frame_def Let_def split: option.split)
    have "received (sd_fd b) (c # cs) = f # received (sd_fd b) cs"
      using Some by (simp add: received_def map_filter_simps)
    then show ?thesis
      using Cons.IH [of "drive_rx_frame f b"] Cons.prems drive_rx_frame_inv [where b = b and f = f]
        drive_rx_frame_estimates [of b n f] g
      by (auto simp: loop t last_estimate_Cons socketcan_drive_inv_def split: option.splits)
  qed
qed


subsection \<open>Units\<close>

text \<open>The double nearest to twice pi, as an exact fraction.\<close>

definition two_pi :: rat where
  "two_pi = 884279719003555 / 140737488355328"

lemma kTwoPi_eq: "odesc_kTwoPi = FFin False two_pi"
  unfolding two_pi_def by code_simp

lemma two_pi_facts: "0 < two_pi" "sized 3 two_pi" "signed False two_pi = two_pi"
  by (simp_all add: two_pi_def sized_def signed_def power_int_minus)

lemma motor_turns_near:
  assumes "0 \<le> c" "sized 900 c" "sized 100 g" "0 < g"
  shows "near 2 (motor_turns (FFin t g) (FFin s c)) (signed s c * signed t g / two_pi)"
proof -
  have "near 0 (FFin s c) (signed s c)" using assms(1) by (intro near_exact) simp_all
  then have "near 1 (fmul binary64 (FFin s c) (FFin t g)) (signed s c * signed t g)"
    using near_fmul_sized [of 0 "FFin s c" "signed s c" g 900 100 t] assms by simp
  then have "near (Suc 1) (fdiv binary64 (fmul binary64 (FFin s c) (FFin t g)) (FFin False two_pi))
      (signed s c * signed t g / signed False two_pi)"
    using sized_mult [of 900 "signed s c" 100 "signed t g"] assms two_pi_facts
    by (intro near_fdiv_sized [where i = 1000 and j = 3]) simp_all
  then show ?thesis
    by (simp add: motor_turns_def kTwoPi_eq two_pi_facts(3) numeral_2_eq_2 del: fmul.simps fdiv.simps near.simps)
qed

lemma wheel_velocity_near:
  assumes x: "near k x a" and "sized 950 a" "sized 50 g" "0 < g" "k \<le> 900"
  shows "near (Suc (Suc k)) (fdiv binary64 (fmul binary64 x odesc_kTwoPi) (FFin t g)) (a * two_pi / signed t g)"
proof -
  have "near (Suc k) (fmul binary64 x (FFin False two_pi)) (a * signed False two_pi)"
    using assms two_pi_facts by (intro near_fmul_sized [where i = 950 and j = 3]) simp_all
  then show ?thesis
    using assms two_pi_facts sized_mult [of 950 a 3 two_pi] unfolding kTwoPi_eq
    by (intro near_fdiv_sized [where i = 953 and j = 50]) (simp_all del: near.simps)
qed

text \<open>
  The simulated drivetrain follows its commands: after \<open>write\<close> and \<open>read\<close> through the plugin,
  every reported wheel velocity is the commanded one up to the rounding of its four operations, for
  every gear ratio and command of a reasonable magnitude.
\<close>

theorem mock_drive_reports_the_commanded_velocities:
  assumes h: "odesc_owns base h k" "od_backend h = Some (Mock_Drive b)"
    and g: "md_gear_ratio b = FFin t g" "0 < g" "sized 50 g"
    and cmds: "\<forall>c \<in> set (od_hw_commands h). \<exists>s m. c = FFin s m \<and> 0 \<le> m \<and> sized 800 m"
    and "fisfinite period"
  shows "\<exists>h1 k1 h2. odesc_write h k = Done (RT_OK, h1, k1) \<and> odesc_read period h1 = Done (RT_OK, h2) \<and>
    list_all2 (\<lambda>v c. \<exists>s m. c = FFin s m \<and> near 4 v (signed s m)) (od_hw_velocities h2) (od_hw_commands h)"
proof -
  let ?b1 = "b\<lparr>md_commands_rad_s := od_hw_commands h\<rparr>"
  let ?sts = "map2 (mock_drive_joint (md_gear_ratio b) period) (od_hw_commands h) (md_states b)"
  have len: "length (od_hw_commands h) = length (od_joint_names h)" "length (md_states b) = length (od_joint_names h)"
    "length (md_commands_rad_s b) = length (od_joint_names h)"
    "length (od_hw_positions h) = length (od_joint_names h)" "length (od_hw_velocities h) = length (od_joint_names h)"
    using h by (auto simp: odesc_owns_def mock_drive_owns_def mock_drive_inv_def mock_drive_width_def)
  have w: "odesc_write h k = Done (RT_OK, h\<lparr>od_backend := Some (Mock_Drive ?b1)\<rparr>, k)"
    using h(2) len by (simp add: odesc_write_def mock_drive_write_def)
  have "mock_drive_read (od_backend_states h) period ?b1 = Done ((True, None), ?sts, ?b1\<lparr>md_states := ?sts\<rparr>)"
    using mock_drive_read_eq [of ?b1 period "od_backend_states h"] len assms(7)
    by (simp add: mock_drive_inv_def Let_def)
  moreover have "copy_states [0..<length (od_joint_names h)] ?sts (od_hw_positions h, od_hw_velocities h) =
      Done (map position_rad ?sts, map velocity_rad_s ?sts)"
    using copy_states_all [of "od_hw_positions h" ?sts "od_hw_velocities h"] len by simp
  ultimately obtain h2 where r: "odesc_read period (h\<lparr>od_backend := Some (Mock_Drive ?b1)\<rparr>) = Done (RT_OK, h2)"
      "od_hw_velocities h2 = map velocity_rad_s ?sts"
    by (simp add: odesc_read_def Let_def)
  have v: "velocity_rad_s (mock_drive_joint (md_gear_ratio b) period c st) =
      fdiv binary64 (fmul binary64 (motor_turns (md_gear_ratio b) c) odesc_kTwoPi) (md_gear_ratio b)" for c st
    by (simp add: mock_drive_joint_def motor_turns_def Let_def)
  have n: "near 4 (velocity_rad_s (mock_drive_joint (md_gear_ratio b) period (FFin s m) st)) (signed s m)"
    if "0 \<le> m" "sized 800 m" for s m st
  proof -
    let ?t = "signed s m * signed t g / two_pi"
    have "sized 853 ?t"
      using that g(3) two_pi_facts sized_div [OF sized_mult [of 800 "signed s m" 50 "signed t g"], of 3 two_pi]
      by simp
    then have "near (Suc (Suc 2)) (fdiv binary64 (fmul binary64 (motor_turns (FFin t g) (FFin s m)) odesc_kTwoPi)
        (FFin t g)) (?t * two_pi / signed t g)"
      using that g sized_mono [of 853 ?t 950] sized_mono [of 800 m 900] sized_mono [of 50 g 100]
      by (intro wheel_velocity_near motor_turns_near) simp_all
    moreover have "?t * two_pi / signed t g = signed s m" using g(2) two_pi_facts by simp
    moreover have "Suc (Suc 2) = 4" by simp
    ultimately show ?thesis by (simp only: v [unfolded g(1)] g(1))
  qed
  have "list_all2 (\<lambda>v c. \<exists>s m. c = FFin s m \<and> near 4 v (signed s m)) (map velocity_rad_s ?sts) (od_hw_commands h)"
  proof (rule list_all2_all_nthI)
    fix i
    assume "i < length (map velocity_rad_s ?sts)"
    then have i: "i < length (od_hw_commands h)" "i < length (md_states b)" using len by simp_all
    then obtain s m where c: "od_hw_commands h ! i = FFin s m" "0 \<le> m" "sized 800 m"
      using cmds nth_mem [OF i(1)] by blast
    show "\<exists>s m. od_hw_commands h ! i = FFin s m \<and> near 4 (map velocity_rad_s ?sts ! i) (signed s m)"
      using n [OF c(2,3)] i len c(1) by (simp del: near.simps)
  qed (use len in simp)
  then have "list_all2 (\<lambda>v c. \<exists>s m. c = FFin s m \<and> near 4 v (signed s m)) (od_hw_velocities h2) (od_hw_commands h)"
    by (simp only: r(2))
  with w r(1) show ?thesis by (intro exI conjI)
qed

text \<open>Rounding a double to a float costs half a unit in the 24th bit.\<close>

lemma fconv_binary32_near:
  assumes x: "near 2 x v" and v: "sized 120 v"
  obtains s m where "fconv binary32 x = FFin s m" "0 \<le> m"
    "\<bar>signed s m - v\<bar> \<le> ((1 + unit_roundoff) ^ 2 * (1 + pow2 (- 24)) - 1) * \<bar>v\<bar>"
proof -
  obtain s a where xa: "x = FFin s a" and a: "0 \<le> a"
    and e: "\<bar>signed s a - v\<bar> \<le> ((1 + unit_roundoff) ^ 2 - 1) * \<bar>v\<bar>"
    using x by (cases x) auto
  show ?thesis
  proof (cases "v = 0")
    case True
    then have "a = 0" using e by simp
    then show ?thesis using that [of s 0] by (simp add: xa True)
  next
    case False
    have u: "(1 + unit_roundoff) ^ 2 - 1 \<le> 1 / 2"
      by (simp add: unit_roundoff_def power_int_minus power2_eq_square)
    then have "((1 + unit_roundoff) ^ 2 - 1) * \<bar>v\<bar> \<le> 1 / 2 * \<bar>v\<bar>" by (rule mult_right_mono) simp
    then have d: "\<bar>signed s a - v\<bar> \<le> \<bar>v\<bar> / 2" using e by linarith
    have p: "pow2 (-120) = 2 * pow2 (-121)" "pow2 121 = 2 * pow2 120" "pow2 (-126) \<le> pow2 (-121)"
        "pow2 121 \<le> pow2 127"
      using pow2_add [of 1 "-121"] pow2_add [of 1 120] by simp_all
    have sz: "pow2 (-120) \<le> \<bar>v\<bar>" "\<bar>v\<bar> \<le> pow2 120" using v False by (auto simp: sized_def)
    have aa: "\<bar>signed s a\<bar> = a" using a by simp
    have lo: "pow2 (-126) \<le> a" and hi: "a \<le> pow2 127"
      using sz d p aa by linarith+
    have r: "\<bar>round_mag binary32 a - a\<bar> \<le> pow2 (- 24) * \<bar>signed s a\<bar>"
      using round_mag_rel_error [of binary32 a] lo aa by (simp add: mult.commute)
    have f: "fconv binary32 x = FFin s (round_mag binary32 a)"
      using fround_finite [of binary32 a s] a hi by (simp add: xa)
    have "signed s (round_mag binary32 a) - signed s a = signed s (round_mag binary32 a - a)"
      by (simp add: signed_def)
    then have "\<bar>signed s (round_mag binary32 a) - signed s a\<bar> \<le> pow2 (- 24) * \<bar>signed s a\<bar>" using r by simp
    from compose_error [OF e this] have "\<bar>signed s (round_mag binary32 a) - v\<bar> \<le>
        ((1 + ((1 + unit_roundoff) ^ 2 - 1)) * (1 + pow2 (- 24)) - 1) * \<bar>v\<bar>" by simp
    then show ?thesis using that [OF f] round_mag_nonneg [OF a] by simp
  qed
qed

text \<open>
  The conversions of \<open>write\<close> and \<open>read\<close> are inverse in value: a wheel whose ODrive reports back
  exactly the float it was sent is reported at the commanded velocity, with a relative error of at
  most \<open>2\<^sup>-\<^sup>2\<^sup>3\<close>, for either sign of the gear ratio.
\<close>

theorem drive_velocity_survives_the_loop:
  assumes c: "0 \<le> c" "sized 100 c" and g: "0 < g" "sized 10 g"
    and e: "est_velocity_turns_s e = fconv binary64 (fconv binary32 (motor_turns (FFin t g) (FFin s c)))"
  shows "\<exists>s' v. velocity_rad_s (drive_joint_state (FFin t g) e st) = FFin s' v \<and>
    \<bar>signed s' v - signed s c\<bar> \<le> pow2 (- 23) * c"
proof -
  let ?u = unit_roundoff and ?mt = "signed s c * signed t g / two_pi"
  have sz: "sized 113 ?mt"
    using c g two_pi_facts sized_div [OF sized_mult [of 100 "signed s c" 10 "signed t g"], of 3 two_pi] by simp
  have mt: "near 2 (motor_turns (FFin t g) (FFin s c)) ?mt"
    using c g sized_mono [of 100 c 900] sized_mono [of 10 g 100] by (intro motor_turns_near) auto
  obtain s1 m where w: "fconv binary32 (motor_turns (FFin t g) (FFin s c)) = FFin s1 m" "0 \<le> m"
    and d: "\<bar>signed s1 m - ?mt\<bar> \<le> ((1 + ?u) ^ 2 * (1 + pow2 (- 24)) - 1) * \<bar>?mt\<bar>"
    using fconv_binary32_near [OF mt] sz sized_mono [of 113 ?mt 120] by auto
  have est: "est_velocity_turns_s e = FFin s1 m"
  proof -
    have "fp_ok binary64 odesc_kTwoPi" by (simp add: odesc_kTwoPi_def fp_ok_intros)
    moreover have "fp_ok binary64 (fmul binary64 (FFin s c) (FFin t g))"
      using c(1) g(1) by (simp add: fround_ok del: fp_ok.simps)
    ultimately have "fp_ok binary32 (FFin s1 m)"
      unfolding w(1) [symmetric] motor_turns_def
      by (intro fp_ok_fconv [where F = binary64] fp_ok_fdiv wf_binary)
    then show ?thesis by (simp add: e w(1) fconv_widen del: fconv.simps)
  qed
  have "(1 + ?u) ^ 2 * (1 + pow2 (- 24)) - 1 \<le> 1 / 2"
    by (simp add: unit_roundoff_def power_int_minus power2_eq_square)
  then have "((1 + ?u) ^ 2 * (1 + pow2 (- 24)) - 1) * \<bar>?mt\<bar> \<le> 1 / 2 * \<bar>?mt\<bar>" by (rule mult_right_mono) simp
  from order_trans [OF d this] have d': "\<bar>signed s1 m - ?mt\<bar> \<le> \<bar>?mt\<bar> / 2" by simp
  have sm: "sized 950 (signed s1 m)"
    using sized_perturb [OF d' sz] sized_mono [of 114 "signed s1 m" 950] by simp
  let ?X = "signed s1 m * two_pi / signed t g"
  have "near 2 (fdiv binary64 (fmul binary64 (FFin s1 m) odesc_kTwoPi) (FFin t g)) ?X"
    using wheel_velocity_near [OF near_exact [OF w(2) refl, where k = 0], where g = g and t = t] sm g sized_mono [of 10 g 50]
    by (simp add: numeral_2_eq_2 del: near.simps)
  then obtain s' v where v: "velocity_rad_s (drive_joint_state (FFin t g) e st) = FFin s' v"
    "\<bar>signed s' v - ?X\<bar> \<le> ((1 + ?u) ^ 2 - 1) * \<bar>?X\<bar>"
    unfolding drive_joint_state_def est
    by (cases "fdiv binary64 (fmul binary64 (FFin s1 m) odesc_kTwoPi) (FFin t g)") auto
  have scale: "?X = signed s1 m * (two_pi / signed t g)" "signed s c = ?mt * (two_pi / signed t g)"
    using g(1) two_pi_facts(1) by simp_all
  have "\<bar>?X - signed s c\<bar> = \<bar>signed s1 m - ?mt\<bar> * \<bar>two_pi / signed t g\<bar>"
    by (metis scale left_diff_distrib abs_mult)
  also have "\<dots> \<le> ((1 + ?u) ^ 2 * (1 + pow2 (- 24)) - 1) * \<bar>?mt\<bar> * \<bar>two_pi / signed t g\<bar>"
    using d by (rule mult_right_mono) simp
  also have "\<dots> = ((1 + ?u) ^ 2 * (1 + pow2 (- 24)) - 1) * \<bar>signed s c\<bar>"
    by (metis scale(2) abs_mult mult.assoc)
  finally have "\<bar>signed s' v - signed s c\<bar> \<le>
      ((1 + ((1 + ?u) ^ 2 * (1 + pow2 (- 24)) - 1)) * (1 + ((1 + ?u) ^ 2 - 1)) - 1) * \<bar>signed s c\<bar>"
    using v(2) by (rule compose_error) (simp add: power2_eq_square algebra_simps)
  also have "\<dots> \<le> pow2 (- 23) * \<bar>signed s c\<bar>"
    by (rule mult_right_mono) (simp_all add: unit_roundoff_def power_int_minus power2_eq_square)
  finally show ?thesis using v(1) c(1) by auto
qed

subsection \<open>Initialisation and whole runs\<close>

text \<open>
  A configuration that \<open>on_init\<close> accepts: every joint has the one velocity command interface, both
  state interfaces and a node number between 0 and 63 that is the value of its parameter; the gear
  ratio is finite and not zero; the vectors have one element per joint and the backend is stopped.
\<close>

theorem odesc_on_init_checks_its_configuration:
  assumes "odesc_on_init base_ok info new_OdescSystemHardware = Done (CB_SUCCESS, h)"
  shows "od_joint_names h = map ji_name (hi_joints info) \<and>
    list_all2 (\<lambda>j n. n \<le> kMaxNodeId \<and> ji_command_interfaces j = [''velocity''] \<and>
      {''position'', ''velocity''} \<subseteq> set (ji_state_interfaces j) \<and>
      (\<exists>t. ji_parameters j ''node_id'' = Some t \<and> stoi t = Done (uint n)))
      (hi_joints info) (od_node_ids h) \<and>
    fisfinite (od_gear_ratio h) \<and> \<not> feq (od_gear_ratio h) fzero \<and> fp_ok binary64 (od_gear_ratio h) \<and>
    odesc_owns (live_fds k) h k \<and> odesc_stopped h"
  using assms
proof (rule odesc_on_init_success)
  fix ids g
  assume "length ids = length (hi_joints info)" "\<forall>n \<in> set ids. n \<le> kMaxNodeId"
    "list_all2 (\<lambda>j n. \<exists>t. ji_parameters j ''node_id'' = Some t \<and> stoi t = Done (uint n)) (hi_joints info) ids"
    "\<forall>j \<in> set (hi_joints info). ji_command_interfaces j = [HW_IF_VELOCITY] \<and>
      {HW_IF_POSITION, HW_IF_VELOCITY} \<subseteq> set (ji_state_interfaces j)"
  then have "list_all2 (\<lambda>j n. n \<le> kMaxNodeId \<and> ji_command_interfaces j = [''velocity''] \<and>
      {''position'', ''velocity''} \<subseteq> set (ji_state_interfaces j) \<and>
      (\<exists>t. ji_parameters j ''node_id'' = Some t \<and> stoi t = Done (uint n))) (hi_joints info) ids"
    by (auto simp: list_all2_conv_all_nth HW_IF_VELOCITY_def HW_IF_POSITION_def)
  moreover note odesc_on_init_owns [OF assms]
  moreover assume "\<not> feq g fzero" "fisfinite g" "fp_ok binary64 g" and h: "h = \<lparr>od_gear_ratio = g,
      od_joint_names = map ji_name (hi_joints info), od_node_ids = ids,
      od_hw_positions = replicate (length (hi_joints info)) fzero,
      od_hw_velocities = replicate (length (hi_joints info)) fzero,
      od_hw_commands = replicate (length (hi_joints info)) fzero,
      od_backend_states = replicate (length (hi_joints info)) zero_state,
      od_backend = Some (CreateDriveBackend \<lparr>
        dc_endpoint = (case hi_parameters info ''can_interface'' of None \<Rightarrow> ''can2'' | Some c \<Rightarrow> c),
        dc_joint_count = length (hi_joints info), dc_node_ids = ids, dc_gear_ratio = g\<rparr>)\<rparr>"
  ultimately show ?thesis by (simp del: fp_ok.simps)
qed

text \<open>
  C16: No sequence of callbacks, commands and received frames leads the initialised drivetrain plugin to
  undefined behaviour, an exception or \<open>std::terminate\<close>; its invariant holds after each, and whenever
  it is inactive the receive thread is stopped and every descriptor it opened is closed; and when the
  plugin is destroyed, at whatever point, no thread is left and every descriptor is closed.
\<close>

theorem odesc_plugin_never_goes_wrong:
  assumes "odesc_on_init base_ok info new_OdescSystemHardware = Done (CB_SUCCESS, h)"
  shows "\<exists>p. plugin_run odesc_callbacks es \<lparr>pl_phase = Inactive, pl_hw = h, pl_kernel = k\<rparr> = Done p \<and>
    odesc_owns (live_fds k) (pl_hw p) (pl_kernel p) \<and>
    (pl_phase p = Inactive \<longrightarrow> odesc_stopped (pl_hw p) \<and> live_fds (pl_kernel p) = live_fds k) \<and>
    (\<exists>k'. destroy_OdescSystemHardware (pl_hw p) (pl_kernel p) = Done k' \<and> live_fds k' = live_fds k)"
proof -
  let ?p = "\<lparr>pl_phase = Inactive, pl_hw = h, pl_kernel = k\<rparr>"
  have "odesc_plugin.ok (live_fds k) ?p"
    using odesc_on_init_owns [OF assms] by (simp add: odesc_plugin.ok_def)
  from odesc_plugin.run_ok [OF this, of es] obtain p where p: "plugin_run odesc_callbacks es ?p = Done p"
    "odesc_plugin.ok (live_fds k) p" by blast
  then show ?thesis
    using odesc_stopped_fds [of "live_fds k" "pl_hw p" "pl_kernel p"] odesc_destroy_releases
    by (auto simp: odesc_plugin.ok_def)
qed

text \<open>
  A shutdown after any history, failed calls included, stops the drivetrain's receive thread and
  releases every descriptor the plugin opened.
\<close>

theorem odesc_shutdown_releases_everything:
  assumes "odesc_on_init base_ok info new_OdescSystemHardware = Done (CB_SUCCESS, h)"
  shows "\<exists>p. plugin_run odesc_callbacks (es @ [Ev_Shutdown]) \<lparr>pl_phase = Inactive, pl_hw = h, pl_kernel = k\<rparr> = Done p \<and>
    pl_phase p = Finalized \<and> odesc_stopped (pl_hw p) \<and> live_fds (pl_kernel p) = live_fds k"
proof -
  let ?p = "\<lparr>pl_phase = Inactive, pl_hw = h, pl_kernel = k\<rparr>"
  have "odesc_plugin.ok (live_fds k) ?p"
    using odesc_on_init_owns [OF assms] by (simp add: odesc_plugin.ok_def)
  then obtain p where p: "plugin_run odesc_callbacks (es @ [Ev_Shutdown]) ?p = Done p" "pl_phase p = Finalized"
    "odesc_owns (live_fds k) (pl_hw p) (pl_kernel p)" "odesc_stopped (pl_hw p)"
    using odesc_plugin.shutdown_stops [of "live_fds k" ?p es] by metis
  then show ?thesis using odesc_stopped_fds by blast
qed

subsection \<open>The properties at concrete inputs\<close>

definition sample_joint :: "string \<Rightarrow> string \<Rightarrow> joint_info" where
  "sample_joint name node = \<lparr>ji_name = name, ji_command_interfaces = [''velocity''],
     ji_state_interfaces = [''position'', ''velocity''], ji_parameters = [''node_id'' \<mapsto> node]\<rparr>"

definition sample_info :: "string \<Rightarrow> hardware_info" where
  "sample_info endpoint = \<lparr>hi_parameters = [''can_interface'' \<mapsto> endpoint, ''gear_ratio'' \<mapsto> ''-12.5''],
     hi_joints = [sample_joint ''left'' ''3'', sample_joint ''right'' ''17'']\<rparr>"

definition sample_drive :: "DriveBackend \<Rightarrow> OdescSystemHardware" where
  "sample_drive b = \<lparr>od_gear_ratio = FFin True (25 / 2), od_joint_names = [''left'', ''right''],
     od_node_ids = [3, 17], od_hw_positions = [fzero, fzero], od_hw_velocities = [fzero, fzero],
     od_hw_commands = [fzero, fzero], od_backend_states = [zero_state, zero_state], od_backend = Some b\<rparr>"

definition sample_can :: "int \<Rightarrow> SocketCanDrive" where
  "sample_can fd = (new_SocketCanDrive ''can2'' [3, 17] (FFin True (25 / 2)))
     \<lparr>sd_fd := fd, sd_rx_joinable := 0 \<le> fd, sd_rx_running := 0 \<le> fd\<rparr>"

definition sample_kernel :: kernel where
  "sample_kernel = \<lparr>live_fds = [5], wire = [], n_writes = 0, write_ret = (\<lambda>_. 16)\<rparr>"

lemma replicate_eq_4: "replicate 4 x = [x, x, x, x]"
  by (simp add: numeral_eq_Suc)

lemma sample_init:
  "odesc_on_init True (sample_info ''can2'') new_OdescSystemHardware =
     Done (CB_SUCCESS, sample_drive (SocketCan_Drive (sample_can (-1))))"
  by code_simp

lemma odrive_frames_survive_the_bus_witness:
  "\<exists>f. transport_receive 5 \<lparr>poll_ret = 1, poll_eintr = False, poll_in = True, read_ret = 16,
      rx_frame = socket_frame (estimate_frame 3 (FFin False 1) (FFin True (1 / 2)))\<rparr> = (Some f, None) \<and>
    ParseArbitrationId (arbitration_id f) = \<lparr>node_id = 3, command_id = 9\<rparr> \<and>
    ParseEncoderEstimate f = Some \<lparr>position_turns = FFin False 1, velocity_turns_s = FFin True (1 / 2)\<rparr>"
proof (rule odrive_frames_survive_the_bus)
  show "fp_ok binary32 (FFin False 1)" "fp_ok binary32 (FFin True (1 / 2))" by code_simp+
qed (simp_all add: sizeof_can_frame_def kMaxNodeId_def)

lemma sample_active:
  "odesc_owns [] (sample_drive (SocketCan_Drive (sample_can 5))) sample_kernel"
  "writes_ok sample_kernel"
  by (simp_all add: odesc_owns_def sample_drive_def sample_can_def socketcan_drive_defs sample_kernel_def
     writes_ok_def sizeof_can_frame_def new_SocketCanDrive_def kMaxNodeId_def owns_def)

lemma drive_deactivate_idles_every_wheel_witness:
  "\<exists>h' k'. odesc_on_deactivate (sample_drive (SocketCan_Drive (sample_can 5))) sample_kernel =
      Done (CB_SUCCESS, h', k') \<and>
    wire k' = [\<lparr>can_id = 103, can_dlc = 4, can_data = [1, 0, 0, 0, 0, 0, 0, 0]\<rparr>,
               \<lparr>can_id = 551, can_dlc = 4, can_data = [1, 0, 0, 0, 0, 0, 0, 0]\<rparr>] \<and>
    live_fds k' = []"
  using drive_deactivate_idles_every_wheel [OF sample_active(1), of "sample_can 5"] sample_active(2)
  by (auto simp: sample_drive_def sample_can_def new_SocketCanDrive_def odrive_frame_def sample_kernel_def
      replicate_eq_4)

lemma drive_write_commands_every_wheel_witness:
  "\<exists>h' k'. odesc_write (sample_drive (SocketCan_Drive (sample_can 5))\<lparr>od_hw_commands := [FFin False two_pi, fzero]\<rparr>)
      sample_kernel = Done (RT_OK, h', k') \<and>
    wire k' = [\<lparr>can_id = 109, can_dlc = 8, can_data = [0, 0, 0x48, 0xC1, 0, 0, 0, 0]\<rparr>,
               \<lparr>can_id = 557, can_dlc = 8, can_data = [0, 0, 0, 0x80, 0, 0, 0, 0]\<rparr>]"
proof -
  let ?h = "sample_drive (SocketCan_Drive (sample_can 5))\<lparr>od_hw_commands := [FFin False two_pi, fzero]\<rparr>"
  have own: "odesc_owns [] ?h sample_kernel"
    using sample_active(1) by (simp add: odesc_owns_def sample_drive_def)
  have f: "odrive_frame 3 13 (le_bytes (encode32 (fconv binary32 (motor_turns (FFin True (25 / 2)) (FFin False two_pi)))) @ [0, 0, 0, 0])
      = \<lparr>can_id = 109, can_dlc = 8, can_data = [0, 0, 0x48, 0xC1, 0, 0, 0, 0]\<rparr>"
    "odrive_frame 17 13 (le_bytes (encode32 (fconv binary32 (motor_turns (FFin True (25 / 2)) fzero))) @ [0, 0, 0, 0])
      = \<lparr>can_id = 557, can_dlc = 8, can_data = [0, 0, 0, 0x80, 0, 0, 0, 0]\<rparr>"
    by code_simp+
  show ?thesis
    using drive_write_commands_every_wheel [OF own, of "sample_can 5"] sample_active(2) f
    by (auto simp: sample_drive_def sample_can_def new_SocketCanDrive_def sample_kernel_def)
qed

lemma drive_activate_reports_success_whatever_the_bus_does_witness:
  "\<exists>h' k'. odesc_on_activate \<lparr>socket_ret = 5, if_index = (\<lambda>_. Some 2), bind_ret = (\<lambda>_. 0)\<rparr>
      (sample_drive (SocketCan_Drive (sample_can (-1)))) (sample_kernel\<lparr>live_fds := [], write_ret := (\<lambda>_. -1)\<rparr>) =
      Done (CB_SUCCESS, h', k') \<and> wire k' = []"
proof -
  let ?k = "sample_kernel\<lparr>live_fds := [], write_ret := (\<lambda>_. -1)\<rparr>"
  have own: "odesc_owns [] (sample_drive (SocketCan_Drive (sample_can (-1)))) ?k"
    using odesc_on_init_owns(1) [OF sample_init, of ?k] by (simp add: sample_kernel_def)
  show ?thesis
    using drive_activate_reports_success_whatever_the_bus_does [OF own, of "sample_can (-1)"]
    by (simp add: sample_drive_def sample_can_def new_SocketCanDrive_def sample_kernel_def)
qed

definition sample_rx :: "Frame \<Rightarrow> rx_calls" where
  "sample_rx f = \<lparr>poll_ret = 1, poll_eintr = False, poll_in = True, read_ret = 16, rx_frame = socket_frame f\<rparr>"


lemma mock_drive_reports_the_commanded_velocities_witness:
  "\<exists>h1 k1 h2. odesc_write (sample_drive (Mock_Drive (new_MockDrive 2 (FFin True (25 / 2)) ''mock''))
       \<lparr>od_hw_commands := [FFin False 3, FFin True (1 / 2)]\<rparr>) sample_kernel = Done (RT_OK, h1, k1) \<and>
    odesc_read (FFin False (1 / 64)) h1 = Done (RT_OK, h2) \<and>
    list_all2 (\<lambda>v c. \<exists>s m. c = FFin s m \<and> near 4 v (signed s m)) (od_hw_velocities h2)
      [FFin False 3, FFin True (1 / 2)]"
proof -
  let ?b = "new_MockDrive 2 (FFin True (25 / 2)) ''mock''"
  let ?h = "sample_drive (Mock_Drive ?b)\<lparr>od_hw_commands := [FFin False 3, FFin True (1 / 2)]\<rparr>"
  have own: "odesc_owns [5] ?h sample_kernel"
    by (simp add: odesc_owns_def sample_drive_def mock_drive_owns_def mock_drive_inv_def mock_drive_width_def
        new_MockDrive_def sample_kernel_def)
  have cmds: "od_hw_commands ?h = [FFin False 3, FFin True (1 / 2)]" by simp
  have sz: "sized 50 (25 / 2)" "sized 800 3" "sized 800 (1 / 2)" by (simp_all add: sized_def power_int_minus)
  have "\<exists>s m. FFin False 3 = FFin s m \<and> 0 \<le> m \<and> sized 800 m"
    by (rule exI [of _ False], rule exI [of _ 3]) (use sz in simp)
  moreover have "\<exists>s m. FFin True (1 / 2) = FFin s m \<and> 0 \<le> m \<and> sized 800 m"
    by (rule exI [of _ True], rule exI [of _ "1 / 2"]) (use sz in simp)
  ultimately have cs: "\<forall>c \<in> set (od_hw_commands ?h). \<exists>s m. c = FFin s m \<and> 0 \<le> m \<and> sized 800 m"
    unfolding cmds by (simp only: list.set ball_simps simp_thms)
  have "\<exists>h1 k1 h2. odesc_write ?h sample_kernel = Done (RT_OK, h1, k1) \<and>
    odesc_read (FFin False (1 / 64)) h1 = Done (RT_OK, h2) \<and>
    list_all2 (\<lambda>v c. \<exists>s m. c = FFin s m \<and> near 4 v (signed s m)) (od_hw_velocities h2) (od_hw_commands ?h)"
    by (rule mock_drive_reports_the_commanded_velocities [where b = ?b and g = "25 / 2" and t = True, OF own _ _ _ _ cs])
      (use sz in \<open>simp_all add: sample_drive_def new_MockDrive_def\<close>)
  then show ?thesis by (simp only: cmds)
qed

lemma drive_velocity_survives_the_loop_witness:
  "\<exists>s' v. velocity_rad_s (drive_joint_state (FFin True 48)
      \<lparr>est_position_turns = fzero, est_velocity_turns_s =
         fconv binary64 (fconv binary32 (motor_turns (FFin True 48) (FFin False 3)))\<rparr> zero_state) = FFin s' v \<and>
    \<bar>signed s' v - signed False 3\<bar> \<le> pow2 (- 23) * 3"
  by (rule drive_velocity_survives_the_loop) (simp_all add: sized_def power_int_minus)

lemma odesc_on_init_checks_its_configuration_witness:
  "od_node_ids (sample_drive (SocketCan_Drive (sample_can (-1)))) = [3, 17] \<and>
   odesc_stopped (sample_drive (SocketCan_Drive (sample_can (-1))))"
  using odesc_on_init_checks_its_configuration [OF sample_init]
  by (auto simp: sample_drive_def sample_info_def sample_joint_def)

lemma odesc_plugin_never_goes_wrong_witness:
  "\<exists>p. plugin_run odesc_callbacks
      [Ev_Activate \<lparr>socket_ret = 9, if_index = (\<lambda>_. Some 2), bind_ret = (\<lambda>_. 0)\<rparr>, Ev_Command 1 (FFin False 2),
       Ev_Write, Ev_Read fzero, Ev_Deactivate]
      \<lparr>pl_phase = Inactive, pl_hw = sample_drive (SocketCan_Drive (sample_can (-1))), pl_kernel = sample_kernel\<rparr> = Done p \<and>
    odesc_owns (live_fds sample_kernel) (pl_hw p) (pl_kernel p)"
  using odesc_plugin_never_goes_wrong [OF sample_init] by blast

lemma odesc_shutdown_releases_everything_witness:
  "\<exists>p. plugin_run odesc_callbacks
      ([Ev_Activate \<lparr>socket_ret = 9, if_index = (\<lambda>_. Some 2), bind_ret = (\<lambda>_. 0)\<rparr>, Ev_Write] @ [Ev_Shutdown])
      \<lparr>pl_phase = Inactive, pl_hw = sample_drive (SocketCan_Drive (sample_can (-1))), pl_kernel = sample_kernel\<rparr> = Done p \<and>
    live_fds (pl_kernel p) = [5]"
  using odesc_shutdown_releases_everything [OF sample_init, of _ sample_kernel] by (fastforce simp: sample_kernel_def)

end
