(* ===== verification/Pxx_Dialogue.thy ===== *)
theory Pxx_Dialogue
  imports Pxx_Backend "HOL-Library.Sublist"
begin

section \<open>The configuration dialogue of the arm's backend\<close>

text \<open>
  Lemmas on \<open>sdo\_transaction\<close>, \<open>configure\_node\<close> and \<open>activate\<close>: an SDO transaction succeeds only on a
  matching response that was received while it waited, and the frames a configuration sends are a
  prefix of one fixed script, all of it when the configuration succeeds.
\<close>

subsection \<open>Where a response comes from\<close>

text \<open>A receive attempt on descriptor \<open>fd\<close> that delivers an SDO response.\<close>

definition delivers :: "int \<Rightarrow> rx_calls \<Rightarrow> SdoResponse \<Rightarrow> bool" where
  "delivers fd c r \<longleftrightarrow> (\<exists>f. fst (pxx_receive fd c) = Some f \<and> ParseSdoResponse f = Some r)"

lemma motor_rx_frame_response:
  "sm_sdo_response (motor_rx_frame f b) = Some r \<Longrightarrow>
   ParseSdoResponse f = Some r \<or> sm_sdo_response b = Some r"
  by (auto simp: motor_rx_frame_def update_feedback_def split: option.splits)

lemma motor_rx_turn_response:
  "sm_sdo_response (motor_rx_turn c b) = Some r \<Longrightarrow>
   delivers (sm_fd b) c r \<or> sm_sdo_response b = Some r"
  by (auto simp: motor_rx_turn_def delivers_def split: if_splits option.splits dest: motor_rx_frame_response)

lemma rx_of_simps [simp]:
  "rx_of [] = []" "rx_of (W_Rx c # es) = c # rx_of es" "rx_of (W_Wake # es) = rx_of es"
  by (simp_all add: rx_of_def map_filter_simps)

lemma sdo_wait_response:
  "sdo_wait a es b = (r, b', later) \<Longrightarrow> sm_sdo_response b' = Some x \<Longrightarrow>
   sm_sdo_response b = Some x \<or> (\<exists>c \<in> set (rx_of es). delivers (sm_fd b) c x)"
proof (induction a es b rule: sdo_wait.induct)
  case (2 a c es b)
  have "sm_fd (motor_rx_turn c b) = sm_fd b"
    using same_link_rx_turn [of b c] by (simp add: same_link_def)
  with 2 show ?case by (auto dest: motor_rx_turn_response)
qed (auto split: if_splits)

lemma sdo_wait_answered: "sdo_wait a es b = (True, b', later) \<Longrightarrow> a (sm_sdo_response b')"
  by (induction a es b rule: sdo_wait.induct) (auto split: if_splits)

text \<open>A matching response that is received last before the timeout is seen.\<close>

lemma motor_rx_frame_sdo:
  assumes "ParseSdoResponse f = Some r"
  shows "motor_rx_frame f b = b\<lparr>sm_sdo_response := Some r\<rparr>"
proof -
  have "p_arbitration_id f AND 0x780 = 0x580" by (rule parsers_function(4) [OF assms])
  then show ?thesis
    using assms parsers_function(1,2,3) [of f]
    by (auto simp: motor_rx_frame_def split: option.splits)
qed

lemma sdo_wait_last_answer:
  assumes "sdo_wait (sdo_answered node index subindex) (es @ [W_Rx c]) b = (answered, b', later)"
    "sm_rx_running b" "fst (pxx_receive (sm_fd b) c) = Some (sdo_answer spec node index subindex v)"
    "node \<le> pxx_kMaxNodeId"
  shows answered
  using assms(1-3)
proof (induction es arbitrary: b)
  case Nil
  then show ?case
    using motor_rx_frame_sdo [OF ParseSdoResponse_answer [OF assms(4)]]
    by (simp add: motor_rx_turn_def sdo_answered_def)
next
  case (Cons e es)
  show ?case
  proof (cases e)
    case (W_Rx d)
    have "sm_fd (motor_rx_turn d b) = sm_fd b" "sm_rx_running (motor_rx_turn d b)"
      using same_link_rx_turn [of b d] Cons.prems(2) by (simp_all add: same_link_def)
    then show ?thesis using Cons.IH [of "motor_rx_turn d b"] Cons.prems by (simp add: W_Rx)
  next
    case W_Wake
    then show ?thesis using Cons by (auto split: if_splits)
  qed
qed

subsection \<open>What a transaction needs to succeed\<close>

text \<open>In some slot of the schedule, the node answered for the object, without an abort, with a value.\<close>

definition reports :: "motor_env \<Rightarrow> u8 \<Rightarrow> u16 \<Rightarrow> u8 \<Rightarrow> u32 \<Rightarrow> bool" where
  "reports s node index subindex v \<longleftrightarrow> (\<exists>slot \<in> set (me_slots s). \<exists>c \<in> set (rx_of (slot_during slot)).
     delivers (sm_fd (me_backend s)) c \<lparr>sr_node_id = node, sr_index = index, sr_subindex = subindex,
       sr_aborted = False, sr_value = v\<rparr>)"

text \<open>\<open>s'\<close> comes after \<open>s\<close>, with the frames \<open>fs\<close> sent in between.\<close>

definition sent :: "motor_env \<Rightarrow> PFrame list \<Rightarrow> motor_env \<Rightarrow> bool" where
  "sent s fs s' \<longleftrightarrow> wire (me_kernel s') = wire (me_kernel s) @ map pxx_socket_frame fs \<and>
     sm_fd (me_backend s') = sm_fd (me_backend s) \<and> set (me_slots s') \<subseteq> set (me_slots s)"

lemma sent_refl [simp]: "sent s [] s"
  by (simp add: sent_def)

lemma sent_trans: "sent s fs s1 \<Longrightarrow> sent s1 gs s2 \<Longrightarrow> sent s (fs @ gs) s2"
  by (auto simp: sent_def)

lemma reports_earlier: "reports s' n i sub v \<Longrightarrow> sent s fs s' \<Longrightarrow> reports s n i sub v"
  by (auto simp: reports_def sent_def)

lemma pxx_send_wire:
  "pxx_send fd f k = ((ok, e), k') \<Longrightarrow>
   wire k' = wire k @ (if ok then [pxx_socket_frame f] else [])"
  by (auto simp: pxx_send_def sys_write_def Let_def split: if_splits)

lemma set_tl: "set (tl xs) \<subseteq> set xs"
  by (cases xs) auto

lemma same_env_fd: "same_env s s' \<Longrightarrow> sm_fd (me_backend s') = sm_fd (me_backend s)"
  by (simp add: same_env_def same_link_def)

lemma sdo_transaction_sent:
  assumes t: "sdo_transaction request s = (((ok, e), v), s')"
  shows "\<exists>fs. sent s fs s' \<and> prefix fs [request] \<and> (ok \<longrightarrow> fs = [request])"
  using t
proof (cases rule: sdo_transaction_cases)
  case (failed b0 k)
  then show ?thesis
    using pxx_send_wire [OF failed(2)] same_env_fd [OF same_env_transaction [OF t]] set_tl [of "me_slots s"]
    by (intro exI [of _ "[]"]) (simp add: sent_def)
next
  case (waited b0 k e0 answered b1 later)
  then show ?thesis
    using pxx_send_wire [OF waited(2)] same_env_fd [OF same_env_transaction [OF t]] set_tl [of "me_slots s"]
    by (intro exI [of _ "[request]"]) (simp add: sent_def)
qed

lemma sdo_transaction_sound:
  assumes t: "sdo_transaction request s = (((True, e), v), s')"
  shows "\<exists>x. v = Some x \<and> e = None \<and> reports s (ucast (p_arbitration_id request AND cob_kNodeMask))
    (ucast (p_data request ! 1) OR push_bit 8 (ucast (p_data request ! 2))) (p_data request ! 3) x"
  using t
proof (cases rule: sdo_transaction_cases)
  case (waited b0 k e0 answered b1 later)
  let ?n = "ucast (p_arbitration_id request AND cob_kNodeMask) :: u8"
  let ?i = "ucast (p_data request ! 1) OR push_bit 8 (ucast (p_data request ! 2)) :: u16"
  obtain r where r: "sm_sdo_response b1 = Some r" "\<not> sr_aborted r" and ans: "answered"
    using waited(5) by auto
  have "sdo_answered ?n ?i (p_data request ! 3) (Some r)"
    using sdo_wait_answered waited(3) ans r(1) by metis
  then have m: "sr_node_id r = ?n" "sr_index r = ?i" "sr_subindex r = p_data request ! 3"
    by (simp_all add: sdo_answered_def)
  have fd: "sm_fd b0 = sm_fd (me_backend s)"
    using same_link_rx_loop [of "me_backend s" "slot_before (next_slot s)"]
    by (simp add: waited(1) same_link_def)
  have none: "sm_sdo_response b0 = None" by (simp add: waited(1))
  obtain c where c: "c \<in> set (rx_of (slot_during (next_slot s)))" "delivers (sm_fd (me_backend s)) c r"
    using sdo_wait_response [OF waited(3) r(1)] none unfolding fd by auto
  have "next_slot s \<in> set (me_slots s)"
    using c(1) by (auto simp: next_slot_def no_traffic_def split: list.splits)
  moreover have "r = \<lparr>sr_node_id = ?n, sr_index = ?i, sr_subindex = p_data request ! 3, sr_aborted = False,
      sr_value = sr_value r\<rparr>"
    using m r(2) by (cases r) simp
  ultimately have "reports s ?n ?i (p_data request ! 3) (sr_value r)"
    using c unfolding reports_def by metis
  then show ?thesis using waited(6,7) r by simp
qed simp

lemma request_fields:
  fixes index :: u16
  assumes node: "node \<le> pxx_kMaxNodeId" and f: "p_arbitration_id f = 0x600 + ucast node"
    "p_data f = [a, byte_of 0 (ucast index), byte_of 1 (ucast index), subindex, b, c, d, e]"
  shows "ucast (p_arbitration_id f AND cob_kNodeMask) = node \<and>
    ucast (p_data f ! 1) OR push_bit 8 (ucast (p_data f ! 2)) = index \<and> p_data f ! 3 = subindex"
proof -
  have "ucast (byte_of 0 (ucast index)) OR push_bit 8 (ucast (byte_of 1 (ucast index))) = (index :: u16)"
    (is "?l = _")
  proof (rule bit_word_eqI)
    fix n :: nat
    assume "n < LENGTH(16)"
    then consider "n < 8" | "8 \<le> n" "n < 16" by fastforce
    then show "bit ?l n \<longleftrightarrow> bit index n" by cases (auto simp: bit_simps bit_byte_of)
  qed
  then show ?thesis
    using node_of_identifier(1) [OF node, of "0x600"] by (simp add: f)
qed

lemma write_request_fields:
  assumes "node \<le> pxx_kMaxNodeId" "b \<in> {1, 2, 4}"
  shows "ucast (p_arbitration_id (MakeSdoWriteFrame node index subindex v b) AND cob_kNodeMask) = node \<and>
    ucast (p_data (MakeSdoWriteFrame node index subindex v b) ! 1) OR
      push_bit 8 (ucast (p_data (MakeSdoWriteFrame node index subindex v b) ! 2)) = index \<and>
    p_data (MakeSdoWriteFrame node index subindex v b) ! 3 = subindex"
proof -
  have "b = 1 \<or> b = 2 \<or> b = 4" using assms(2) by simp
  then show ?thesis
    by (elim disjE) (rule request_fields [OF assms(1)]; simp only: MakeSdoWriteFrame_eq PFrame.simps)+
qed

lemma read_request_fields:
  assumes "node \<le> pxx_kMaxNodeId"
  shows "ucast (p_arbitration_id (MakeSdoReadFrame node index subindex) AND cob_kNodeMask) = node \<and>
    ucast (p_data (MakeSdoReadFrame node index subindex) ! 1) OR
      push_bit 8 (ucast (p_data (MakeSdoReadFrame node index subindex) ! 2)) = index \<and>
    p_data (MakeSdoReadFrame node index subindex) ! 3 = subindex"
  by (rule request_fields [OF assms]; simp only: MakeSdoReadFrame_eq PFrame.simps)

lemma sdo_write_sound:
  assumes n: "node \<le> pxx_kMaxNodeId" "b \<in> {1, 2, 4}" and w: "sdo_write node index subindex v b s = ((True, e), s')"
  shows "\<exists>x. reports s node index subindex x"
proof -
  obtain r where "sdo_transaction (MakeSdoWriteFrame node index subindex v b) s = (((True, e), r), s')"
    using w by (auto simp: sdo_write_def split: prod.splits)
  from sdo_transaction_sound [OF this] show ?thesis
    unfolding write_request_fields [OF n, THEN conjunct1]
      write_request_fields [OF n, THEN conjunct2, THEN conjunct1]
      write_request_fields [OF n, THEN conjunct2, THEN conjunct2] by blast
qed

lemma sdo_read_sound:
  assumes n: "node \<le> pxx_kMaxNodeId" and rd: "sdo_read node index subindex v0 s = (((True, e), v), s')"
  shows "reports s node index subindex v"
proof -
  obtain r where t: "sdo_transaction (MakeSdoReadFrame node index subindex) s = (((True, e), r), s')"
    and v: "v = (case r of None \<Rightarrow> v0 | Some v' \<Rightarrow> v')"
    using rd by (auto simp: sdo_read_def split: prod.splits)
  from sdo_transaction_sound [OF t] obtain x where "r = Some x" "reports s node index subindex x"
    unfolding read_request_fields [OF n, THEN conjunct1]
      read_request_fields [OF n, THEN conjunct2, THEN conjunct1]
      read_request_fields [OF n, THEN conjunct2, THEN conjunct2] by blast
  then show ?thesis using v by simp
qed

subsection \<open>The script of a configuration\<close>

text \<open>
  \<open>emits f xs zs\<close>: an operation that succeeds has sent exactly \<open>xs\<close>, one that fails a prefix of
  \<open>xs @ zs\<close>.
\<close>

definition emits :: "(motor_env \<Rightarrow> status \<times> motor_env) \<Rightarrow> PFrame list \<Rightarrow> PFrame list \<Rightarrow> bool" where
  "emits f xs zs \<longleftrightarrow> (\<forall>s ok e s'. f s = ((ok, e), s') \<longrightarrow>
     (\<exists>ys. sent s ys s' \<and> prefix ys (xs @ zs) \<and> (ok \<longrightarrow> ys = xs)))"

lemma emitsD: "emits f xs zs \<Longrightarrow> f s = ((ok, e), s') \<Longrightarrow>
    \<exists>ys. sent s ys s' \<and> prefix ys (xs @ zs) \<and> (ok \<longrightarrow> ys = xs)"
  by (simp add: emits_def)

lemma emits_and_also:
  assumes a: "emits a xs []" and b: "emits b ys zs"
  shows "emits (and_also a b) (xs @ ys) zs"
  unfolding emits_def
proof (intro allI impI)
  fix s ok e s'
  assume ab: "and_also a b s = ((ok, e), s')"
  obtain ok1 e1 s1 where s1: "a s = ((ok1, e1), s1)" by (metis surj_pair)
  from emitsD [OF a s1] obtain us where us: "sent s us s1" "prefix us xs" "ok1 \<longrightarrow> us = xs" by auto
  show "\<exists>us. sent s us s' \<and> prefix us ((xs @ ys) @ zs) \<and> (ok \<longrightarrow> us = xs @ ys)"
  proof (cases ok1)
    case False
    then show ?thesis using ab s1 us by (auto simp: and_also_def intro: prefix_prefix)
  next
    case True
    then have "b s1 = ((ok, e), s')" using ab s1 by (simp add: and_also_def)
    from emitsD [OF b this] obtain vs where "sent s1 vs s'" "prefix vs (ys @ zs)" "ok \<longrightarrow> vs = ys" by auto
    then show ?thesis using sent_trans [OF us(1)] us(3) True by (intro exI [of _ "us @ vs"]) auto
  qed
qed

lemma emits_send: "emits (motor_send f) [f] []"
  unfolding emits_def
proof (intro allI impI)
  fix s ok e s'
  assume m: "motor_send f s = ((ok, e), s')"
  then obtain k where k: "pxx_send (sm_fd (me_backend s)) f (me_kernel s) = ((ok, e), k)" "s' = s\<lparr>me_kernel := k\<rparr>"
    by (auto simp: motor_send_def split: prod.splits)
  show "\<exists>ys. sent s ys s' \<and> prefix ys ([f] @ []) \<and> (ok \<longrightarrow> ys = [f])"
    using pxx_send_wire [OF k(1)] k(2) by (intro exI [of _ "if ok then [f] else []"]) (simp add: sent_def)
qed

lemma emits_sdo_write: "emits (sdo_write n i sub v b) [MakeSdoWriteFrame n i sub v b] []"
  unfolding emits_def using sdo_transaction_sent [of "MakeSdoWriteFrame n i sub v b"]
  by (fastforce simp: sdo_write_def split: prod.splits)

lemma sdo_read_sent:
  "sdo_read n i sub v s = (((ok, e), x), s') \<Longrightarrow>
   \<exists>fs. sent s fs s' \<and> prefix fs [MakeSdoReadFrame n i sub] \<and> (ok \<longrightarrow> fs = [MakeSdoReadFrame n i sub])"
  using sdo_transaction_sent [of "MakeSdoReadFrame n i sub"]
  by (fastforce simp: sdo_read_def split: prod.splits)

definition write_frame :: "u8 \<Rightarrow> u16 \<times> u8 \<times> u32 \<times> u8 \<Rightarrow> PFrame" where
  "write_frame n w = (case w of (i, sub, v, b) \<Rightarrow> MakeSdoWriteFrame n i sub v b)"

lemma emits_sdo_writes: "emits (sdo_writes n ws) (map (write_frame n) ws) []"
proof (induction ws)
  case (Cons w ws)
  obtain i sub v b where w: "w = (i, sub, v, b)" by (cases w)
  have "sdo_writes n (w # ws) = and_also (sdo_write n i sub v b) (sdo_writes n ws)"
    by (rule ext) (simp add: w)
  then show ?case
    using emits_and_also [OF emits_sdo_write Cons] by (simp add: w write_frame_def)
qed (simp add: emits_def)

lemma emits_seed: "emits (seed_position n p) [] []"
  by (auto simp: emits_def seed_position_def sent_def update_feedback_def)

text \<open>The frames of a whole configuration; \<open>p\<close> is the position that the drive reports.\<close>

definition enable_script :: "u8 \<Rightarrow> PFrame list" where
  "enable_script n = [MakeNmtFrame kStart n,
     MakeSdoWriteFrame n obj_kControlWord 0 6 2, MakeSdoWriteFrame n obj_kControlWord 0 7 2,
     MakeSdoWriteFrame n obj_kControlWord 0 15 2, MakeSdoReadFrame n obj_kStatusWord 0]"

definition setup_script :: "u8 \<Rightarrow> PFrame list" where
  "setup_script n = MakeNmtFrame kEnterPreOperational n # map (write_frame n) (pdo_configuration n) @
     [MakeSdoReadFrame n obj_kPositionActual 0]"

definition configure_script :: "u8 \<Rightarrow> u32 \<Rightarrow> PFrame list" where
  "configure_script n p = setup_script n @ [MakeSdoWriteFrame n obj_kTargetPosition 0 p 4] @ enable_script n"

definition error_read :: "u8 \<Rightarrow> PFrame list" where
  "error_read n = [MakeSdoReadFrame n obj_kErrorCode 0]"

definition enabled_word :: "u32 \<Rightarrow> bool" where
  "enabled_word w \<longleftrightarrow> w AND 8 = 0 \<and> w AND 4 \<noteq> 0"

lemma check_enabled_sent:
  assumes c: "check_enabled n s = ((ok, e), s')" and n: "n \<le> pxx_kMaxNodeId"
  shows "\<exists>ys. sent s ys s' \<and> prefix ys ([MakeSdoReadFrame n obj_kStatusWord 0] @ error_read n) \<and>
    (ok \<longrightarrow> ys = [MakeSdoReadFrame n obj_kStatusWord 0] \<and>
      (\<exists>w. reports s n obj_kStatusWord 0 w \<and> enabled_word w))"
proof -
  let ?r = "MakeSdoReadFrame n obj_kStatusWord 0"
  obtain ok1 e1 w s1 where r: "sdo_read n obj_kStatusWord 0 0 s = (((ok1, e1), w), s1)" by (metis surj_pair)
  from sdo_read_sent [OF r] obtain us where us: "sent s us s1" "prefix us [?r]" "ok1 \<longrightarrow> us = [?r]" by blast
  consider "\<not> ok1" | "ok1" "w AND 8 \<noteq> 0 \<or> w AND 4 = 0" | "ok1" "enabled_word w"
    by (auto simp: enabled_word_def)
  then show ?thesis
  proof cases
    case 1
    then show ?thesis
      using c r us prefix_prefix [OF us(2), of "error_read n"]
      by (intro exI [of _ us]) (auto simp: check_enabled_def Let_def)
  next
    case 2
    obtain st x s2 where r2: "sdo_read n obj_kErrorCode 0 0 s1 = ((st, x), s2)" by (metis surj_pair)
    obtain ok2 e2 where st: "st = (ok2, e2)" by (cases st)
    from sdo_read_sent [OF r2 [unfolded st]] obtain vs where vs: "sent s1 vs s2" "prefix vs (error_read n)"
      unfolding error_read_def by blast
    have cc: "\<not> ok" "s' = s2"
      using c r r2 2 by (auto simp: check_enabled_def Let_def del: iffI split: if_splits)
    show ?thesis
      using sent_trans [OF us(1) vs(1)] us(3) 2(1) vs(2) cc by (intro exI [of _ "us @ vs"]) simp
  next
    case 3
    then have "ok" "s' = s1"
      using c r by (auto simp: check_enabled_def Let_def enabled_word_def)
    then show ?thesis
      using us 3 sdo_read_sound [OF n, of obj_kStatusWord 0 0 s e1 w s1] r
      by (intro exI [of _ us]) (auto intro: prefix_prefix)
  qed
qed

lemma enable_drive_sent:
  assumes c: "enable_drive n s = ((ok, e), s')" and n: "n \<le> pxx_kMaxNodeId"
  shows "\<exists>ys. sent s ys s' \<and> prefix ys (enable_script n @ error_read n) \<and>
    (ok \<longrightarrow> ys = enable_script n \<and> (\<exists>w. reports s n obj_kStatusWord 0 w \<and> enabled_word w))"
proof -
  let ?a = "and_also (motor_send (MakeNmtFrame kStart n))
     (and_also (sdo_write n obj_kControlWord 0 6 2) (and_also (sdo_write n obj_kControlWord 0 7 2)
     (sdo_write n obj_kControlWord 0 15 2)))"
  let ?xs = "[MakeNmtFrame kStart n, MakeSdoWriteFrame n obj_kControlWord 0 6 2,
    MakeSdoWriteFrame n obj_kControlWord 0 7 2, MakeSdoWriteFrame n obj_kControlWord 0 15 2]"
  have assoc: "enable_drive n s = and_also ?a (check_enabled n) s"
    by (simp add: enable_drive_def and_also_def split: prod.split)
  have em: "emits ?a ?xs []"
    using emits_and_also [OF emits_send [of "MakeNmtFrame kStart n"] emits_and_also [OF
      emits_sdo_write [of n obj_kControlWord 0 6 2] emits_and_also [OF
      emits_sdo_write [of n obj_kControlWord 0 7 2] emits_sdo_write [of n obj_kControlWord 0 15 2]]]] by simp
  obtain ok1 e1 s1 where s1: "?a s = ((ok1, e1), s1)" by (metis surj_pair)
  from emitsD [OF em s1] obtain us where us: "sent s us s1" "prefix us ?xs" "ok1 \<longrightarrow> us = ?xs" by auto
  have scr: "enable_script n @ error_read n = ?xs @ ([MakeSdoReadFrame n obj_kStatusWord 0] @ error_read n)"
    by (simp add: enable_script_def)
  show ?thesis
  proof (cases ok1)
    case False
    then have "\<not> ok" "s' = s1" using c s1 unfolding assoc by (simp_all add: and_also_def)
    then show ?thesis
      using us(1) prefix_prefix [OF us(2)] unfolding scr by (intro exI [of _ us] conjI) simp_all
  next
    case True
    then have "check_enabled n s1 = ((ok, e), s')" using c s1 unfolding assoc by (simp add: and_also_def)
    from check_enabled_sent [OF this n] obtain vs where vs: "sent s1 vs s'"
      "prefix vs ([MakeSdoReadFrame n obj_kStatusWord 0] @ error_read n)"
      "ok \<longrightarrow> vs = [MakeSdoReadFrame n obj_kStatusWord 0] \<and> (\<exists>w. reports s1 n obj_kStatusWord 0 w \<and> enabled_word w)"
      by blast
    then show ?thesis
      using sent_trans [OF us(1) vs(1)] us(3) True unfolding scr
      by (intro exI [of _ "us @ vs"]) (auto simp: enable_script_def dest: reports_earlier [OF _ us(1)])
  qed
qed

text \<open>
  Everything up to the question for the position is the same in every run; what follows happens
  only when the drive has answered it.
\<close>

lemma hold_position_sent:
  assumes c: "hold_position n s = ((ok, e), s')" and n: "n \<le> pxx_kMaxNodeId"
  shows "\<exists>p ys. sent s ys s' \<and>
    prefix ys (MakeSdoReadFrame n obj_kPositionActual 0 # MakeSdoWriteFrame n obj_kTargetPosition 0 p 4 #
      enable_script n @ error_read n) \<and>
    (1 < length ys \<longrightarrow> reports s n obj_kPositionActual 0 p) \<and>
    (ok \<longrightarrow> ys = MakeSdoReadFrame n obj_kPositionActual 0 # MakeSdoWriteFrame n obj_kTargetPosition 0 p 4 #
      enable_script n \<and> reports s n obj_kPositionActual 0 p \<and>
      (\<exists>w. reports s n obj_kStatusWord 0 w \<and> enabled_word w))"
proof -
  let ?r = "MakeSdoReadFrame n obj_kPositionActual 0"
  obtain ok1 e1 p s1 where r: "sdo_read n obj_kPositionActual 0 0 s = (((ok1, e1), p), s1)" by (metis surj_pair)
  let ?w = "MakeSdoWriteFrame n obj_kTargetPosition 0 p 4"
  from sdo_read_sent [OF r] obtain us where us: "sent s us s1" "prefix us [?r]" "ok1 \<longrightarrow> us = [?r]" by blast
  show ?thesis
  proof (cases ok1)
    case False
    have "prefix us ([?r] @ ?w # enable_script n @ error_read n)" "length us \<le> 1"
      using prefix_prefix [OF us(2)] prefix_length_le [OF us(2)] by simp_all
    moreover have "\<not> ok" "s' = s1" using c r False by (simp_all add: hold_position_def)
    ultimately show ?thesis using us(1) by (intro exI [of _ p] exI [of _ us]) simp
  next
    case True
    have rep: "reports s n obj_kPositionActual 0 p" using sdo_read_sound [OF n, of _ _ _ s e1] r True by simp
    let ?a = "and_also (sdo_write n obj_kTargetPosition 0 p 4) (seed_position n p)"
    have em: "emits ?a [?w] []" using emits_and_also [OF emits_sdo_write emits_seed] by simp
    obtain ok2 e2 s2 where s2: "?a s1 = ((ok2, e2), s2)" by (metis surj_pair)
    from emitsD [OF em s2] obtain vs where vs: "sent s1 vs s2" "prefix vs [?w]" "ok2 \<longrightarrow> vs = [?w]" by auto
    have cc: "(if ok2 then enable_drive n s2 else ((False, e2), s2)) = ((ok, e), s')"
      using c r True s2 by (auto simp: hold_position_def and_also_def split: prod.splits if_splits)
    have us1: "us = [?r]" using us(3) True by simp
    show ?thesis
    proof (cases ok2)
      case False
      have "prefix vs ([?w] @ enable_script n @ error_read n)" using prefix_prefix [OF vs(2)] .
      then show ?thesis
        using cc False sent_trans [OF us(1) vs(1)] rep us1
        by (intro exI [of _ p] exI [of _ "us @ vs"]) auto
    next
      case True
      then have "enable_drive n s2 = ((ok, e), s')" using cc by simp
      from enable_drive_sent [OF this n] obtain ws where ws: "sent s2 ws s'"
        "prefix ws (enable_script n @ error_read n)"
        "ok \<longrightarrow> ws = enable_script n \<and> (\<exists>w. reports s2 n obj_kStatusWord 0 w \<and> enabled_word w)" by blast
      have "sent s (us @ vs) s2" by (rule sent_trans [OF us(1) vs(1)])
      then show ?thesis
        using sent_trans [OF _ ws(1)] ws(2,3) rep us1 vs(3) True reports_earlier [of s2]
        by (intro exI [of _ p] exI [of _ "us @ vs @ ws"]) force
    qed
  qed
qed

lemma configure_node_sent:
  assumes c: "configure_node n s = ((ok, e), s')" and n: "n \<le> pxx_kMaxNodeId"
  shows "\<exists>p ys. sent s ys s' \<and> prefix ys (configure_script n p @ error_read n) \<and>
    (length (setup_script n) < length ys \<longrightarrow> reports s n obj_kPositionActual 0 p) \<and>
    (ok \<longrightarrow> ys = configure_script n p \<and> reports s n obj_kPositionActual 0 p \<and>
      (\<exists>w. reports s n obj_kStatusWord 0 w \<and> enabled_word w))"
proof -
  let ?a = "and_also (motor_send (MakeNmtFrame kEnterPreOperational n)) (sdo_writes n (pdo_configuration n))"
  let ?xs = "MakeNmtFrame kEnterPreOperational n # map (write_frame n) (pdo_configuration n)"
  have em: "emits ?a ?xs []" using emits_and_also [OF emits_send emits_sdo_writes] by simp
  have assoc: "configure_node n s = and_also ?a (hold_position n) s"
    by (simp add: configure_node_def and_also_def split: prod.split)
  have set: "setup_script n = ?xs @ [MakeSdoReadFrame n obj_kPositionActual 0]"
    by (simp add: setup_script_def)
  obtain ok1 e1 s1 where s1: "?a s = ((ok1, e1), s1)" by (metis surj_pair)
  from emitsD [OF em s1] obtain us where us: "sent s us s1" "prefix us ?xs" "ok1 \<longrightarrow> us = ?xs" by auto
  show ?thesis
  proof (cases ok1)
    case False
    then have "\<not> ok" "s' = s1" using c s1 unfolding assoc by (simp_all add: and_also_def)
    moreover have "prefix us (configure_script n 0 @ error_read n)"
      using prefix_prefix [OF us(2)] unfolding configure_script_def set by simp
    ultimately show ?thesis
      using us(1) prefix_length_le [OF us(2)] by (intro exI [of _ 0] exI [of _ us]) (simp add: set)
  next
    case True
    then have "hold_position n s1 = ((ok, e), s')" using c s1 unfolding assoc by (simp add: and_also_def)
    from hold_position_sent [OF this n] obtain p vs where vs: "sent s1 vs s'"
      "prefix vs (MakeSdoReadFrame n obj_kPositionActual 0 # MakeSdoWriteFrame n obj_kTargetPosition 0 p 4 #
        enable_script n @ error_read n)"
      "1 < length vs \<longrightarrow> reports s1 n obj_kPositionActual 0 p"
      "ok \<longrightarrow> vs = MakeSdoReadFrame n obj_kPositionActual 0 # MakeSdoWriteFrame n obj_kTargetPosition 0 p 4 #
        enable_script n \<and> reports s1 n obj_kPositionActual 0 p \<and>
        (\<exists>w. reports s1 n obj_kStatusWord 0 w \<and> enabled_word w)" by blast
    have scr: "configure_script n p = ?xs @ MakeSdoReadFrame n obj_kPositionActual 0 #
        MakeSdoWriteFrame n obj_kTargetPosition 0 p 4 # enable_script n"
      by (simp add: configure_script_def set)
    show ?thesis
      using sent_trans [OF us(1) vs(1)] us(3) vs(2,3,4) True
      by (intro exI [of _ p] exI [of _ "us @ vs"]) (auto simp: set scr dest: reports_earlier [OF _ us(1)])
  qed
qed

subsection \<open>All nodes\<close>

text \<open>What a node must have reported for its configuration to succeed, with position \<open>p\<close>.\<close>

definition brought_up :: "motor_env \<Rightarrow> u8 \<Rightarrow> u32 \<Rightarrow> bool" where
  "brought_up s n p \<longleftrightarrow> reports s n obj_kPositionActual 0 p \<and>
     (\<exists>w. reports s n obj_kStatusWord 0 w \<and> enabled_word w)"

lemma brought_up_earlier: "brought_up s' n p \<Longrightarrow> sent s fs s' \<Longrightarrow> brought_up s n p"
  by (auto simp: brought_up_def intro: reports_earlier simp del: obj_defs)

lemma configure_nodes_sent:
  assumes "configure_nodes ns s = ((True, e), s')" "\<forall>n \<in> set ns. n \<le> pxx_kMaxNodeId"
  shows "\<exists>ps. list_all2 (brought_up s) ns ps \<and> sent s (concat (map2 configure_script ns ps)) s'"
  using assms
proof (induction ns arbitrary: s)
  case Nil
  then show ?case by simp
next
  case (Cons n ns)
  obtain ok1 e1 s1 where s1: "configure_node n s = ((ok1, e1), s1)" by (metis surj_pair)
  have ok1: "ok1" and rest: "configure_nodes ns s1 = ((True, e), s')"
    using Cons.prems(1) s1 by (auto simp: and_also_def split: if_splits)
  obtain p where p: "sent s (configure_script n p) s1" "brought_up s n p"
    using configure_node_sent [OF s1] Cons.prems(2) ok1 unfolding brought_up_def by auto
  obtain ps where ps: "list_all2 (brought_up s1) ns ps" "sent s1 (concat (map2 configure_script ns ps)) s'"
    using Cons.IH [OF rest] Cons.prems(2) by auto
  have "list_all2 (brought_up s) ns ps"
    using ps(1) brought_up_earlier [OF _ p(1)] by (rule list_all2_mono)
  then show ?case
    using p sent_trans [OF p(1) ps(2)] by (intro exI [of _ "p # ps"]) simp
qed

text \<open>The kernel's part of any number of configurations.\<close>

lemma configure_nodes_kernel:
  assumes "configure_nodes ns s = (st, s')"
  shows "same_env s s'"
  using quiet_configure_nodes [of ns] assms unfolding quiet_def by blast

lemma socketcan_motor_deactivate_ok:
  assumes "0 \<le> sm_fd b" "writes_ok k" "live_fds k = sm_fd b # base"
  shows "socketcan_motor_deactivate b k = ((True, None),
    b\<lparr>sm_rx_running := False, sm_rx_joinable := False, sm_fd := -1\<rparr>,
    k\<lparr>n_writes := n_writes k + 2 * length (sm_node_ids b), live_fds := base,
      wire := wire k @ map pxx_socket_frame (concat (map disable_frames (sm_node_ids b)))\<rparr>)"
proof -
  have len: "length (concat (map disable_frames ns)) = 2 * length ns" for ns
    by (induction ns) (simp_all add: disable_frames_def)
  have "pxx_send_all (sm_fd b) (concat (map disable_frames (sm_node_ids b))) k = ((True, None),
      k\<lparr>n_writes := n_writes k + 2 * length (sm_node_ids b),
        wire := wire k @ map pxx_socket_frame (concat (map disable_frames (sm_node_ids b)))\<rparr>)"
    using assms(1,2) unfolding len [symmetric]
    by (intro pxx_send_all_ok)
      (auto simp: disable_frames_def MakeSdoWriteFrame_eq MakeNmtFrame_eq pxx_kMaxDataLength_def)
  then show ?thesis
    using assms by (simp add: socketcan_motor_deactivate_def pxx_is_open_def pxx_close_def sys_close_def)
qed

lemma socketcan_motor_activate_open:
  assumes "socketcan_motor_owns base b k" "socketcan_motor_stopped b"
    "socketcan_motor_activate c b k = Done ((True, e), b', k')"
  shows "0 \<le> sm_fd b' \<and> write_ret k' = write_ret k"
proof -
  obtain ok1 e1 fd k1 where o: "pxx_open (mc_open c) (sm_can_interface b) (sm_fd b) k = ((ok1, e1), fd, k1)"
    by (metis surj_pair)
  let ?b = "b\<lparr>sm_fd := fd, sm_feedback := map (\<lambda>_. zero_feedback) (sm_feedback b), sm_rx_running := True,
    sm_rx_joinable := True\<rparr>"
  let ?s = "\<lparr>me_backend = ?b, me_kernel = k1, me_slots = mc_slots c\<rparr>"
  obtain ok2 e2 s where cfg: "configure_nodes (sm_node_ids b) ?s = ((ok2, e2), s)" by (metis surj_pair)
  have "ok1" "b' = me_backend s" "k' = me_kernel s"
    using assms o cfg by (auto simp: socketcan_motor_activate_def socketcan_motor_stopped_def Let_def
        split: if_splits prod.splits)
  then show ?thesis
    using pxx_transport.open_result [OF o] configure_nodes_kernel [OF cfg]
    by (simp add: same_env_def same_link_def)
qed

end
