(* ===== verification/Arm_Properties.thy ===== *)
theory Arm_Properties
  imports Pxx_Dialogue Pxx_Hardware Drive_Properties
begin

section \<open>What the arm does\<close>

text \<open>
  The properties of the arm's code: the configuration dialogue, the control cycle, the receive
  thread, the conversions, and whole runs of the plugin.
\<close>

subsection \<open>Bringing the drives up\<close>

text \<open>
  C1: A successful activation of the arm sends, for every node in the order of the joints, exactly the
  configuration script and nothing else: mapping, the question for the position, the reported
  position as target, start, the three control words, the question for the status; and each node
  answered with that position and with a status word that has the enabled bit and no fault bit.
\<close>

theorem arm_activation_follows_the_script:
  assumes "socketcan_motor_owns base b k" "socketcan_motor_stopped b"
    and act: "socketcan_motor_activate c b k = Done ((True, e), b', k')"
  shows "\<exists>ps. list_all2 (brought_up \<lparr>me_backend = b', me_kernel = k', me_slots = mc_slots c\<rparr>) (sm_node_ids b) ps \<and>
    wire k' = wire k @ map pxx_socket_frame (concat (map2 configure_script (sm_node_ids b) ps))"
proof -
  have ids: "\<forall>n \<in> set (sm_node_ids b). n \<le> pxx_kMaxNodeId" and j: "\<not> sm_rx_joinable b"
    using assms(1,2) by (auto simp: socketcan_motor_defs)
  obtain ok1 e1 fd k1 where o: "pxx_open (mc_open c) (sm_can_interface b) (sm_fd b) k = ((ok1, e1), fd, k1)"
    by (metis surj_pair)
  let ?b = "b\<lparr>sm_fd := fd, sm_feedback := map (\<lambda>_. zero_feedback) (sm_feedback b), sm_rx_running := True,
    sm_rx_joinable := True\<rparr>"
  let ?s = "\<lparr>me_backend = ?b, me_kernel = k1, me_slots = mc_slots c\<rparr>"
  obtain ok2 e2 s where cfg: "configure_nodes (sm_node_ids b) ?s = ((ok2, e2), s)" by (metis surj_pair)
  have ok: "ok1" "ok2" "b' = me_backend s" "k' = me_kernel s"
    using act o cfg j by (auto simp: socketcan_motor_activate_def Let_def split: if_splits prod.splits)
  obtain ps where ps: "list_all2 (brought_up ?s) (sm_node_ids b) ps"
      "sent ?s (concat (map2 configure_script (sm_node_ids b) ps)) s"
    using configure_nodes_sent [OF cfg [unfolded eqTrueI [OF ok(2)]] ids] by blast
  have "brought_up ?s = brought_up \<lparr>me_backend = b', me_kernel = k', me_slots = mc_slots c\<rparr>"
    using ps(2) by (simp add: fun_eq_iff brought_up_def reports_def sent_def ok(3))
  moreover have "wire k1 = wire k" using pxx_transport.open_result [OF o] by simp
  ultimately show ?thesis using ps by (auto simp: sent_def ok(4))
qed

text \<open>
  C2: In every run of a drive's configuration, failed ones included, the frames sent are a prefix of
  the script with some position (and the question for the error code at the end); anything after
  the question for the position is sent only when the drive has reported that very position. So no
  drive is enabled before its target is the position it holds.
\<close>

theorem arm_never_enables_before_seeding:
  assumes "node \<le> pxx_kMaxNodeId" "configure_node node s = ((ok, e), s')"
  shows "\<exists>p ys. wire (me_kernel s') = wire (me_kernel s) @ map pxx_socket_frame ys \<and>
    prefix ys (configure_script node p @ error_read node) \<and>
    (length (setup_script node) < length ys \<longrightarrow> reports s node obj_kPositionActual 0 p)"
  using configure_node_sent [OF assms(2,1)] unfolding sent_def by blast


text \<open>
  C4: An SDO transaction believes only the right answer: it succeeds only when, while it waited, a
  response for its own node, object and subindex arrived that is not an abort, and the value it
  returns is the value of such a response; its request is the one frame it sends.
\<close>

theorem sdo_transaction_believes_only_its_answer:
  assumes "node \<le> pxx_kMaxNodeId" "sdo_read node index subindex v0 s = (((True, e), v), s')"
  shows "\<exists>slot \<in> set (me_slots s). \<exists>c \<in> set (rx_of (slot_during slot)). \<exists>f r.
    fst (pxx_receive (sm_fd (me_backend s)) c) = Some f \<and> ParseSdoResponse f = Some r \<and>
    sr_node_id r = node \<and> sr_index r = index \<and> sr_subindex r = subindex \<and> \<not> sr_aborted r \<and> sr_value r = v \<and>
    wire (me_kernel s') = wire (me_kernel s) @ [pxx_socket_frame (MakeSdoReadFrame node index subindex)]"
  using sdo_read_sound [OF assms] sdo_read_sent [OF assms(2)]
  unfolding reports_def delivers_def sent_def by fastforce


subsection \<open>The control cycle\<close>

text \<open>A CANopen frame as the bus carries it.\<close>

definition canopen_frame :: "u32 \<Rightarrow> u8 list \<Rightarrow> can_frame" where
  "canopen_frame cob payload = \<lparr>can_id = cob, can_dlc = of_nat (length payload),
     can_data = payload @ replicate (8 - length payload) 0\<rparr>"

lemma cob_fits:
  assumes "node \<le> pxx_kMaxNodeId"
  shows "(0x200 + ucast node :: u32) AND 0x7FF = 0x200 + ucast node"
proof -
  have low: "bit node i \<Longrightarrow> i < 7" for i
    using high_bits_unset [of node 7 i] assms by (force simp: pxx_kMaxNodeId_def word_le_def)
  have "(0x200 + ucast node :: u32) = 0x200 OR ucast node"
    by (rule disjunctive_add) (auto simp: bit_simps bit_512 dest: low)
  then have "bit (0x200 + ucast node :: u32) i \<Longrightarrow> i < 11" for i
    using low [of i] by (auto simp: bit_simps bit_512)
  then show ?thesis by (intro bit_word_eqI) (auto simp: bit_and_iff bit_2047)
qed

lemma socket_target_frame:
  "node \<le> pxx_kMaxNodeId \<Longrightarrow> pxx_socket_frame (MakeTargetPositionFrame node w) = canopen_frame (0x200 + ucast node) (le_bytes w)"
  by (simp add: pxx_socket_frame_def MakeTargetPositionFrame_eq canopen_frame_def le_bytes_def CAN_SFF_MASK_def
      copy_bytes_def cob_fits)

lemma socket_sync_frame: "pxx_socket_frame MakeSyncFrame = canopen_frame 0x80 []"
  by (simp add: pxx_socket_frame_def MakeSyncFrame_eq canopen_frame_def CAN_SFF_MASK_def copy_bytes_def zeros_8)

lemma motor_write_wire:
  assumes inv: "socketcan_motor_inv b" and op: "0 \<le> sm_fd b" "writes_ok k"
    and len: "length cmds = length (sm_node_ids b)"
  shows "socketcan_motor_write lr cmds b k = Done ((True, None), b,
    k\<lparr>n_writes := n_writes k + length (filter (\<lambda>c. \<not> fisnan c) cmds) + 1, wire := wire k @
      List.map_filter (\<lambda>(c, g, n). if fisnan c then None
        else Some (canopen_frame (0x200 + ucast n) (le_bytes (RadToCounts lr (fmul binary64 c g)))))
        (zip cmds (zip (sm_gear_ratios b) (sm_node_ids b))) @ [canopen_frame 0x80 []]\<rparr>)"
proof -
  let ?n = "length (sm_node_ids b)" and ?z = "zip cmds (zip (sm_gear_ratios b) (sm_node_ids b))"
  let ?F = "\<lambda>(c, g, n). if fisnan c then None
    else Some (MakeTargetPositionFrame n (RadToCounts lr (fmul binary64 c g)))"
  have lg: "length (sm_gear_ratios b) = ?n" using inv by (simp add: socketcan_motor_inv_def)
  have z: "?z = map (\<lambda>i. (cmds ! i, sm_gear_ratios b ! i, sm_node_ids b ! i)) [0..<?n]"
    using len lg by (intro nth_equalityI) simp_all
  have fs: "target_frames lr [0..<?n] cmds b = Done (List.map_filter ?F ?z)"
    using target_frames_eq [of cmds ?n b "[0..<?n]" lr] len lg
    by (simp add: z List.map_filter_def filter_map comp_def)
  have lens: "length (List.map_filter ?F ?z) = length (filter (\<lambda>c. \<not> fisnan c) cmds)"
  proof -
    have "length (List.map_filter ?F xs) = length (filter (\<lambda>c. \<not> fisnan c) (map fst xs))" for xs
      by (induction xs) (auto simp: map_filter_simps)
    moreover have "map fst ?z = cmds" using len lg by simp
    ultimately show ?thesis by metis
  qed
  have ids: "n \<le> pxx_kMaxNodeId" if "(c, g, n) \<in> set ?z" for c g n
  proof -
    have "n \<in> set (sm_node_ids b)" using that by (meson set_zip_rightD)
    then show ?thesis using inv by (simp add: socketcan_motor_inv_def)
  qed
  have "map pxx_socket_frame (List.map_filter ?F xs) =
      List.map_filter (\<lambda>(c, g, n). if fisnan c then None
        else Some (canopen_frame (0x200 + ucast n) (le_bytes (RadToCounts lr (fmul binary64 c g))))) xs"
    if "\<forall>(c, g, n) \<in> set xs. n \<le> pxx_kMaxNodeId" for xs
    using that by (induction xs) (auto simp: map_filter_simps socket_target_frame)
  then have w: "map pxx_socket_frame (List.map_filter ?F ?z) = List.map_filter (\<lambda>(c, g, n). if fisnan c then None
        else Some (canopen_frame (0x200 + ucast n) (le_bytes (RadToCounts lr (fmul binary64 c g))))) ?z"
    using ids by blast
  have "pxx_send_all (sm_fd b) (List.map_filter ?F ?z @ [MakeSyncFrame]) k = ((True, None),
      k\<lparr>n_writes := n_writes k + length (List.map_filter ?F ?z @ [MakeSyncFrame]),
        wire := wire k @ map pxx_socket_frame (List.map_filter ?F ?z @ [MakeSyncFrame])\<rparr>)"
  proof (rule pxx_send_all_ok [OF op(2,1)])
    fix f
    assume "f \<in> set (List.map_filter ?F ?z @ [MakeSyncFrame])"
    then have "f = MakeSyncFrame \<or> (\<exists>n v. f = MakeTargetPositionFrame n v)"
      by (fastforce simp: List.map_filter_def split: if_splits)
    then show "p_data_length f \<le> pxx_kMaxDataLength"
      by (auto simp: MakeSyncFrame_eq MakeTargetPositionFrame_eq pxx_kMaxDataLength_def)
  qed
  then show ?thesis
    using op(1) len by (simp add: socketcan_motor_write_def pxx_is_open_def fs w lens socket_sync_frame)
qed

text \<open>
  C6: One control cycle of the arm: \<open>write\<close> queues one target frame per commanded joint, in the order
  of the joints, with the little-endian counts nearest to command times gear ratio, nothing for a
  joint whose command is NaN, and last the SYNC frame that applies the targets.
\<close>

theorem arm_write_commands_every_joint:
  assumes "pxx_owns base h k" "px_backend h = Some (SocketCan_Motor b)" "0 \<le> sm_fd b" "writes_ok k"
  shows "\<exists>h' k'. pxx_write lr h k = Done (RT_OK, h', k') \<and>
    wire k' = wire k @ List.map_filter (\<lambda>(c, g, n). if fisnan c then None
        else Some (canopen_frame (0x200 + ucast n) (le_bytes (RadToCounts lr (fmul binary64 c g)))))
      (zip (px_hw_commands h) (zip (sm_gear_ratios b) (sm_node_ids b))) @ [canopen_frame 0x80 []]"
proof -
  have "socketcan_motor_inv b" "length (px_hw_commands h) = length (sm_node_ids b)"
    using assms(1,2) by (auto simp: pxx_owns_def socketcan_motor_owns_def socketcan_motor_width_def)
  from motor_write_wire [OF this(1) assms(3,4) this(2), of lr] assms(2) show ?thesis
    by (simp add: pxx_write_def)
qed


subsection \<open>Positions\<close>

lemma joint_position_near:
  assumes "0 < g" "sized 20 g"
  shows "near 3 (fdiv binary64 (CountsToRad w) (FFin t g))
    (of_int (sint w) * two_pi_double / counts_per_rev / signed t g)"
proof -
  have "sized 57 (of_int (sint w) * two_pi_double / counts_per_rev)"
    using sized_div [OF sized_mult [OF sized_int [OF int32_bound [of w]] pxx_constants_sized(5)] pxx_constants_sized(2)]
    by simp
  then have "near (Suc 2) (fdiv binary64 (CountsToRad w) (FFin t g))
      (of_int (sint w) * two_pi_double / counts_per_rev / signed t g)"
    using CountsToRad_near assms by (intro near_fdiv_sized [where i = 57 and j = 20]) simp_all
  then show ?thesis by (simp only: numeral_3_eq_3 numeral_2_eq_2)
qed

lemma hold_counts:
  assumes g: "0 < g" "sized 20 g"
  shows "RadToCounts lr (fmul binary64 (fdiv binary64 (CountsToRad w) (FFin t g)) (FFin t g)) = w"
proof -
  let ?v = "of_int (sint w) * two_pi_double / counts_per_rev"
  have "sized 57 ?v"
    using sized_div [OF sized_mult [OF sized_int [OF int32_bound [of w]] pxx_constants_sized(5)] pxx_constants_sized(2)]
    by simp
  then have "sized 77 (?v / signed t g)" using sized_div [of 57 ?v 20 "signed t g"] g by simp
  then have "near (Suc 3) (fmul binary64 (fdiv binary64 (CountsToRad w) (FFin t g)) (FFin t g))
      (?v / signed t g * signed t g)"
    using joint_position_near [OF g] g by (intro near_fmul_sized [where i = 77 and j = 20]) simp_all
  then have "near (Suc 3) (fmul binary64 (fdiv binary64 (CountsToRad w) (FFin t g)) (FFin t g)) ?v"
    using g by simp
  then show ?thesis by (rule RadToCounts_near) simp
qed

text \<open>C8: Every 32-bit count survives the conversion to radians and back, whatever \<open>lround\<close> does out of range.\<close>

theorem counts_survive_radians: "RadToCounts lr (CountsToRad w) = w"
  by (rule RadToCounts_near [OF CountsToRad_near]) simp

lemma motor_node_bounds:
  assumes "socketcan_motor_inv b" "i < length (sm_node_ids b)"
  shows "unat (sm_node_ids b ! i) < length (sm_feedback b)" "i < length (sm_gear_ratios b)"
proof -
  have "sm_node_ids b ! i \<le> pxx_kMaxNodeId"
    using assms nth_mem [OF assms(2)] by (simp add: socketcan_motor_inv_def)
  then have "unat (sm_node_ids b ! i) < 128" by (simp add: pxx_kMaxNodeId_def word_le_nat_alt)
  then show "unat (sm_node_ids b ! i) < length (sm_feedback b)" "i < length (sm_gear_ratios b)"
    using assms by (simp_all add: socketcan_motor_inv_def)
qed

lemma motor_read_joints_ok:
  assumes inv: "socketcan_motor_inv b" and "\<forall>i \<in> set is. i < length (sm_node_ids b)"
    "length sts = length (sm_node_ids b)"
    "\<forall>i \<in> set is. \<not> in_fault (sm_feedback b ! unat (sm_node_ids b ! i))"
  shows "motor_read_joints is b sts = and_then (for_each (\<lambda>i s. Done (motor_joint_state (sm_gear_ratios b ! i)
    (sm_feedback b ! unat (sm_node_ids b ! i)) s)) is sts) (\<lambda>sts. Done ((True, None), sts))"
  using assms(2-) by (induction "is" arbitrary: sts) (use motor_node_bounds [OF inv] in simp_all)

lemma motor_read_joints_fault:
  assumes inv: "socketcan_motor_inv b" and "\<forall>i \<in> set is. i < length (sm_node_ids b)"
    "length sts = length (sm_node_ids b)"
    "find (\<lambda>i. in_fault (sm_feedback b ! unat (sm_node_ids b ! i))) is = Some j"
  shows "\<exists>sts'. motor_read_joints is b sts = Done ((False, Some (In_Fault (sm_node_ids b ! j)
    (fb_status_word (sm_feedback b ! unat (sm_node_ids b ! j))) (fb_error_code (sm_feedback b ! unat (sm_node_ids b ! j)))
    (ErrorCodeText (fb_error_code (sm_feedback b ! unat (sm_node_ids b ! j)))))), sts')"
  using assms(2-) by (induction "is" arbitrary: sts) (use motor_node_bounds [OF inv] in \<open>auto split: if_splits\<close>)

lemma motor_read_cases:
  assumes inv: "socketcan_motor_inv b" and op: "0 \<le> sm_fd b"
  shows "\<exists>ok e sts. socketcan_motor_read states period b = Done ((ok, e), sts, b) \<and>
    (case find (\<lambda>n. in_fault (sm_feedback b ! unat n)) (sm_node_ids b) of
      None \<Rightarrow> ok \<and> e = None \<and>
        sts = map2 (\<lambda>n g. motor_joint_state g (sm_feedback b ! unat n) zero_state) (sm_node_ids b) (sm_gear_ratios b)
    | Some n \<Rightarrow> \<not> ok \<and> e = Some (In_Fault n (fb_status_word (sm_feedback b ! unat n))
        (fb_error_code (sm_feedback b ! unat n)) (ErrorCodeText (fb_error_code (sm_feedback b ! unat n)))))"
proof -
  let ?n = "length (sm_node_ids b)" and ?ns = "sm_node_ids b"
  let ?xs = "vec_resize ?n zero_state states"
  let ?P = "\<lambda>i. in_fault (sm_feedback b ! unat (?ns ! i))"
  have find: "find (\<lambda>n. in_fault (sm_feedback b ! unat n)) ?ns = map_option (\<lambda>i. ?ns ! i) (find ?P [0..<?n])"
  proof -
    have "find Q (map f xs) = map_option f (find (Q \<circ> f) xs)" for Q and f :: "nat \<Rightarrow> u8" and xs
      by (induction xs) simp_all
    from this [of "\<lambda>n. in_fault (sm_feedback b ! unat n)" "\<lambda>i. ?ns ! i" "[0..<?n]"]
    show ?thesis by (simp add: map_nth comp_def)
  qed
  show ?thesis
  proof (cases "find ?P [0..<?n]")
    case None
    then have nf: "\<forall>i \<in> set [0..<?n]. \<not> ?P i" by (simp add: find_None_iff)
    have lg: "length (sm_gear_ratios b) = ?n" using inv by (simp add: socketcan_motor_inv_def)
    have "for_each (\<lambda>i s. Done (motor_joint_state (sm_gear_ratios b ! i) (sm_feedback b ! unat (?ns ! i)) s))
        [0..<length ?xs] ?xs = Done (map (\<lambda>i. motor_joint_state (sm_gear_ratios b ! i)
          (sm_feedback b ! unat (?ns ! i)) (?xs ! i)) [0..<length ?xs])"
      by (rule for_each_all) simp
    also have "\<dots> = Done (map2 (\<lambda>n g. motor_joint_state g (sm_feedback b ! unat n) zero_state) ?ns (sm_gear_ratios b))"
      by (auto intro!: nth_equalityI simp: motor_joint_state_def lg)
    finally show ?thesis
      using op motor_read_joints_ok [OF inv _ _ nf, of ?xs] None
      by (intro exI [of _ True]) (simp add: socketcan_motor_read_def pxx_is_open_def find)
  next
    case (Some j)
    then show ?thesis
      using op motor_read_joints_fault [OF inv, of "[0..<?n]" ?xs j]
      by (auto simp: socketcan_motor_read_def pxx_is_open_def find)
  qed
qed

text \<open>
  C9: \<open>read\<close> of the arm fails exactly when the last status word of some node has the fault bit, naming
  the first such joint's node with its status word, error code and text; otherwise it reports for
  every joint its last position and velocity counts, converted and divided by the gear ratio.
\<close>

theorem arm_read_reports_or_names_the_fault:
  assumes inv: "socketcan_motor_inv b" and op: "0 \<le> sm_fd b"
  shows "\<exists>ok e sts. socketcan_motor_read states period b = Done ((ok, e), sts, b) \<and>
    (case find (\<lambda>n. in_fault (sm_feedback b ! unat n)) (sm_node_ids b) of
      None \<Rightarrow> ok \<and> e = None \<and>
        sts = map2 (\<lambda>n g. motor_joint_state g (sm_feedback b ! unat n) zero_state) (sm_node_ids b) (sm_gear_ratios b)
    | Some n \<Rightarrow> \<not> ok \<and> e = Some (In_Fault n (fb_status_word (sm_feedback b ! unat n))
        (fb_error_code (sm_feedback b ! unat n)) (ErrorCodeText (fb_error_code (sm_feedback b ! unat n)))))"
  by (rule motor_read_cases [OF assms])

lemma motor_read_result:
  assumes inv: "socketcan_motor_inv b" and op: "0 \<le> sm_fd b"
    and rd: "socketcan_motor_read states period b = Done ((True, e), sts, b)"
  shows "sts = map2 (\<lambda>n g. motor_joint_state g (sm_feedback b ! unat n) zero_state) (sm_node_ids b) (sm_gear_ratios b)"
  using motor_read_cases [OF inv op, of states period] rd by (auto split: option.splits)

text \<open>
  C11: The arm holds exactly where it is: a controller that writes back the positions \<open>read\<close> has just
  reported commands, bit for bit, the counts the drives reported, for any gear ratios of reasonable
  size; no joint creeps through rounding.
\<close>

theorem arm_holds_exactly:
  assumes inv: "socketcan_motor_inv b" and op: "0 \<le> sm_fd b" "writes_ok k"
    and gears: "\<forall>g \<in> set (sm_gear_ratios b). \<exists>t m. g = FFin t m \<and> 0 < m \<and> sized 20 m"
    and rd: "socketcan_motor_read states period b = Done ((True, e), sts, b)"
  shows "\<exists>st k'. socketcan_motor_write lr (map position_rad sts) b k = Done (st, b, k') \<and>
    wire k' = wire k @ map (\<lambda>n. canopen_frame (0x200 + ucast n)
      (le_bytes (fb_position_counts (sm_feedback b ! unat n)))) (sm_node_ids b) @ [canopen_frame 0x80 []]"
proof -
  let ?ns = "sm_node_ids b" and ?gs = "sm_gear_ratios b"
  have lg: "length ?gs = length ?ns" using inv by (simp add: socketcan_motor_inv_def)
  have sts: "sts = map2 (\<lambda>n g. motor_joint_state g (sm_feedback b ! unat n) zero_state) ?ns ?gs"
    using motor_read_result [OF inv op(1) rd] .
  let ?cmds = "map position_rad sts"
  have c: "?cmds = map2 (\<lambda>n g. fdiv binary64 (CountsToRad (fb_position_counts (sm_feedback b ! unat n))) g) ?ns ?gs"
    by (simp add: sts motor_joint_state_def comp_def case_prod_unfold)
  have len: "length ?cmds = length ?ns" by (simp add: c lg)
  have "List.map_filter (\<lambda>(c, g, n). if fisnan c then None
        else Some (canopen_frame (0x200 + ucast n) (le_bytes (RadToCounts lr (fmul binary64 c g)))))
      (zip (map2 (\<lambda>n g. fdiv binary64 (CountsToRad (F n)) g) ns gs) (zip gs ns)) =
      map (\<lambda>n. canopen_frame (0x200 + ucast n) (le_bytes (F n))) ns"
    if "length gs = length ns" "\<forall>g \<in> set gs. \<exists>t m. g = FFin t m \<and> 0 < m \<and> sized 20 m" for ns gs and F :: "u8 \<Rightarrow> u32"
    using that
  proof (induction gs ns rule: list_induct2)
    case (Cons g gs n ns)
    then obtain t m where g: "g = FFin t m" "0 < m" "sized 20 m" by auto
    have "\<not> fisnan (fdiv binary64 (CountsToRad (F n)) g)"
      using joint_position_near [OF g(2,3), of "F n" t] unfolding g(1)
      by (cases "fdiv binary64 (CountsToRad (F n)) (FFin t m)") (auto simp: fisnan_def)
    then show ?case
      using Cons hold_counts [OF g(2,3), of lr "F n" t] by (simp add: map_filter_simps g(1))
  qed (simp add: map_filter_simps)
  from this [OF lg gears, of "\<lambda>n. fb_position_counts (sm_feedback b ! unat n)"]
    motor_write_wire [OF inv op len, of lr]
  show ?thesis by (intro exI [of _ "(True, None)"]) (simp add: c)
qed

subsection \<open>What the receive thread makes of the bus\<close>

text \<open>
  A received frame has at most one meaning: no frame is accepted by two of the four parsers,
  whatever its identifier, length and bytes.
\<close>

theorem canopen_frames_have_one_meaning:
  "length (filter id [ParseMotionFeedback f \<noteq> None, ParseStatusFeedback f \<noteq> None, ParseEmergency f \<noteq> None,
     ParseSdoResponse f \<noteq> None]) \<le> 1"
  using parsers_function [of f]
  by (cases "ParseMotionFeedback f"; cases "ParseStatusFeedback f"; cases "ParseEmergency f";
      cases "ParseSdoResponse f") auto

definition motion_of :: "u8 \<Rightarrow> PFrame \<Rightarrow> (32 word \<times> 32 word) option" where
  "motion_of n f = (case ParseMotionFeedback f of
     Some m \<Rightarrow> if mf_node_id m = n then Some (mf_position_counts m, mf_velocity_raw m) else None | None \<Rightarrow> None)"

definition status_of :: "u8 \<Rightarrow> PFrame \<Rightarrow> u16 option" where
  "status_of n f = (case ParseStatusFeedback f of
     Some s \<Rightarrow> if sf_node_id s = n then Some (sf_status_word s) else None | None \<Rightarrow> None)"

definition error_of :: "u8 \<Rightarrow> PFrame \<Rightarrow> u16 option" where
  "error_of n f = (case ParseEmergency f of
     Some e \<Rightarrow> if em_node_id e = n then Some (em_error_code e) else None | None \<Rightarrow> None)"

text \<open>The last value that the frames give, or the one before them.\<close>

definition last_or :: "'a \<Rightarrow> (PFrame \<Rightarrow> 'a option) \<Rightarrow> PFrame list \<Rightarrow> 'a" where
  "last_or x g fs = fold (\<lambda>f x. case g f of None \<Rightarrow> x | Some y \<Rightarrow> y) fs x"

definition pxx_received :: "int \<Rightarrow> rx_calls list \<Rightarrow> PFrame list" where
  "pxx_received fd cs = List.map_filter (\<lambda>c. fst (pxx_receive fd c)) cs"

lemma motor_rx_frame_feedback:
  assumes "length (sm_feedback b) = 128" "unat n < 128"
  shows "sm_feedback (motor_rx_frame f b) ! unat n = (let fb = sm_feedback b ! unat n in
    \<lparr>fb_position_counts = (case motion_of n f of None \<Rightarrow> fb_position_counts fb | Some y \<Rightarrow> fst y),
     fb_velocity_raw = (case motion_of n f of None \<Rightarrow> fb_velocity_raw fb | Some y \<Rightarrow> snd y),
     fb_status_word = (case status_of n f of None \<Rightarrow> fb_status_word fb | Some y \<Rightarrow> y),
     fb_error_code = (case error_of n f of None \<Rightarrow> fb_error_code fb | Some y \<Rightarrow> y)\<rparr>)"
proof -
  note p = parsers_function [of f] and small = parsed_nodes_small [of f]
  consider m where "ParseMotionFeedback f = Some m" "ParseStatusFeedback f = None" "ParseEmergency f = None"
    | s where "ParseMotionFeedback f = None" "ParseStatusFeedback f = Some s" "ParseEmergency f = None"
    | e where "ParseMotionFeedback f = None" "ParseStatusFeedback f = None" "ParseEmergency f = Some e"
    | "ParseMotionFeedback f = None" "ParseStatusFeedback f = None" "ParseEmergency f = None"
    using p(1-3) by (cases "ParseMotionFeedback f"; cases "ParseStatusFeedback f"; cases "ParseEmergency f") auto
  then show ?thesis
    using assms small
    by cases (auto simp: motor_rx_frame_def update_feedback_def motion_of_def status_of_def error_of_def Let_def
        nth_list_update word_unat_eq_iff split: option.split)
qed

text \<open>
  C12: The feedback of every node after any sequence of receive attempts: position and velocity are
  those of the last motion frame of that node, status word and error code those of its last status
  and emergency frame; what none of its frames carries keeps its value, and no frame of another
  node, no SDO response and no failed attempt changes any of them.
\<close>

theorem arm_feedback_is_the_last_of_each_kind:
  assumes "socketcan_motor_inv b" "0 \<le> sm_fd b" "n \<le> pxx_kMaxNodeId"
  shows "sm_feedback (motor_rx_loop cs b) ! unat n = (let fs = pxx_received (sm_fd b) cs; fb = sm_feedback b ! unat n;
      m = last_or (fb_position_counts fb, fb_velocity_raw fb) (motion_of n) fs
    in \<lparr>fb_position_counts = fst m, fb_velocity_raw = snd m,
        fb_status_word = last_or (fb_status_word fb) (status_of n) fs,
        fb_error_code = last_or (fb_error_code fb) (error_of n) fs\<rparr>)"
  using assms
proof (induction cs arbitrary: b)
  case Nil
  then show ?case
    by (cases "sm_feedback b ! unat n")
      (simp add: motor_rx_loop_def pxx_received_def last_or_def map_filter_simps Let_def)
next
  case (Cons c cs)
  have n: "unat n < 128" using Cons.prems(3) by (simp add: pxx_kMaxNodeId_def word_le_nat_alt)
  have run: "sm_rx_running b" using Cons.prems by (simp add: socketcan_motor_inv_def)
  have loop: "motor_rx_loop (c # cs) b = motor_rx_loop cs (motor_rx_turn c b)"
    by (simp add: motor_rx_loop_def)
  show ?case
  proof (cases "fst (pxx_receive (sm_fd b) c)")
    case None
    then show ?thesis
      using Cons run by (simp add: loop motor_rx_turn_def pxx_received_def map_filter_simps)
  next
    case (Some f)
    have t: "motor_rx_turn c b = motor_rx_frame f b" using run Some by (simp add: motor_rx_turn_def)
    have sl: "same_link b (motor_rx_frame f b)" by simp
    then have inv: "socketcan_motor_inv (motor_rx_frame f b)" and fd: "sm_fd (motor_rx_frame f b) = sm_fd b"
      using Cons.prems(1) by (simp_all add: same_link_def socketcan_motor_inv_def)
    have "pxx_received (sm_fd b) (c # cs) = f # pxx_received (sm_fd b) cs"
      using Some by (simp add: pxx_received_def map_filter_simps)
    moreover have "length (sm_feedback b) = 128" using Cons.prems(1) by (simp add: socketcan_motor_inv_def)
    ultimately show ?thesis
      using Cons.IH [OF inv] Cons.prems(2,3) motor_rx_frame_feedback [OF _ n, of b f]
      by (simp add: loop t fd last_or_def Let_def split: option.split)
  qed
qed

subsection \<open>The two transports\<close>

text \<open>An 11-bit frame of the drivetrain's type as the arm's type has it.\<close>

definition standard_frame :: "Frame \<Rightarrow> PFrame" where
  "standard_frame f = \<lparr>p_arbitration_id = ucast (arbitration_id f), p_extended = False,
     p_data_length = data_length f, p_data = data f\<rparr>"

text \<open>
  C13: The arm's transport is the drivetrain's, as its header says it was taken from there: it opens and
  closes the same way, sends every standard frame with the same bytes and result, and receives every
  frame without the extended-identifier flag as the same frame.
\<close>

theorem pxx_transport_agrees_with_odesc:
  "pxx_open = transport_open \<and> pxx_close = transport_close \<and>
   pxx_send fd (standard_frame f) k = transport_send fd f k \<and>
   (can_id (rx_frame c) AND CAN_EFF_FLAG = 0 \<longrightarrow>
     pxx_receive fd c = map_prod (map_option standard_frame) id (transport_receive fd c))"
proof -
  have id: "ucast (ucast (a AND CAN_SFF_MASK :: u32) :: u16) = a AND CAN_SFF_MASK" for a
    by (rule bit_word_eqI) (auto simp: bit_simps CAN_SFF_MASK_def bit_2047)
  have "pxx_receive fd c = map_prod (map_option standard_frame) id (transport_receive fd c)"
    if "can_id (rx_frame c) AND CAN_EFF_FLAG = 0"
    using that by (simp add: pxx_receive_def transport_receive_def pxx_is_open_def transport_is_open_def
        standard_frame_def Let_def id)
  moreover have "pxx_send fd (standard_frame f) k = transport_send fd f k"
    by (simp add: pxx_send_def transport_send_def pxx_is_open_def transport_is_open_def standard_frame_def
        pxx_socket_frame_def socket_frame_def pxx_kMaxDataLength_def kMaxDataLength_def)
  ultimately show ?thesis by (simp add: pxx_open_eq pxx_close_eq)
qed

subsection \<open>The simulated arm\<close>

text \<open>
  The simulated arm reaches its commands: after \<open>write\<close> and \<open>read\<close> through the plugin, every joint
  with a command is exactly at it, and every joint whose command is NaN stays where it was with
  velocity zero.
\<close>

theorem mock_arm_reaches_its_commands:
  assumes h: "pxx_owns base h k" "px_backend h = Some (Mock_Motor b)" and "fisfinite period"
  shows "\<exists>h1 k1 h2. pxx_write lr h k = Done (RT_OK, h1, k1) \<and> pxx_read period h1 = Done (RT_OK, h2) \<and>
    px_hw_positions h2 = map2 (\<lambda>c s. if fisnan c then position_rad s else c) (px_hw_commands h) (mm_states b) \<and>
    list_all2 (\<lambda>c v. fisnan c \<longrightarrow> v = fzero) (px_hw_commands h) (px_hw_velocities h2)"
proof -
  let ?b1 = "b\<lparr>mm_commands_rad := px_hw_commands h\<rparr>"
  let ?sts = "map2 (mock_motor_joint period) (px_hw_commands h) (mm_states b)"
  have len: "length (px_hw_commands h) = length (px_joint_names h)" "length (mm_states b) = length (px_joint_names h)"
    "length (mm_commands_rad b) = length (px_joint_names h)"
    "length (px_hw_positions h) = length (px_joint_names h)" "length (px_hw_velocities h) = length (px_joint_names h)"
    using h by (auto simp: pxx_owns_def mock_motor_owns_def mock_motor_inv_def mock_motor_width_def)
  have w: "pxx_write lr h k = Done (RT_OK, h\<lparr>px_backend := Some (Mock_Motor ?b1)\<rparr>, k)"
    using h(2) len by (simp add: pxx_write_def mock_motor_write_def)
  have "mock_motor_read (px_backend_states h) period ?b1 = Done ((True, None), ?sts, ?b1\<lparr>mm_states := ?sts\<rparr>)"
    using mock_motor_read_eq [of ?b1 period "px_backend_states h"] len assms(3)
    by (simp add: mock_motor_inv_def Let_def)
  moreover have "copy_states [0..<length (px_joint_names h)] ?sts (px_hw_positions h, px_hw_velocities h) =
      Done (map position_rad ?sts, map velocity_rad_s ?sts)"
    using copy_states_all [of "px_hw_positions h" ?sts "px_hw_velocities h"] len by simp
  ultimately obtain h2 where r: "pxx_read period (h\<lparr>px_backend := Some (Mock_Motor ?b1)\<rparr>) = Done (RT_OK, h2)"
      "px_hw_positions h2 = map position_rad ?sts" "px_hw_velocities h2 = map velocity_rad_s ?sts"
    by (simp add: pxx_read_def Let_def)
  have "px_hw_positions h2 = map2 (\<lambda>c s. if fisnan c then position_rad s else c) (px_hw_commands h) (mm_states b)"
    unfolding r(2) by (auto simp: mock_motor_joint_def Let_def)
  moreover have "list_all2 (\<lambda>c v. fisnan c \<longrightarrow> v = fzero) (px_hw_commands h) (px_hw_velocities h2)"
    unfolding r(3) using len by (auto simp: list_all2_conv_all_nth mock_motor_joint_def Let_def)
  ultimately show ?thesis using w r(1) by blast
qed

subsection \<open>Initialisation and whole runs\<close>

text \<open>
  C14: A configuration that the arm's \<open>on\_init\<close> accepts: every joint has the one position command
  interface, both state interfaces, a node number from 1 to 127 that is the value of its parameter,
  and a finite gear ratio that is not zero; all commands start as NaN and the backend is stopped.
\<close>

theorem pxx_on_init_checks_its_configuration:
  assumes "pxx_on_init base_ok info new_PxxSystemHardware = Done (CB_SUCCESS, h)"
  shows "px_joint_names h = map ji_name (hi_joints info) \<and>
    length (px_node_ids h) = length (hi_joints info) \<and> length (px_gear_ratios h) = length (hi_joints info) \<and>
    (\<forall>i < length (hi_joints info). pxx_joint_ok (hi_joints info ! i) (px_node_ids h ! i) (px_gear_ratios h ! i)) \<and>
    (\<forall>c \<in> set (px_hw_commands h). c = FNaN) \<and> pxx_owns (live_fds k) h k \<and> pxx_stopped h"
  using assms
proof (rule pxx_on_init_success)
  fix ids gs
  assume "length ids = length (hi_joints info)" "length gs = length (hi_joints info)"
    "\<forall>i < length (hi_joints info). pxx_joint_ok (hi_joints info ! i) (ids ! i) (gs ! i)"
    and h: "h = \<lparr>px_joint_names = map ji_name (hi_joints info), px_node_ids = ids, px_gear_ratios = gs,
      px_hw_positions = replicate (length (hi_joints info)) fzero,
      px_hw_velocities = replicate (length (hi_joints info)) fzero,
      px_hw_commands = replicate (length (hi_joints info)) quiet_NaN,
      px_backend_states = replicate (length (hi_joints info)) zero_state,
      px_backend = Some (CreateMotorBackend \<lparr>
        mbc_endpoint = (case hi_parameters info ''can_interface'' of None \<Rightarrow> ''can0'' | Some c \<Rightarrow> c),
        mbc_node_ids = ids, mbc_gear_ratios = gs\<rparr>)\<rparr>"
  moreover note pxx_on_init_owns [OF assms]
  ultimately show ?thesis by (simp add: quiet_NaN_def)
qed

text \<open>
  C15: No sequence of callbacks, commands, received frames and configuration dialogues leads the
  initialised arm plugin to undefined behaviour, an exception or \<open>std::terminate\<close>; its invariant
  holds after each, and whenever it is inactive the receive thread is stopped and every descriptor
  it opened is closed; and when the plugin is destroyed, at whatever point, no thread is left and
  every descriptor is closed.
\<close>

theorem pxx_plugin_never_goes_wrong:
  assumes "pxx_on_init base_ok info new_PxxSystemHardware = Done (CB_SUCCESS, h)"
  shows "\<exists>p. plugin_run (pxx_callbacks lr) es \<lparr>pl_phase = Inactive, pl_hw = h, pl_kernel = k\<rparr> = Done p \<and>
    pxx_owns (live_fds k) (pl_hw p) (pl_kernel p) \<and>
    (pl_phase p = Inactive \<longrightarrow> pxx_stopped (pl_hw p) \<and> live_fds (pl_kernel p) = live_fds k) \<and>
    (\<exists>k'. destroy_PxxSystemHardware (pl_hw p) (pl_kernel p) = Done k' \<and> live_fds k' = live_fds k)"
proof -
  let ?p = "\<lparr>pl_phase = Inactive, pl_hw = h, pl_kernel = k\<rparr>"
  have "pxx_plugin.ok (live_fds k) ?p"
    using pxx_on_init_owns [OF assms] by (simp add: pxx_plugin.ok_def)
  from pxx_plugin.run_ok [OF this, of lr es] obtain p where p: "plugin_run (pxx_callbacks lr) es ?p = Done p"
    "pxx_plugin.ok (live_fds k) p" by blast
  then show ?thesis
    using pxx_stopped_fds [of "live_fds k" "pl_hw p" "pl_kernel p"] pxx_destroy_releases
    by (auto simp: pxx_plugin.ok_def)
qed

text \<open>
  A shutdown after any history, failed activations included, stops the arm's receive thread and
  releases every descriptor the plugin opened.
\<close>

theorem pxx_shutdown_releases_everything:
  assumes "pxx_on_init base_ok info new_PxxSystemHardware = Done (CB_SUCCESS, h)"
  shows "\<exists>p. plugin_run (pxx_callbacks lr) (es @ [Ev_Shutdown]) \<lparr>pl_phase = Inactive, pl_hw = h, pl_kernel = k\<rparr> = Done p \<and>
    pl_phase p = Finalized \<and> pxx_stopped (pl_hw p) \<and> live_fds (pl_kernel p) = live_fds k"
proof -
  let ?p = "\<lparr>pl_phase = Inactive, pl_hw = h, pl_kernel = k\<rparr>"
  have "pxx_plugin.ok (live_fds k) ?p"
    using pxx_on_init_owns [OF assms] by (simp add: pxx_plugin.ok_def)
  then obtain p where p: "plugin_run (pxx_callbacks lr) (es @ [Ev_Shutdown]) ?p = Done p" "pl_phase p = Finalized"
    "pxx_owns (live_fds k) (pl_hw p) (pl_kernel p)" "pxx_stopped (pl_hw p)"
    using pxx_plugin.shutdown_stops [of "live_fds k" ?p lr es] by metis
  then show ?thesis using pxx_stopped_fds by blast
qed

end
