(* ===== verification/Arm_Examples.thy ===== *)
theory Arm_Examples
  imports Arm_Properties
begin

section \<open>The arm at concrete inputs\<close>

text \<open>
  One arm with a single drive (node 5, gear ratio 2) on descriptor 7: a bus that answers every
  request, one that answers none, a drive in fault, a configuration; and the arm's properties there.
\<close>

definition sample_open :: open_calls where
  "sample_open = \<lparr>socket_ret = 7, if_index = (\<lambda>_. Some 2), bind_ret = (\<lambda>_. 0)\<rparr>"

definition sample_bus :: "int list \<Rightarrow> kernel" where
  "sample_bus fds = \<lparr>live_fds = fds, wire = [], n_writes = 0, write_ret = (\<lambda>_. 16)\<rparr>"

text \<open>A receive attempt that delivers a frame, and the answers of a drive that lets itself be enabled.\<close>

definition delivery :: "PFrame \<Rightarrow> rx_calls" where
  "delivery f = \<lparr>poll_ret = 1, poll_eintr = False, poll_in = True, read_ret = 16, rx_frame = pxx_socket_frame f\<rparr>"

definition answer_slot :: "u16 \<Rightarrow> u8 \<Rightarrow> u8 \<Rightarrow> u32 \<Rightarrow> sdo_slot" where
  "answer_slot index subindex spec v =
     \<lparr>slot_before = [], slot_during = [W_Rx (delivery (sdo_answer spec 5 index subindex v))]\<rparr>"

definition cooperative_slots :: "u32 \<Rightarrow> sdo_slot list" where
  "cooperative_slots status = map (\<lambda>(i, sub, _, _). answer_slot i sub 0x60 0) (pdo_configuration 5) @
     [answer_slot 0x6064 0 0x43 1234, answer_slot 0x607A 0 0x60 0, answer_slot 0x6040 0 0x60 0,
      answer_slot 0x6040 0 0x60 0, answer_slot 0x6040 0 0x60 0, answer_slot 0x6041 0 0x4B status]"

definition sample_arm :: SocketCanMotor where
  "sample_arm = new_SocketCanMotor ''can0'' [5] [FFin False 2]"

text \<open>The same backend while it is active on descriptor 7.\<close>

definition active_arm :: SocketCanMotor where
  "active_arm = sample_arm\<lparr>sm_fd := 7, sm_rx_joinable := True, sm_rx_running := True\<rparr>"

definition sample_pxx :: "MotorBackend \<Rightarrow> fp \<Rightarrow> PxxSystemHardware" where
  "sample_pxx b c = \<lparr>px_joint_names = [''elbow''], px_node_ids = [5], px_gear_ratios = [FFin False 2],
     px_hw_positions = [fzero], px_hw_velocities = [fzero], px_hw_commands = [c],
     px_backend_states = [zero_state], px_backend = Some b\<rparr>"

definition activated :: "(status \<times> SocketCanMotor \<times> kernel) outcome \<Rightarrow> bool option" where
  "activated r = (case r of Done ((ok, _), _, _) \<Rightarrow> Some ok | _ \<Rightarrow> None)"

lemma activated_Some: "activated r = Some ok \<longleftrightarrow> (\<exists>e b k. r = Done ((ok, e), b, k))"
  by (auto simp: activated_def split: outcome.splits)

lemma sample_activation:
  "activated (socketcan_motor_activate \<lparr>mc_open = sample_open, mc_slots = cooperative_slots 0x27\<rparr>
     sample_arm (sample_bus [])) = Some True"
  by code_simp

lemma sample_failure:
  "activated (socketcan_motor_activate \<lparr>mc_open = sample_open, mc_slots = []\<rparr>
     sample_arm (sample_bus [])) = Some False"
  by code_simp

lemma sample_arm_owns [simp]:
  "socketcan_motor_owns [] sample_arm (sample_bus [])" "socketcan_motor_stopped sample_arm"
  "socketcan_motor_owns [] active_arm (sample_bus [7])" "socketcan_motor_inv active_arm"
  "writes_ok (sample_bus fds)" "sm_fd active_arm = 7" "sm_node_ids active_arm = [5]"
  "sm_gear_ratios active_arm = [FFin False 2]" "sm_node_ids sample_arm = [5]" "sm_fd sample_arm = -1"
  "live_fds (sample_bus fds) = fds" "wire (sample_bus fds) = []" "sm_rx_running active_arm"
  by (simp_all add: socketcan_motor_defs sample_arm_def active_arm_def new_SocketCanMotor_def sample_bus_def
      owns_def writes_ok_def sizeof_can_frame_def pxx_kMaxNodeId_def)

lemma sample_pxx_owns [simp]:
  "pxx_owns [] (sample_pxx (SocketCan_Motor sample_arm) c) (sample_bus [])"
  "pxx_owns [] (sample_pxx (SocketCan_Motor active_arm) c) (sample_bus [7])"
  "pxx_stopped (sample_pxx (SocketCan_Motor sample_arm) c)"
  "px_backend (sample_pxx b c) = Some b" "px_hw_commands (sample_pxx b c) = [c]"
  by (simp_all add: pxx_owns_def pxx_stopped_def sample_pxx_def socketcan_motor_width_def)

lemma arm_activation_follows_the_script_witness:
  "\<exists>b' k' p. brought_up \<lparr>me_backend = b', me_kernel = k', me_slots = cooperative_slots 0x27\<rparr> 5 p \<and>
     wire k' = map pxx_socket_frame (configure_script 5 p)"
proof -
  obtain e b k where "socketcan_motor_activate \<lparr>mc_open = sample_open, mc_slots = cooperative_slots 0x27\<rparr>
      sample_arm (sample_bus []) = Done ((True, e), b, k)"
    using sample_activation by (auto simp: activated_Some)
  from arm_activation_follows_the_script [OF _ _ this, of "[]"] obtain p where
    "brought_up \<lparr>me_backend = b, me_kernel = k, me_slots = cooperative_slots 0x27\<rparr> 5 p \<and>
     wire k = map pxx_socket_frame (configure_script 5 p)"
    by (auto simp: list_all2_Cons1)
  then show ?thesis by blast
qed

lemma arm_never_enables_before_seeding_witness:
  "\<exists>p ys. wire (me_kernel (snd (configure_node 5 \<lparr>me_backend = active_arm, me_kernel = sample_bus [7],
      me_slots = cooperative_slots 0x27\<rparr>))) = map pxx_socket_frame ys \<and>
    prefix ys (configure_script 5 p @ error_read 5)"
proof -
  let ?s = "\<lparr>me_backend = active_arm, me_kernel = sample_bus [7], me_slots = cooperative_slots 0x27\<rparr>"
  obtain ok e s where "configure_node 5 ?s = ((ok, e), s)" by (metis surj_pair)
  from arm_never_enables_before_seeding [OF _ this] this show ?thesis
    by (auto simp: pxx_kMaxNodeId_def)
qed


text \<open>A transaction that sees an answer for another object first.\<close>

definition reading_env :: motor_env where
  "reading_env = \<lparr>me_backend = active_arm, me_kernel = sample_bus [7], me_slots =
     [\<lparr>slot_before = [], slot_during = [W_Rx (delivery (sdo_answer 0x4B 5 0x6041 0 1)), W_Wake] @
        [W_Rx (delivery (sdo_answer 0x43 5 0x6064 0 77))]\<rparr>]\<rparr>"

lemma sample_reading:
  "fst (sdo_read 5 0x6064 0 0 reading_env) = ((True, None), 77)"
  by code_simp

lemma sdo_transaction_believes_only_its_answer_witness:
  "\<exists>slot \<in> set (me_slots reading_env). \<exists>c \<in> set (rx_of (slot_during slot)). \<exists>f r.
    fst (pxx_receive 7 c) = Some f \<and> ParseSdoResponse f = Some r \<and> sr_index r = 0x6064 \<and> sr_value r = 77"
proof -
  obtain s where "sdo_read 5 0x6064 0 0 reading_env = (((True, None), 77), s)"
    using sample_reading by (metis prod.collapse)
  from sdo_transaction_believes_only_its_answer [OF _ this] show ?thesis
    by (fastforce simp: pxx_kMaxNodeId_def reading_env_def)
qed


lemma arm_write_commands_every_joint_witness:
  "\<exists>h' k'. pxx_write (\<lambda>_. 0) (sample_pxx (SocketCan_Motor active_arm) (FFin False 1)) (sample_bus [7]) = Done (RT_OK, h', k') \<and>
    wire k' = [canopen_frame 0x205 (le_bytes 2524152), canopen_frame 0x80 []]"
proof -
  have "RadToCounts (\<lambda>_. 0) (fmul binary64 (FFin False 1) (FFin False 2)) = 2524152" by code_simp
  then show ?thesis
    using arm_write_commands_every_joint [of "[]" "sample_pxx (SocketCan_Motor active_arm) (FFin False 1)"
        "sample_bus [7]" active_arm "\<lambda>_. 0"]
    by (simp add: fisnan_def map_filter_simps)
qed


text \<open>Two frames of node 5, the second in fault with the quick-stop cause still unreported.\<close>

definition faulty_arm :: SocketCanMotor where
  "faulty_arm = motor_rx_loop [delivery \<lparr>p_arbitration_id = 0x185, p_extended = False, p_data_length = 8,
      p_data = [0xD2, 4, 0, 0, 0xFF, 0xFF, 0xFF, 0xFF]\<rparr>,
     delivery \<lparr>p_arbitration_id = 0x285, p_extended = False, p_data_length = 2,
      p_data = [8, 0, 0, 0, 0, 0, 0, 0]\<rparr>] active_arm"

lemma faulty_arm [simp]:
  "sm_feedback faulty_arm ! 5 = \<lparr>fb_position_counts = 1234, fb_velocity_raw = -1, fb_status_word = 8, fb_error_code = 0\<rparr>"
  "sm_fd faulty_arm = 7" "sm_node_ids faulty_arm = [5]" "socketcan_motor_inv faulty_arm"
proof -
  show "sm_feedback faulty_arm ! 5 =
      \<lparr>fb_position_counts = 1234, fb_velocity_raw = -1, fb_status_word = 8, fb_error_code = 0\<rparr>"
    by code_simp
  have "same_link active_arm faulty_arm" by (simp add: faulty_arm_def same_link_rx_loop)
  then show "sm_fd faulty_arm = 7" "sm_node_ids faulty_arm = [5]" "socketcan_motor_inv faulty_arm"
    using sample_arm_owns(4,6,7) by (simp_all add: same_link_def socketcan_motor_inv_def)
qed

lemma arm_read_reports_or_names_the_fault_witness:
  "\<exists>sts. socketcan_motor_read [] fzero faulty_arm =
     Done ((False, Some (In_Fault 5 8 0 (ErrorCodeText 0))), sts, faulty_arm)"
  using arm_read_reports_or_names_the_fault [of faulty_arm "[]" fzero]
  by (auto simp: in_fault_def status_word_kFault_def)

lemma arm_feedback_is_the_last_of_each_kind_witness:
  "let cs = [delivery (sdo_answer 0x43 5 0x6064 0 77), delivery \<lparr>p_arbitration_id = 0x285, p_extended = False,
      p_data_length = 2, p_data = [0x27, 0, 0, 0, 0, 0, 0, 0]\<rparr>]
   in fb_status_word (sm_feedback (motor_rx_loop cs faulty_arm) ! 5) = 0x27 \<and>
      fb_position_counts (sm_feedback (motor_rx_loop cs faulty_arm) ! 5) = 1234"
proof -
  let ?cs = "[delivery (sdo_answer 0x43 5 0x6064 0 77), delivery \<lparr>p_arbitration_id = 0x285, p_extended = False,
      p_data_length = 2, p_data = [0x27, 0, 0, 0, 0, 0, 0, 0]\<rparr>]"
  have "last_or (8 :: u16) (status_of 5) (pxx_received 7 ?cs) = 0x27"
    "last_or (1234 :: u32, -1 :: u32) (motion_of 5) (pxx_received 7 ?cs) = (1234, -1)"
    by code_simp+
  then show ?thesis
    using arm_feedback_is_the_last_of_each_kind [of faulty_arm 5 ?cs]
    by (simp add: Let_def pxx_kMaxNodeId_def del: One_nat_def)
qed

lemma arm_holds_exactly_witness:
  "\<exists>sts st k'. socketcan_motor_read [] fzero active_arm = Done ((True, None), sts, active_arm) \<and>
    socketcan_motor_write (\<lambda>_. 0) (map position_rad sts) active_arm (sample_bus [7]) = Done (st, active_arm, k') \<and>
    wire k' = [canopen_frame 0x205 (le_bytes 0), canopen_frame 0x80 []]"
proof -
  have fb: "sm_feedback active_arm ! 5 = zero_feedback"
    by (simp add: active_arm_def sample_arm_def new_SocketCanMotor_def pxx_kMaxNodeId_def nth_Cons')
  then obtain sts where rd: "socketcan_motor_read [] fzero active_arm = Done ((True, None), sts, active_arm)"
    using arm_read_reports_or_names_the_fault [of active_arm "[]" fzero]
    by (auto simp: in_fault_def zero_feedback_def)
  have "sized 20 2" by (simp add: sized_def)
  from arm_holds_exactly [OF _ _ _ _ rd, of "sample_bus [7]" "\<lambda>_. 0"] this rd fb show ?thesis
    by (auto simp: zero_feedback_def)
qed

lemma pxx_transport_agrees_with_odesc_witness:
  "pxx_receive 7 (delivery (sdo_answer 0x43 5 0x6064 0 77)) = map_prod (map_option standard_frame) id
     (transport_receive 7 (delivery (sdo_answer 0x43 5 0x6064 0 77)))"
proof -
  have "can_id (rx_frame (delivery (sdo_answer 0x43 5 0x6064 0 77))) AND CAN_EFF_FLAG = 0" by code_simp
  then show ?thesis using pxx_transport_agrees_with_odesc by blast
qed

definition mock_arm :: MockMotor where
  "mock_arm = new_MockMotor 1 ''mock''"

lemma mock_arm_reaches_its_commands_witness:
  "\<exists>h1 k1 h2. pxx_write (\<lambda>_. 0) (sample_pxx (Mock_Motor mock_arm) (FFin False 3)) (sample_bus []) = Done (RT_OK, h1, k1) \<and>
    pxx_read (FFin False (1 / 64)) h1 = Done (RT_OK, h2) \<and> px_hw_positions h2 = [FFin False 3]"
proof -
  have "pxx_owns [] (sample_pxx (Mock_Motor mock_arm) (FFin False 3)) (sample_bus [])" "length (mm_states mock_arm) = 1"
    by (simp_all add: pxx_owns_def sample_pxx_def mock_arm_def mock_motor_owns_def mock_motor_inv_def
        mock_motor_width_def new_MockMotor_def)
  then show ?thesis
    using mock_arm_reaches_its_commands [of "[]" "sample_pxx (Mock_Motor mock_arm) (FFin False 3)" "sample_bus []"
        mock_arm "FFin False (1 / 64)" "\<lambda>_. 0"]
    by (auto simp: fisnan_def length_Suc_conv)
qed

definition arm_info :: hardware_info where
  "arm_info = \<lparr>hi_parameters = [''can_interface'' \<mapsto> ''can0''],
     hi_joints = [\<lparr>ji_name = ''elbow'', ji_command_interfaces = [''position''],
       ji_state_interfaces = [''position'', ''velocity''],
       ji_parameters = [''node_id'' \<mapsto> ''5'', ''gear_ratio'' \<mapsto> ''2.0'']\<rparr>]\<rparr>"

lemma sample_pxx_init:
  "pxx_on_init True arm_info new_PxxSystemHardware = Done (CB_SUCCESS, sample_pxx (SocketCan_Motor sample_arm) FNaN)"
  by code_simp

lemma pxx_on_init_checks_its_configuration_witness:
  "pxx_joint_ok (hi_joints arm_info ! 0) 5 (FFin False 2)"
proof -
  have "length (hi_joints arm_info) = 1" by (simp add: arm_info_def)
  then show ?thesis
    using pxx_on_init_checks_its_configuration [OF sample_pxx_init] by (auto simp: sample_pxx_def)
qed

lemma pxx_plugin_never_goes_wrong_witness:
  "\<exists>p. plugin_run (pxx_callbacks (\<lambda>_. 0))
      [Ev_Activate \<lparr>mc_open = sample_open, mc_slots = cooperative_slots 0x27\<rparr>, Ev_Command 0 (FFin False 2),
       Ev_Write, Ev_Read fzero, Ev_Deactivate]
      \<lparr>pl_phase = Inactive, pl_hw = sample_pxx (SocketCan_Motor sample_arm) FNaN, pl_kernel = sample_bus []\<rparr> = Done p \<and>
    pxx_owns (live_fds (sample_bus [])) (pl_hw p) (pl_kernel p)"
  using pxx_plugin_never_goes_wrong [OF sample_pxx_init] by blast

lemma pxx_shutdown_releases_everything_witness:
  "\<exists>p. plugin_run (pxx_callbacks (\<lambda>_. 0))
      ([Ev_Activate \<lparr>mc_open = sample_open, mc_slots = []\<rparr>] @ [Ev_Shutdown])
      \<lparr>pl_phase = Inactive, pl_hw = sample_pxx (SocketCan_Motor sample_arm) FNaN, pl_kernel = sample_bus [3]\<rparr> = Done p \<and>
    pl_phase p = Finalized \<and> live_fds (pl_kernel p) = [3]"
  using pxx_shutdown_releases_everything [OF sample_pxx_init, of _ _ "sample_bus [3]"] by fastforce

end
