(* ===== verification/Shared_Bus.thy ===== *)
theory Shared_Bus
  imports Drive_Bus Arm_Bus Drive_Properties Arm_Examples
begin

section \<open>The drivetrain and the arm on one bus\<close>

text \<open>
  Both plugins speak CAN, with identifiers that overlap: an ODrive frame has the node times 32 plus
  the command, a CANopen frame the function code plus the node. With suitable node numbers neither
  plugin notices that the other is there; with the numbers of \<open>odesc/config/node\_map.yaml\<close> the arm
  takes frames of wheels 4 and 5 for emergencies of its own drives.
\<close>

subsection \<open>Traffic\<close>

text \<open>Everything that ODrive nodes and their master exchange, and everything that CANopen nodes and theirs do.\<close>

definition odrive_traffic :: "u8 set \<Rightarrow> can_frame set" where
  "odrive_traffic ns = {f. can_id f < 0x800 \<and> node_id (ParseArbitrationId (ucast (can_id f))) \<in> ns}"

definition canopen_traffic :: "u8 set \<Rightarrow> can_frame set" where
  "canopen_traffic ns = {f. can_id f < 0x800 \<and> ucast (can_id f AND cob_kNodeMask) \<in> insert 0 ns}"

definition heard :: "can_frame set \<Rightarrow> rx_calls \<Rightarrow> bool" where
  "heard F c \<longleftrightarrow> rx_frame c \<in> F"

lemma masked_small: "(i :: u32) AND CAN_SFF_MASK < 0x800"
  using word_and_le1 [of i CAN_SFF_MASK] by (simp add: CAN_SFF_MASK_def word_le_def word_less_def)

lemma wheel_says_traffic: "\<forall>n \<in> ns. n \<le> kMaxNodeId \<Longrightarrow> wheel_says ns \<subseteq> odrive_traffic ns"
proof
  fix f
  assume ns: "\<forall>n \<in> ns. n \<le> kMaxNodeId" and "f \<in> wheel_says ns"
  then obtain n c where n: "n \<in> ns" and i: "can_id f = ucast (MakeArbitrationId n (command_code c)) AND CAN_SFF_MASK"
    by (auto simp: wheel_says_def)
  have "ParseArbitrationId (ucast (can_id f)) = ParseArbitrationId (MakeArbitrationId n (command_code c))"
  proof -
    have "(ucast (ucast (MakeArbitrationId n (command_code c)) AND CAN_SFF_MASK :: u32) :: u16) =
        MakeArbitrationId n (command_code c) AND 0x7FF"
      by (rule bit_word_eqI) (auto simp: bit_simps CAN_SFF_MASK_def bit_2047)
    with n ns i show ?thesis by (simp add: MakeArbitrationId_11_bits)
  qed
  with n ns i show "f \<in> odrive_traffic ns"
    by (simp add: odrive_traffic_def ParseArbitrationId_MakeArbitrationId masked_small)
qed

lemma arm_says_traffic: "\<forall>n \<in> ns. n \<le> pxx_kMaxNodeId \<Longrightarrow> arm_says ns \<subseteq> canopen_traffic ns"
proof
  fix f
  assume ns: "\<forall>n \<in> ns. n \<le> pxx_kMaxNodeId" and "f \<in> arm_says ns"
  then obtain i where i: "i \<in> arm_ids ns" "can_id f = i AND CAN_SFF_MASK"
    by (auto simp: arm_says_def)
  have "(i AND CAN_SFF_MASK) AND 0x7F = i AND 0x7F"
    by (rule bit_word_eqI) (auto simp: bit_simps bit_127 CAN_SFF_MASK_def bit_2047)
  moreover have "ucast (i AND 0x7F) \<in> insert 0 ns"
    using i(1) ns node_of_identifier(1) [of _ "0x200"] node_of_identifier(1) [of _ "0x600"]
    by (auto simp: arm_ids_def)
  ultimately show "f \<in> canopen_traffic ns"
    using i(2) by (simp add: canopen_traffic_def masked_small)
qed

lemma heard_by_drive:
  assumes "\<forall>n \<in> ns. n AND 0x1F \<noteq> 9"
  shows "drive_deaf (canopen_traffic ns) = heard (canopen_traffic ns)"
proof -
  have "can_id f AND 0x1F \<noteq> 9" if f: "f \<in> canopen_traffic ns" for f
  proof
    assume nine: "can_id f AND 0x1F = 9"
    let ?n = "ucast (can_id f AND 0x7F) :: u8"
    have "?n AND 0x1F = ucast (can_id f AND 0x1F)"
      by (rule bit_word_eqI) (auto simp: bit_simps bit_127 bit_31)
    then have "?n AND 0x1F = 9" by (simp add: nine)
    moreover have "?n \<in> insert 0 ns" using f by (simp add: canopen_traffic_def)
    ultimately show False using assms by auto
  qed
  then show ?thesis by (auto simp: drive_deaf_def heard_def fun_eq_iff)
qed

lemma heard_by_arm:
  assumes "\<forall>n \<in> ns. n < 4"
  shows "motor_deaf (odrive_traffic ns) = heard (odrive_traffic ns)"
proof -
  have "can_id f < 0x80" if f: "f \<in> odrive_traffic ns" for f
  proof -
    let ?n = "node_id (ParseArbitrationId (ucast (can_id f)))"
    have n: "?n < 4" using f assms by (simp add: odrive_traffic_def)
    have low: "bit (can_id f) i \<Longrightarrow> i < 11" for i
      using f high_bits_unset [of "can_id f" 11 i] by (force simp: odrive_traffic_def word_less_def)
    have two: "bit ?n j \<Longrightarrow> j < 2" for j
      using n high_bits_unset [of ?n 2 j] by (force simp: word_less_def)
    have node: "j < 6 \<Longrightarrow> bit ?n j = bit (can_id f) (5 + j)" for j
      by (auto simp: ParseArbitrationId_def kCommandIdBits_def kMaxNodeId_def bit_simps bit_63)
    have "bit (can_id f) i \<Longrightarrow> i < 7" for i
      using low [of i] two [of "i - 5"] node [of "i - 5"] by (cases "i < 5") auto
    then have "can_id f = take_bit 7 (can_id f)" by (intro bit_word_eqI) (auto simp: bit_simps)
    then have "uint (can_id f) = take_bit 7 (uint (can_id f))" by (metis unsigned_take_bit_eq)
    then show ?thesis using take_bit_int_less_exp [of 7 "uint (can_id f)"] by (simp add: word_less_def)
  qed
  then show ?thesis by (auto simp: motor_deaf_def heard_def fun_eq_iff)
qed

text \<open>What a plugin fresh from \<open>on\_init\<close> can ever send.\<close>

lemma odesc_init_says:
  assumes "odesc_on_init ok info new_OdescSystemHardware = Done (CB_SUCCESS, h)"
  shows "odesc_says h \<subseteq> odrive_traffic (set (od_node_ids h))"
proof (rule odesc_on_init_success [OF assms])
  fix ids g
  assume "\<forall>n \<in> set ids. n \<le> kMaxNodeId" and h: "h = \<lparr>od_gear_ratio = g, od_joint_names = map ji_name (hi_joints info), od_node_ids = ids,
      od_hw_positions = replicate (length (hi_joints info)) fzero,
      od_hw_velocities = replicate (length (hi_joints info)) fzero,
      od_hw_commands = replicate (length (hi_joints info)) fzero,
      od_backend_states = replicate (length (hi_joints info)) zero_state,
      od_backend = Some (CreateDriveBackend \<lparr>
        dc_endpoint = (case hi_parameters info ''can_interface'' of None \<Rightarrow> ''can2'' | Some c \<Rightarrow> c),
        dc_joint_count = length (hi_joints info), dc_node_ids = ids, dc_gear_ratio = g\<rparr>)\<rparr>"
  then show ?thesis
    using wheel_says_traffic [of "set ids"]
    by (simp add: odesc_says_def CreateDriveBackend_def new_SocketCanDrive_def)
qed

lemma pxx_init_says:
  assumes "pxx_on_init ok info new_PxxSystemHardware = Done (CB_SUCCESS, h)"
  shows "pxx_says h \<subseteq> canopen_traffic (set (px_node_ids h))"
proof (rule pxx_on_init_success [OF assms])
  fix ids gs
  assume "length ids = length (hi_joints info)"
    "\<forall>i < length (hi_joints info). pxx_joint_ok (hi_joints info ! i) (ids ! i) (gs ! i)"
    and h: "h = \<lparr>px_joint_names = map ji_name (hi_joints info), px_node_ids = ids, px_gear_ratios = gs,
      px_hw_positions = replicate (length (hi_joints info)) fzero,
      px_hw_velocities = replicate (length (hi_joints info)) fzero,
      px_hw_commands = replicate (length (hi_joints info)) quiet_NaN,
      px_backend_states = replicate (length (hi_joints info)) zero_state,
      px_backend = Some (CreateMotorBackend \<lparr>
        mbc_endpoint = (case hi_parameters info ''can_interface'' of None \<Rightarrow> ''can0'' | Some c \<Rightarrow> c),
        mbc_node_ids = ids, mbc_gear_ratios = gs\<rparr>)\<rparr>"
  then have "\<forall>n \<in> set ids. n \<le> pxx_kMaxNodeId" by (intro pxx_ids_ok) auto
  then show ?thesis
    using arm_says_traffic [of "set ids"]
    by (simp add: h pxx_says_def CreateMotorBackend_def new_SocketCanMotor_def)
qed

subsection \<open>Sharing the bus\<close>

text \<open>
  C17: Let both plugins be initialised, with wheels of nodes below 4 and drives of the arm whose node
  number does not end in the five bits 01001. Whatever callbacks, commands and received frames each
  then goes through, all that the drivetrain puts on the bus is ODrive traffic of its nodes and all
  that the arm puts there is CANopen traffic of its own; and each ends in the same state, having sent
  the same frames, as if it had received nothing of the other's traffic, be it in the control cycle
  or in the middle of the arm's configuration dialogue.
\<close>

theorem plugins_share_a_bus:
  assumes drive: "odesc_on_init okD infoD new_OdescSystemHardware = Done (CB_SUCCESS, hD)"
    and arm: "pxx_on_init okA infoA new_PxxSystemHardware = Done (CB_SUCCESS, hA)"
    and wheels: "\<forall>n \<in> set (od_node_ids hD). n < 4"
    and drives: "\<forall>n \<in> set (px_node_ids hA). n AND 0x1F \<noteq> 9"
    and quiet: "wire kD = []" "wire kA = []"
  shows "\<exists>pD pA.
    plugin_run odesc_callbacks esD \<lparr>pl_phase = Inactive, pl_hw = hD, pl_kernel = kD\<rparr> = Done pD \<and>
    plugin_run (pxx_callbacks lr) esA \<lparr>pl_phase = Inactive, pl_hw = hA, pl_kernel = kA\<rparr> = Done pA \<and>
    set (wire (pl_kernel pD)) \<subseteq> odrive_traffic (set (od_node_ids hD)) \<and>
    set (wire (pl_kernel pA)) \<subseteq> canopen_traffic (set (px_node_ids hA)) \<and>
    plugin_run odesc_callbacks (deafen (heard (canopen_traffic (set (px_node_ids hA)))) (\<lambda>c. c) esD)
      \<lparr>pl_phase = Inactive, pl_hw = hD, pl_kernel = kD\<rparr> = Done pD \<and>
    plugin_run (pxx_callbacks lr) (deafen (heard (odrive_traffic (set (od_node_ids hD))))
        (hush (heard (odrive_traffic (set (od_node_ids hD))))) esA)
      \<lparr>pl_phase = Inactive, pl_hw = hA, pl_kernel = kA\<rparr> = Done pA"
proof -
  let ?D = "\<lparr>pl_phase = Inactive, pl_hw = hD, pl_kernel = kD\<rparr>"
  let ?A = "\<lparr>pl_phase = Inactive, pl_hw = hA, pl_kernel = kA\<rparr>"
  have "odesc_plugin.ok (live_fds kD) ?D" "pxx_plugin.ok (live_fds kA) ?A"
    using odesc_on_init_owns(1) [OF drive, of kD] pxx_on_init_owns(1) [OF arm, of kA]
      odesc_on_init_owns(2) [OF drive] pxx_on_init_owns(2) [OF arm]
    by (simp_all add: odesc_plugin.ok_def pxx_plugin.ok_def)
  then obtain pD pA where runs: "plugin_run odesc_callbacks esD ?D = Done pD"
    "plugin_run (pxx_callbacks lr) esA ?A = Done pA"
    using odesc_plugin.run_ok pxx_plugin.run_ok by meson
  have "set (wire (pl_kernel pD)) \<subseteq> odesc_says hD" "set (wire (pl_kernel pA)) \<subseteq> pxx_says hA"
    using odesc_bus.run_says [OF runs(1)] pxx_bus.run_says [OF runs(2)] quiet by (auto simp: puts_def)
  then show ?thesis
    using runs odesc_init_says [OF drive] pxx_init_says [OF arm]
      odesc_bus.run_deafened [where F = "canopen_traffic (set (px_node_ids hA))"]
      pxx_bus.run_deafened [where F = "odrive_traffic (set (od_node_ids hD))"]
    by (intro exI [of _ pD] exI [of _ pA])
      (auto simp: heard_by_drive [OF drives] heard_by_arm [OF wheels])
qed

subsection \<open>Wheels 4 to 7\<close>

lemma high_wheel_node:
  assumes "4 \<le> n" "n < 8"
  shows "(n :: u8) = 4 \<or> n = 5 \<or> n = 6 \<or> n = 7"
proof -
  have "unat n = 4 \<or> unat n = 5 \<or> unat n = 6 \<or> unat n = 7"
    using assms by (auto simp: word_le_nat_alt word_less_nat_alt)
  then show ?thesis by (auto dest: arg_cong [where f = "of_nat :: nat \<Rightarrow> u8"])
qed

lemma high_wheel_identifier:
  assumes "4 \<le> n" "n < 8"
  shows "(ucast (MakeArbitrationId n (command_code m)) AND CAN_SFF_MASK :: u32) =
    0x80 + ucast (32 * (n - 4) + command_code m)"
  using high_wheel_node [OF assms]
  by (elim disjE; cases m) (simp_all add: MakeArbitrationId_def kCommandIdBits_def CAN_SFF_MASK_def)

lemma high_wheel_arm_node:
  assumes "4 \<le> n" "n < 8"
  shows "32 * (n - 4) + command_code m \<le> pxx_kMaxNodeId"
    "n \<noteq> 4 \<or> command_code m \<noteq> 0 \<Longrightarrow> 32 * (n - 4) + command_code m \<noteq> 0"
  using high_wheel_node [OF assms] by (elim disjE; cases m; simp add: pxx_kMaxNodeId_def)+

text \<open>
  C18: On a bus with wheels of nodes 4 to 7, as \<open>odesc/config/node\_map.yaml\<close> numbers two of them, the
  arm takes every ODrive message of at least two bytes from them, other than command 0 of node 4, for
  an emergency of its own node 32 * (n - 4) + command: the first two bytes become that node's error
  code, and nothing else of the arm changes.
\<close>

theorem arm_takes_high_wheels_for_emergencies:
  assumes alive: "0 \<le> sm_fd b" "sm_rx_running b"
    and node: "4 \<le> n" "n < 8" "n \<noteq> 4 \<or> command_code m \<noteq> 0"
    and f: "arbitration_id f = MakeArbitrationId n (command_code m)" "2 \<le> data_length f" "data_length f \<le> 8"
      "length (data f) = 8"
  shows "motor_rx_turn \<lparr>poll_ret = 1, poll_eintr = False, poll_in = True, read_ret = 16, rx_frame = socket_frame f\<rparr> b =
    update_feedback (32 * (n - 4) + command_code m)
      (\<lambda>fb. fb\<lparr>fb_error_code := ucast (data f ! 0) OR push_bit 8 (ucast (data f ! 1))\<rparr>) b"
proof -
  define node' where "node' = 32 * (n - 4) + command_code m"
  let ?g = "\<lparr>p_arbitration_id = 0x80 + ucast node', p_extended = False, p_data_length = data_length f,
    p_data = copy_bytes (unat (data_length f)) (data f)\<rparr>"
  have len: "unat (data_length f) \<le> 8" "2 \<le> unat (data_length f)"
    using f(2,3) by (simp_all add: word_le_nat_alt)
  note sum = node_of_identifier [OF high_wheel_arm_node(1) [OF node(1,2), of m, folded node'_def], of "0x80"]
  have id: "can_id (socket_frame f) = 0x80 + ucast node'"
    by (simp add: socket_frame_def f(1) high_wheel_identifier [OF node(1,2), of m, folded node'_def])
  have masks: "(0x80 + ucast node' :: u32) AND CAN_EFF_FLAG = 0"
    "(0x80 + ucast node' :: u32) AND CAN_SFF_MASK = 0x80 + ucast node'"
    unfolding high_wheel_identifier [OF node(1,2), of m, folded node'_def, symmetric]
    by (simp_all add: CAN_EFF_FLAG_def CAN_SFF_MASK_def and.assoc)
  have "fst (pxx_receive (sm_fd b) \<lparr>poll_ret = 1, poll_eintr = False, poll_in = True, read_ret = 16,
      rx_frame = socket_frame f\<rparr>) = Some ?g"
    using alive(1) len f(4) by (simp add: pxx_receive_def pxx_is_open_def sizeof_can_frame_def Let_def id masks)
      (simp add: socket_frame_def copy_bytes_idem)
  moreover have "ParseEmergency ?g = Some \<lparr>em_node_id = node',
      em_error_code = ucast (data f ! 0) OR push_bit 8 (ucast (data f ! 1))\<rparr>"
  proof -
    have "(ucast (ucast x OR push_bit 8 (ucast y) :: u32) :: u16) = ucast x OR push_bit 8 (ucast y)" for x y :: u8
      by (rule bit_word_eqI) (auto simp: bit_simps)
    then show ?thesis
      using sum high_wheel_arm_node(2) [OF node, folded node'_def] f(2) len f(4)
      by (simp add: ParseEmergency_def GetLe_bytes nth_copy_bytes not_less [symmetric])
  qed
  moreover have "ParseMotionFeedback ?g = None" "ParseStatusFeedback ?g = None"
    using sum(2) by (simp_all add: ParseMotionFeedback_def ParseStatusFeedback_def)
  ultimately show ?thesis unfolding node'_def [symmetric] using alive(2) by (simp add: motor_rx_turn_def motor_rx_frame_def)
qed

subsection \<open>Both at concrete inputs\<close>

definition bus_info :: hardware_info where
  "bus_info = (sample_info ''can0'')\<lparr>hi_joints := [sample_joint ''left'' ''0'', sample_joint ''right'' ''3'']\<rparr>"

definition bus_drive :: OdescSystemHardware where
  "bus_drive = (sample_drive (SocketCan_Drive (new_SocketCanDrive ''can0'' [0, 3] (FFin True (25 / 2)))))
     \<lparr>od_node_ids := [0, 3]\<rparr>"

lemma bus_init: "odesc_on_init True bus_info new_OdescSystemHardware = Done (CB_SUCCESS, bus_drive)"
  by code_simp

text \<open>Each in turn hears a frame of the other: the wheels an NMT command, the arm a wheel's estimate.\<close>

lemma plugins_share_a_bus_witness:
  "plugin_run odesc_callbacks [Ev_Activate sample_open, Ev_Rx (delivery (MakeNmtFrame kStart 5)), Ev_Write]
      \<lparr>pl_phase = Inactive, pl_hw = bus_drive, pl_kernel = sample_bus []\<rparr> =
    plugin_run odesc_callbacks [Ev_Activate sample_open, Ev_Write]
      \<lparr>pl_phase = Inactive, pl_hw = bus_drive, pl_kernel = sample_bus []\<rparr> \<and>
   plugin_run (pxx_callbacks (\<lambda>_. 0)) [Ev_Activate \<lparr>mc_open = sample_open, mc_slots =
        [\<lparr>slot_before = [], slot_during = [W_Rx (sample_rx (estimate_frame 3 fzero fzero))]\<rparr>]\<rparr>]
      \<lparr>pl_phase = Inactive, pl_hw = sample_pxx (SocketCan_Motor sample_arm) FNaN, pl_kernel = sample_bus []\<rparr> =
    plugin_run (pxx_callbacks (\<lambda>_. 0)) [Ev_Activate \<lparr>mc_open = sample_open, mc_slots = [no_traffic]\<rparr>]
      \<lparr>pl_phase = Inactive, pl_hw = sample_pxx (SocketCan_Motor sample_arm) FNaN, pl_kernel = sample_bus []\<rparr>"
proof -
  have nodes: "set (od_node_ids bus_drive) = {0, 3}" "set (px_node_ids (sample_pxx b c)) = {5}" for b c
    by (simp_all add: bus_drive_def sample_pxx_def)
  have nmt: "heard (canopen_traffic {5}) (delivery (MakeNmtFrame kStart 5))"
    by (simp add: heard_def canopen_traffic_def delivery_def pxx_socket_frame_def MakeNmtFrame_eq)
  have est: "heard (odrive_traffic {0, 3}) (sample_rx (estimate_frame 3 fzero fzero))"
    by (simp add: heard_def odrive_traffic_def sample_rx_def socket_frame_def estimate_frame_def MakeArbitrationId_def
        ParseArbitrationId_def kCommandIdBits_def kMaxNodeId_def CAN_SFF_MASK_def)
  show ?thesis
    using plugins_share_a_bus [OF bus_init sample_pxx_init, of "sample_bus []" "sample_bus []"
        "[Ev_Activate sample_open, Ev_Rx (delivery (MakeNmtFrame kStart 5)), Ev_Write]" "\<lambda>_. 0"
        "[Ev_Activate \<lparr>mc_open = sample_open, mc_slots =
          [\<lparr>slot_before = [], slot_during = [W_Rx (sample_rx (estimate_frame 3 fzero fzero))]\<rparr>]\<rparr>]"]
    unfolding nodes deafen_simps hush_def
    by (auto simp: nmt est hush_slot_def no_traffic_def sample_bus_def simp del: plugin_run.simps)
qed

lemma arm_takes_high_wheels_for_emergencies_witness:
  "motor_rx_turn (sample_rx \<lparr>arbitration_id = MakeArbitrationId 4 (command_code MSG_ODRIVE_HEARTBEAT),
      data_length = 8, data = [0x20, 0x73, 0, 0, 1, 0, 0, 0]\<rparr>) active_arm =
    update_feedback 1 (\<lambda>fb. fb\<lparr>fb_error_code := 0x7320\<rparr>) active_arm"
  using arm_takes_high_wheels_for_emergencies [of active_arm 4 MSG_ODRIVE_HEARTBEAT
      "\<lparr>arbitration_id = MakeArbitrationId 4 (command_code MSG_ODRIVE_HEARTBEAT),
        data_length = 8, data = [0x20, 0x73, 0, 0, 1, 0, 0, 0]\<rparr>"]
  by (simp add: sample_rx_def sizeof_can_frame_def active_arm_def)

end
