(* ===== verification/Error_Text.thy ===== *)
theory Error_Text
  imports Pxx_Can
begin

section \<open>The text of the errors\<close>

text \<open>
  The messages that the backends hand to the plugins' logs: \<open>Hex\<close> of
  \<open>pxx/src/socketcan\_motor\_backend.cpp\<close>, \<open>std::to\_string\<close>, and the text of every \<open>backend\_error\<close>. What
  \<open>std::strerror(errno)\<close> says after a failed system call is an argument.
\<close>

subsection \<open>Numbers\<close>

definition digit :: "int \<Rightarrow> char" where
  "digit d = ''0123456789ABCDEF'' ! nat d"

function numeral_text :: "int \<Rightarrow> int \<Rightarrow> string" where
  "numeral_text b n = (if b < 2 \<or> n < b then [digit n] else numeral_text b (n div b) @ [digit (n mod b)])"
  by auto

termination
proof (relation "measure (\<lambda>(b, n). nat n)")
  fix b n :: int
  assume "\<not> (b < 2 \<or> n < b)"
  then show "((b, n div b), b, n) \<in> measure (\<lambda>(b, n). nat n)" by (simp add: int_div_less_self)
qed simp

declare numeral_text.simps [simp del]

definition to_string :: "u8 \<Rightarrow> string" where
  "to_string n = numeral_text 10 (uint n)"

text \<open>\<open>snprintf\<close> of \<open>0x%0*X\<close> into a buffer of 16 bytes, the last of them the terminator.\<close>

definition Hex :: "u32 \<Rightarrow> nat \<Rightarrow> string" where
  "Hex v width = take 15 (''0x'' @ (let ds = numeral_text 16 (uint v)
     in replicate (width - length ds) (CHR ''0'') @ ds))"

subsection \<open>Messages\<close>

definition sdo_object :: "u8 \<Rightarrow> u16 \<Rightarrow> u8 \<Rightarrow> string" where
  "sdo_object node index subindex =
     ''node '' @ to_string node @ '' SDO '' @ Hex (ucast index) 4 @ '':'' @ Hex (ucast subindex) 2"

definition aborted_text :: "u8 \<Rightarrow> u16 \<Rightarrow> u8 \<Rightarrow> u32 \<Rightarrow> string \<Rightarrow> string" where
  "aborted_text node index subindex code why =
     sdo_object node index subindex @ '' aborted: '' @ Hex code 8 @ '' ('' @ why @ '')''"

definition failed_to_enable_text :: "u8 \<Rightarrow> u32 \<Rightarrow> u32 \<Rightarrow> string \<Rightarrow> string" where
  "failed_to_enable_text node status code why =
     ''node '' @ to_string node @ '' failed to enable (status word '' @ Hex status 4 @ '', error '' @ Hex code 4 @
     '': '' @ why @ '')''"

definition in_fault_text :: "u8 \<Rightarrow> u16 \<Rightarrow> u16 \<Rightarrow> string \<Rightarrow> string" where
  "in_fault_text node status code why =
     ''node '' @ to_string node @ '' in fault (status word '' @ Hex (ucast status) 4 @ '', EMCY '' @
     Hex (ucast code) 4 @ '': '' @ why @ '')''"

text \<open>The first eight messages are those of the transports, the next two of the SocketCAN backends, then
  two of the mocks.\<close>

fun error_text :: "string \<Rightarrow> backend_error \<Rightarrow> string" where
  "error_text strerror Socket_Failed = ''socket(PF_CAN) failed: '' @ strerror"
| "error_text strerror (Interface_Not_Found name) =
     ''CAN interface '' @ [CHR 0x27] @ name @ [CHR 0x27] @ '' not found: '' @ strerror"
| "error_text strerror (Bind_Failed name) = ''bind('' @ name @ '') failed: '' @ strerror"
| "error_text strerror Closed_Or_Bad_Length = ''SocketCAN transport is closed or frame length is invalid''"
| "error_text strerror Write_Failed = ''CAN write failed: '' @ strerror"
| "error_text strerror Transport_Closed = ''SocketCAN transport is closed''"
| "error_text strerror Poll_Failed = ''CAN poll failed: '' @ strerror"
| "error_text strerror Read_Failed = ''CAN read failed: '' @ strerror"
| "error_text strerror Not_Active = ''SocketCAN backend is not active''"
| "error_text strerror Command_Count_Mismatch = ''SocketCAN command count does not match its node count''"
| "error_text strerror Mock_Period_Not_Finite = ''mock backend received a non-finite control period''"
| "error_text strerror Mock_Count_Mismatch = ''mock backend command count does not match its joint count''"
| "error_text strerror (Sdo_Timed_Out node index subindex) = sdo_object node index subindex @ '' timed out''"
| "error_text strerror (Sdo_Aborted node index subindex code why) = aborted_text node index subindex code why"
| "error_text strerror (Failed_To_Enable node status code why) = failed_to_enable_text node status code why"
| "error_text strerror (In_Fault node status code why) = in_fault_text node status code why"

lemmas text_defs = sdo_object_def aborted_text_def failed_to_enable_text_def in_fault_text_def

subsection \<open>Reading a number back\<close>

definition hex_digits :: string where
  "hex_digits = ''0123456789ABCDEF''"

definition is_digit :: "char \<Rightarrow> bool" where
  "is_digit c \<longleftrightarrow> c \<in> set hex_digits"

fun position :: "string \<Rightarrow> char \<Rightarrow> nat" where
  "position [] c = 0"
| "position (d # ds) c = (if c = d then 0 else Suc (position ds c))"

definition number_of :: "int \<Rightarrow> string \<Rightarrow> int" where
  "number_of b s = fold (\<lambda>c n. n * b + int (position hex_digits c)) s 0"

lemma digit_16: "0 \<le> d \<Longrightarrow> d < 16 \<Longrightarrow> is_digit (digit d) \<and> int (position hex_digits (digit d)) = d"
proof -
  assume d: "0 \<le> d" "d < 16"
  have "list_all (\<lambda>d. is_digit (digit (int d)) \<and> position hex_digits (digit (int d)) = d) [0..<16]"
    by code_simp
  moreover have "nat d \<in> set [0..<16]" using d by auto
  ultimately have "is_digit (digit (int (nat d))) \<and> position hex_digits (digit (int (nat d))) = nat d"
    unfolding list_all_iff by blast
  then show ?thesis using d by simp
qed

lemma number_of_simps: "number_of b [] = 0" "number_of b (s @ [c]) = number_of b s * b + int (position hex_digits c)"
  by (simp_all add: number_of_def)

lemma numeral_text_digits:
  assumes "2 \<le> b" "b \<le> 16" "0 \<le> n"
  shows "list_all is_digit (numeral_text b n) \<and> number_of b (numeral_text b n) = n"
  using assms
proof (induction b n rule: numeral_text.induct)
  case (1 b n)
  have d: "0 \<le> n mod b" "n mod b < 16" using 1(2,3) pos_mod_bound [of b n] pos_mod_sign [of b n] by linarith+
  show ?case
  proof (cases "n < b")
    case True
    then have "n < 16" using 1(3) by linarith
    from digit_16 [OF 1(4) this] True show ?thesis
      using number_of_simps(2) [of b "[]"] by (subst (1 2) numeral_text.simps) (simp add: number_of_simps(1))
  next
    case False
    then have "list_all is_digit (numeral_text b (n div b)) \<and> number_of b (numeral_text b (n div b)) = n div b"
      using 1 by (simp add: pos_imp_zdiv_nonneg_iff)
    with digit_16 [OF d] False 1(2) show ?thesis
      by (subst (1 2) numeral_text.simps) (simp add: number_of_simps)
  qed
qed

lemma number_of_padded: "number_of b (replicate k (CHR ''0'') @ s) = number_of b s"
proof -
  have "fold (\<lambda>c n. n * b + int (position hex_digits c)) (replicate k (CHR ''0'')) 0 = 0"
    by (induction k) (simp_all add: hex_digits_def)
  then show ?thesis by (simp add: number_of_def)
qed

lemma numeral_text_length: "n < 16 ^ k \<Longrightarrow> 0 < k \<Longrightarrow> length (numeral_text 16 n) \<le> k"
proof (induction k arbitrary: n)
  case (Suc k)
  show ?case
  proof (cases "n < 16")
    case False
    then have "n div 16 < 16 ^ k" "0 < k" using Suc.prems by (auto intro!: gr0I)
    from Suc.IH [OF this] False show ?thesis by (subst numeral_text.simps) simp
  qed (subst numeral_text.simps, simp)
qed simp

text \<open>The buffer of \<open>Hex\<close> is large enough, and the number can be read back from what it holds.\<close>

lemma Hex_eq:
  assumes "width \<le> 8"
  obtains ds where "Hex v width = ''0x'' @ ds" "list_all is_digit ds" "number_of 16 ds = uint v"
proof -
  let ?n = "numeral_text 16 (uint v)" 
  let ?ds = "replicate (width - length ?n) (CHR ''0'') @ ?n"
  have "uint v < 2 ^ LENGTH(32)" by (rule unsigned_less)
  then have "uint v < 16 ^ 8" by simp
  then have "length ?n \<le> 8" by (rule numeral_text_length) simp
  then have "Hex v width = ''0x'' @ ?ds" using assms by (simp add: Hex_def Let_def)
  moreover have "is_digit (CHR ''0'')" by code_simp
  then have "list_all is_digit ?ds" using numeral_text_digits [of 16 "uint v"]
    by (simp add: list_all_iff) (metis Un_iff in_set_replicate)
  moreover have "number_of 16 ?ds = uint v" using numeral_text_digits [of 16 "uint v"] by (simp add: number_of_padded)
  ultimately show ?thesis by (rule that)
qed

subsection \<open>Reading a message back\<close>

text \<open>Digits end where a character that is none begins.\<close>

lemma digits_end:
  "list_all is_digit xs \<Longrightarrow> list_all is_digit ys \<Longrightarrow> \<not> is_digit c \<Longrightarrow> \<not> is_digit d \<Longrightarrow>
   xs @ c # r = ys @ d # q \<Longrightarrow> xs = ys \<and> c = d \<and> r = q"
proof (induction xs arbitrary: ys)
  case Nil
  then show ?case by (cases ys) auto
next
  case (Cons x xs)
  then show ?case by (cases ys) auto
qed

lemma Hex_inj:
  assumes "width \<le> 8" "\<not> is_digit c" "\<not> is_digit d" "Hex v width @ c # r = Hex w width @ d # q"
  shows "v = w \<and> c = d \<and> r = q"
proof -
  obtain xs where x: "Hex v width = ''0x'' @ xs" "list_all is_digit xs" "number_of 16 xs = uint v"
    using assms(1) by (rule Hex_eq)
  obtain ys where y: "Hex w width = ''0x'' @ ys" "list_all is_digit ys" "number_of 16 ys = uint w"
    using assms(1) by (rule Hex_eq)
  have "xs @ c # r = ys @ d # q" using assms(4) x(1) y(1) by simp
  from digits_end [OF x(2) y(2) assms(2,3) this] show ?thesis using x(3) y(3) by (auto simp: word_uint_eq_iff)
qed

lemma to_string_inj:
  assumes "\<not> is_digit c" "\<not> is_digit d" "to_string n @ c # r = to_string m @ d # q"
  shows "n = m \<and> c = d \<and> r = q"
proof -
  have "uint n = number_of 10 (to_string n)" for n
    using numeral_text_digits [of 10 "uint n"] by (simp add: to_string_def)
  moreover have "list_all is_digit (to_string n)" for n
    using numeral_text_digits [of 10 "uint n"] by (simp add: to_string_def)
  ultimately show ?thesis using digits_end [OF _ _ assms] by (metis word_uint_eq_iff)
qed

lemma text_iff:
  "\<not> is_digit c \<Longrightarrow> \<not> is_digit d \<Longrightarrow> to_string n @ c # r = to_string m @ d # q \<longleftrightarrow> n = m \<and> c = d \<and> r = q"
  "width \<le> 8 \<Longrightarrow> \<not> is_digit c \<Longrightarrow> \<not> is_digit d \<Longrightarrow>
    Hex v width @ c # r = Hex w width @ d # q \<longleftrightarrow> v = w \<and> c = d \<and> r = q"
  "width \<le> 8 \<Longrightarrow> Hex v width = Hex w width \<longleftrightarrow> v = w"
proof -
  show hex: "width \<le> 8 \<Longrightarrow> \<not> is_digit c \<Longrightarrow> \<not> is_digit d \<Longrightarrow>
    Hex v width @ c # r = Hex w width @ d # q \<longleftrightarrow> v = w \<and> c = d \<and> r = q" for c d r q
    using Hex_inj by blast
  have "\<not> is_digit (CHR '' '')" by code_simp
  with hex [of "CHR '' ''" "CHR '' ''" "[]" "[]"] show "width \<le> 8 \<Longrightarrow> Hex v width = Hex w width \<longleftrightarrow> v = w" by simp
qed (use to_string_inj in blast)

text \<open>The errors that name a node of the arm.\<close>

fun names_node :: "backend_error \<Rightarrow> bool" where
  "names_node (Sdo_Timed_Out n i s) = True"
| "names_node (Sdo_Aborted n i s c t) = True"
| "names_node (Failed_To_Enable n s c t) = True"
| "names_node (In_Fault n s c t) = True"
| "names_node e = False"

lemma not_digits [simp]: "\<not> is_digit (CHR '' '')" "\<not> is_digit (CHR '':'')" "\<not> is_digit (CHR '','')"
  by code_simp+

lemma ucast_u32_inj [simp]: "(ucast (a :: u16) :: u32) = ucast b \<longleftrightarrow> a = b" "(ucast (c :: u8) :: u32) = ucast d \<longleftrightarrow> c = d"
proof -
  have "(ucast (ucast x :: u32) :: u16) = x" for x by (rule bit_word_eqI) (simp add: bit_simps)
  then show "(ucast a :: u32) = ucast b \<longleftrightarrow> a = b" by metis
  have "(ucast (ucast x :: u32) :: u8) = x" for x by (rule bit_word_eqI) (simp add: bit_simps)
  then show "(ucast c :: u32) = ucast d \<longleftrightarrow> c = d" by metis
qed

text \<open>
  C10: An error message of the arm that names a node says exactly what happened: two such errors with
  the same text are the same error, with the same node, object, status word and code. \<open>Hex\<close> never
  truncates a number, although it prints into 16 bytes and pads to the width it is given.
\<close>

theorem arm_error_text_is_unambiguous:
  assumes "names_node e" "names_node e'" "error_text m e = error_text m' e'"
  shows "e = e'"
  using assms by (cases e; cases e'; simp add: text_defs text_iff)

lemma arm_error_text_is_unambiguous_witness:
  "error_text [] (In_Fault 5 0x1218 0x7121 (ErrorCodeText 0x7121)) =
     ''node 5 in fault (status word 0x1218, EMCY 0x7121: motor stalled)'' \<and>
   error_text [] (In_Fault 5 0x1218 0x7121 (ErrorCodeText 0x7121)) \<noteq> error_text [] (Sdo_Timed_Out 5 0x6041 0)"
proof -
  have "error_text [] (In_Fault 5 0x1218 0x7121 (ErrorCodeText 0x7121)) =
     ''node 5 in fault (status word 0x1218, EMCY 0x7121: motor stalled)''" by code_simp
  moreover have "error_text [] (In_Fault 5 0x1218 0x7121 t) \<noteq> error_text [] (Sdo_Timed_Out 5 0x6041 0)" for t
  proof
    assume "error_text [] (In_Fault 5 0x1218 0x7121 t) = error_text [] (Sdo_Timed_Out 5 0x6041 0)"
    from arm_error_text_is_unambiguous [OF _ _ this] show False by simp
  qed
  ultimately show ?thesis by blast
qed

end
