(* ===== verification/Odesc_Emulator.thy ===== *)
theory Odesc_Emulator
  imports Drive_Properties
begin

section \<open>The emulated bus of the drivetrain\<close>

text \<open>
  \<open>odesc/scripts/odesc\_vcan\_emulator.py\<close> stands in for the six motor controllers on a virtual bus: it
  takes velocities from the command frames, integrates positions and sends encoder estimates. Python's
  floats are doubles; \<open>struct.pack\<close> of a float raises \<open>OverflowError\<close> when a finite double rounds to an
  infinite float. Which sends the socket takes is an input. The lemmas lead to the round trip of a
  velocity from the plugin's \<open>write\<close> over the bus to its \<open>read\<close>.
\<close>

subsection \<open>The emulator\<close>

definition SET_INPUT_VEL :: u32 where "SET_INPUT_VEL = 0x0D"

definition GET_ENCODER_ESTIMATES :: u32 where "GET_ENCODER_ESTIMATES = 0x09"

definition NODE_COUNT :: nat where "NODE_COUNT = 6"

definition em_arbitration_id :: "nat \<Rightarrow> u32 \<Rightarrow> u32" where
  "em_arbitration_id node command = push_bit 5 (of_nat node) OR command"

record emulator =
  em_positions :: "fp list"
  em_velocities :: "fp list"

definition new_emulator :: emulator where
  "new_emulator = \<lparr>em_positions = replicate NODE_COUNT fzero, em_velocities = replicate NODE_COUNT fzero\<rparr>"

definition em_integrate :: "fp \<Rightarrow> emulator \<Rightarrow> emulator" where
  "em_integrate dt e = e\<lparr>em_positions :=
     map2 (\<lambda>p v. fadd binary64 p (fmul binary64 v dt)) (em_positions e) (em_velocities e)\<rparr>"

definition em_receive :: "can_frame \<Rightarrow> emulator \<Rightarrow> emulator" where
  "em_receive f e = (let
     node = unat (drop_bit 5 (can_id f AND 0x7FF)); command = can_id f AND 0x1F
   in if node < NODE_COUNT \<and> command = SET_INPUT_VEL \<and> 4 \<le> can_dlc f
      then e\<lparr>em_velocities := (em_velocities e)[node := fconv binary64 (decode32 (word_at (can_data f) 0))]\<rparr>
      else e)"

text \<open>\<open>struct.pack\<close> of one float: the four bytes, or nothing for an overflow.\<close>

definition pack_float :: "fp \<Rightarrow> u8 list option" where
  "pack_float x = (if fisfinite x \<and> \<not> fisfinite (fconv binary32 x) then None
     else Some (le_bytes (encode32 (fconv binary32 x))))"

text \<open>The frames that are sent, and whether the loop ends without an exception.\<close>

fun em_publish :: "(nat \<Rightarrow> bool) \<Rightarrow> nat list \<Rightarrow> emulator \<Rightarrow> can_frame list \<times> bool" where
  "em_publish takes [] e = ([], True)"
| "em_publish takes (node # nodes) e =
     (case (pack_float (em_positions e ! node), pack_float (em_velocities e ! node)) of
        (Some p, Some v) \<Rightarrow>
          if takes node
          then case em_publish takes nodes e of (frames, ok) \<Rightarrow>
            (\<lparr>can_id = em_arbitration_id node GET_ENCODER_ESTIMATES, can_dlc = 8, can_data = p @ v\<rparr> # frames, ok)
          else ([], False)
      | _ \<Rightarrow> ([], False))"

text \<open>One turn of the loop: integration, all frames that wait, and the estimates when they are due.\<close>

definition em_turn :: "fp \<Rightarrow> bool \<Rightarrow> (nat \<Rightarrow> bool) \<Rightarrow> can_frame list \<Rightarrow> emulator \<Rightarrow> (can_frame list \<times> bool) \<times> emulator" where
  "em_turn dt due takes incoming e = (let e = fold em_receive incoming (em_integrate dt e)
   in (if due then em_publish takes [0..<NODE_COUNT] e else ([], True), e))"

subsection \<open>A velocity command reaches the emulator\<close>

lemma node_cases:
  assumes "unat (node :: u8) < NODE_COUNT"
  shows "node = 0 \<or> node = 1 \<or> node = 2 \<or> node = 3 \<or> node = 4 \<or> node = 5"
proof -
  have "unat node = 0 \<or> unat node = 1 \<or> unat node = 2 \<or> unat node = 3 \<or> unat node = 4 \<or> unat node = 5"
    using assms by (simp add: NODE_COUNT_def) linarith
  then show ?thesis by (auto simp: word_unat_eq_iff)
qed

lemma em_receive_command:
  assumes "unat node < NODE_COUNT" "fp_ok binary32 f"
  shows "em_receive (odrive_frame node 13 (le_bytes (encode32 f) @ [0, 0, 0, 0])) e =
    e\<lparr>em_velocities := (em_velocities e)[unat node := f]\<rparr>"
proof -
  let ?id = "ucast node * 32 + 13 :: u32"
  have "unat (drop_bit 5 (?id AND 0x7FF)) = unat node \<and> ?id AND 0x1F = 13"
    using node_cases [OF assms(1)] by (elim disjE) simp_all
  moreover have "decode32 (word_at (le_bytes (encode32 f) @ [0, 0, 0, 0]) 0) = f"
    using decode32_encode32 [OF assms(2)] by (simp add: le_bytes_def)
  ultimately show ?thesis
    using assms by (simp add: em_receive_def odrive_frame_def SET_INPUT_VEL_def Let_def)
qed

lemma em_receive_commands:
  assumes "distinct ns" "\<forall>n \<in> set ns. unat n < NODE_COUNT" "length fs = length ns" "\<forall>f \<in> set fs. fp_ok binary32 f"
    "length (em_velocities e) = NODE_COUNT"
  shows "\<forall>j < length ns. em_velocities (fold em_receive (map2 (\<lambda>n f. odrive_frame n 13 (le_bytes (encode32 f) @ [0, 0, 0, 0])) ns fs) e)
      ! unat (ns ! j) = fs ! j"
  using assms
proof (induction ns arbitrary: fs e)
  case (Cons n ns)
  then obtain f fs' where fs: "fs = f # fs'" by (cases fs) auto
  have keep: "em_velocities (fold em_receive (map2 (\<lambda>n f. odrive_frame n 13 (le_bytes (encode32 f) @ [0, 0, 0, 0])) ms gs) e') ! i =
      em_velocities e' ! i"
    if "\<forall>m \<in> set ms. unat m < NODE_COUNT \<and> unat m \<noteq> i" "\<forall>g \<in> set gs. fp_ok binary32 g" for ms gs e' i
    using that
  proof (induction ms arbitrary: gs e')
    case (Cons m ms)
    then show ?case by (cases gs) (simp_all add: em_receive_command)
  qed simp
  let ?e = "e\<lparr>em_velocities := (em_velocities e)[unat n := f]\<rparr>"
  have step: "em_receive (odrive_frame n 13 (le_bytes (encode32 f) @ [0, 0, 0, 0])) e = ?e"
    using Cons.prems(2,4) by (intro em_receive_command) (simp_all add: fs)
  have rest: "\<forall>j < length ns. em_velocities (fold em_receive (map2 (\<lambda>n f. odrive_frame n 13 (le_bytes (encode32 f) @ [0, 0, 0, 0])) ns fs') ?e)
      ! unat (ns ! j) = fs' ! j"
    using Cons.prems by (intro Cons.IH) (simp_all add: fs)
  have "em_velocities (fold em_receive (map2 (\<lambda>n f. odrive_frame n 13 (le_bytes (encode32 f) @ [0, 0, 0, 0])) ns fs') ?e)
      ! unat n = f"
    using Cons.prems by (subst keep) (auto simp: fs word_unat_eq_iff [symmetric])
  with rest show ?case by (auto simp: fs step nth_Cons split: nat.splits)
qed simp

subsection \<open>The estimates reach the plugin\<close>

lemma em_publish_frames:
  "em_publish takes ns e = (fs, True) \<Longrightarrow> fs = map (\<lambda>n. \<lparr>can_id = em_arbitration_id n GET_ENCODER_ESTIMATES, can_dlc = 8,
     can_data = le_bytes (encode32 (fconv binary32 (em_positions e ! n))) @
       le_bytes (encode32 (fconv binary32 (em_velocities e ! n)))\<rparr>) ns"
  by (induction ns arbitrary: fs) (auto simp: pack_float_def split: if_splits prod.splits)

lemma em_frame_is_estimate:
  assumes "unat node < NODE_COUNT"
  shows "\<lparr>can_id = em_arbitration_id (unat node) GET_ENCODER_ESTIMATES, can_dlc = 8,
      can_data = le_bytes (encode32 p) @ le_bytes (encode32 v)\<rparr> = socket_frame (estimate_frame node p v)"
proof -
  have "node \<le> kMaxNodeId" using node_cases [OF assms] by (auto simp: kMaxNodeId_def)
  from socket_identifier [OF this, of MSG_GET_ENCODER_ESTIMATES]
  have "ucast (arbitration_id (estimate_frame node p v)) AND CAN_SFF_MASK = (ucast node * 32 + 9 :: u32)"
    by (simp add: estimate_frame_def)
  moreover have "em_arbitration_id (unat node) GET_ENCODER_ESTIMATES = ucast node * 32 + 9"
    using node_cases [OF assms] by (elim disjE) (simp_all add: em_arbitration_id_def GET_ENCODER_ESTIMATES_def)
  ultimately show ?thesis
    by (simp add: socket_frame_def) (simp add: estimate_frame_def copy_bytes_def le_bytes_def)
qed

text \<open>A receive attempt that delivers a frame.\<close>

definition bus_delivers :: "can_frame \<Rightarrow> rx_calls" where
  "bus_delivers f = \<lparr>poll_ret = 1, poll_eintr = False, poll_in = True, read_ret = sizeof_can_frame, rx_frame = f\<rparr>"

lemma receive_estimate:
  assumes "0 \<le> fd" "node \<le> kMaxNodeId"
  shows "transport_receive fd (bus_delivers (socket_frame (estimate_frame node p v))) = (Some (estimate_frame node p v), None)"
proof -
  let ?f = "estimate_frame node p v"
  have "?f\<lparr>data := copy_bytes (unat (data_length ?f)) (data ?f)\<rparr> = ?f"
    by (simp add: estimate_frame_def)
  moreover have "transport_receive fd (bus_delivers (socket_frame ?f)) =
      (Some (?f\<lparr>data := copy_bytes (unat (data_length ?f)) (data ?f)\<rparr>), None)"
    using assms MakeArbitrationId_11_bits [OF assms(2), of MSG_GET_ENCODER_ESTIMATES]
    by (intro transport_receive_socket_frame) (simp_all add: bus_delivers_def estimate_frame_def kMaxDataLength_def)
  ultimately show ?thesis by simp
qed

lemma estimate_of_frame:
  assumes "node \<le> kMaxNodeId" "m = node \<longrightarrow> fp_ok binary32 v"
  shows "map_option est_velocity_turns_s (estimate_of m (estimate_frame node p v)) = (if m = node then Some v else None)"
  using ParseArbitrationId_MakeArbitrationId [OF assms(1), of MSG_GET_ENCODER_ESTIMATES] decode32_encode32 [of v] assms(2)
  by (simp add: estimate_of_def estimate_frame_def Let_def)

lemma last_estimate_of_nodes:
  assumes "fp_ok binary32 (v (unat m))" "unat m < NODE_COUNT"
  shows "map_option est_velocity_turns_s
    (last_estimate m (map (\<lambda>n. estimate_frame (of_nat n) (p n) (v n)) [0..<NODE_COUNT])) = Some (v (unat m))"
proof -
  have one: "map_option est_velocity_turns_s (estimate_of m (estimate_frame (of_nat n) (p n) (v n))) =
      (if unat m = n then Some (v n) else None)" if "n < NODE_COUNT" for n
  proof -
    have "of_nat n \<le> kMaxNodeId" "m = of_nat n \<longleftrightarrow> unat m = n"
      using that by (auto simp: kMaxNodeId_def word_le_nat_alt unat_of_nat NODE_COUNT_def word_unat_eq_iff)
    then show ?thesis using estimate_of_frame [of "of_nat n" m "v n" "p n"] assms(1) by auto
  qed
  have "map_option est_velocity_turns_s (last_estimate m (map (\<lambda>n. estimate_frame (of_nat n) (p n) (v n)) ns)) =
      (if unat m \<in> set ns then Some (v (unat m)) else None)" if "\<forall>n \<in> set ns. n < NODE_COUNT" for ns
    using that
  proof (induction ns)
    case Nil
    then show ?case by (simp add: last_estimate_def map_filter_simps)
  next
    case (Cons n ns)
    then show ?case using one [of n]
      by (cases "last_estimate m (map (\<lambda>n. estimate_frame (of_nat n) (p n) (v n)) ns)")
        (auto simp: last_estimate_Cons split: if_splits)
  qed
  then show ?thesis using assms(2) by auto
qed

lemma fold_odesc_rx:
  "od_backend h = Some (SocketCan_Drive b) \<Longrightarrow>
   fold odesc_rx cs h = h\<lparr>od_backend := Some (SocketCan_Drive (drive_rx_loop cs b))\<rparr>"
proof (induction cs arbitrary: h b)
  case (Cons c cs)
  then show ?case
    using Cons.IH [of "odesc_rx c h" "drive_rx_turn c b"] by (simp add: odesc_rx_def drive_rx_loop_def)
qed (simp add: drive_rx_loop_def)

lemma odesc_read_velocities:
  assumes "odesc_owns base h k" "od_backend h = Some (SocketCan_Drive b)" "0 \<le> sd_fd b"
  shows "\<exists>h'. odesc_read period (fold odesc_rx cs h) = Done (RT_OK, h') \<and>
    od_hw_velocities h' = map (\<lambda>n. velocity_rad_s (drive_joint_state (sd_gear_ratio b)
      (case last_estimate n (received (sd_fd b) cs) of None \<Rightarrow> sd_estimates b ! unat n | Some e \<Rightarrow> e) zero_state)) (sd_node_ids b)"
proof -
  have inv: "socketcan_drive_inv b" and len: "length (sd_node_ids b) = length (od_joint_names h)"
      "length (od_hw_positions h) = length (od_joint_names h)" "length (od_hw_velocities h) = length (od_joint_names h)"
    using assms(1,2) by (auto simp: odesc_owns_def socketcan_drive_owns_def socketcan_drive_width_def)
  have small: "unat n < 64" if "n \<in> set (sd_node_ids b)" for n
    using node_ids_valid [OF inv that] by (simp add: kMaxNodeId_def word_le_nat_alt)
  let ?b = "drive_rx_loop cs b"
  note loop = drive_rx_loop_estimates [OF inv assms(3), of _ cs]
  have b: "socketcan_drive_inv ?b" "0 \<le> sd_fd ?b" "sd_node_ids ?b = sd_node_ids b" "sd_gear_ratio ?b = sd_gear_ratio b"
    using loop [of 0] assms(3) by simp_all
  let ?sts = "map (\<lambda>n. drive_joint_state (sd_gear_ratio b) (sd_estimates ?b ! unat n) zero_state) (sd_node_ids b)"
  have "copy_states [0..<length (od_joint_names h)] ?sts (od_hw_positions h, od_hw_velocities h) =
      Done (map position_rad ?sts, map velocity_rad_s ?sts)"
    using copy_states_all [of "od_hw_positions h" ?sts "od_hw_velocities h"] len by simp
  then obtain h' where "odesc_read period (fold odesc_rx cs h) = Done (RT_OK, h')" "od_hw_velocities h' = map velocity_rad_s ?sts"
    using socketcan_drive_read_eq [OF b(1,2), of "od_backend_states h" period] b(3,4)
    by (simp add: odesc_read_def fold_odesc_rx [OF assms(2)] Let_def)
  moreover have "map velocity_rad_s ?sts = map (\<lambda>n. velocity_rad_s (drive_joint_state (sd_gear_ratio b)
      (case last_estimate n (received (sd_fd b) cs) of None \<Rightarrow> sd_estimates b ! unat n | Some e \<Rightarrow> e) zero_state)) (sd_node_ids b)"
    using loop small by simp
  ultimately show ?thesis by auto
qed

lemma motor_float_ok: "0 \<le> c \<Longrightarrow> 0 < g \<Longrightarrow> fp_ok binary32 (fconv binary32 (motor_turns (FFin t g) (FFin s c)))"
proof -
  assume "0 \<le> c" "0 < g"
  then have "fp_ok binary64 (fmul binary64 (FFin s c) (FFin t g))" by (simp add: fround_ok del: fp_ok.simps)
  moreover have "fp_ok binary64 odesc_kTwoPi" by (simp add: odesc_kTwoPi_def fp_ok_intros)
  ultimately show ?thesis
    unfolding motor_turns_def by (intro fp_ok_fconv [where F = binary64] fp_ok_fdiv wf_binary)
qed

text \<open>What the emulator is told comes back as its estimate, whatever it held before.\<close>

lemma emulator_echoes:
  assumes ns: "distinct ns" "\<forall>n \<in> set ns. unat n < NODE_COUNT" "length fs = length ns" "\<forall>f \<in> set fs. fp_ok binary32 f"
    and em: "length (em_positions e) = NODE_COUNT" "length (em_velocities e) = NODE_COUNT"
    and turn: "em_turn dt True takes (map2 (\<lambda>n f. odrive_frame n 13 (le_bytes (encode32 f) @ [0, 0, 0, 0])) ns fs) e =
      ((frames, True), e')"
    and "0 \<le> fd" "j < length ns"
  shows "\<exists>est. last_estimate (ns ! j) (received fd (map bus_delivers frames)) = Some est \<and> est_velocity_turns_s est = fs ! j"
proof -
  let ?sent = "map2 (\<lambda>n f. odrive_frame n 13 (le_bytes (encode32 f) @ [0, 0, 0, 0])) ns fs"
  have e': "e' = fold em_receive ?sent (em_integrate dt e)" "em_publish takes [0..<NODE_COUNT] e' = (frames, True)"
    using turn by (auto simp: em_turn_def Let_def)
  let ?p = "\<lambda>n. fconv binary32 (em_positions e' ! n)" and ?v = "\<lambda>n. fconv binary32 (em_velocities e' ! n)"
  have "em_velocities e' ! unat (ns ! j) = fs ! j"
    using em_receive_commands [OF ns, of "em_integrate dt e"] em assms(9) by (simp add: e'(1) em_integrate_def)
  moreover have ok: "fp_ok binary32 (fs ! j)" using ns(3,4) assms(9) by simp
  ultimately have v: "?v (unat (ns ! j)) = fs ! j" by (simp add: fconv_id)
  have node: "unat (of_nat n :: u8) = n" "of_nat n \<le> kMaxNodeId" if "n < NODE_COUNT" for n
    using that by (auto simp: NODE_COUNT_def unat_of_nat kMaxNodeId_def word_le_nat_alt)
  have "\<lparr>can_id = em_arbitration_id n GET_ENCODER_ESTIMATES, can_dlc = 8,
      can_data = le_bytes (encode32 p) @ le_bytes (encode32 v)\<rparr> = socket_frame (estimate_frame (of_nat n) p v)"
    if "n < NODE_COUNT" for n p v
    using em_frame_is_estimate [of "of_nat n" p v] node(1) [OF that] that by simp
  then have "frames = map (\<lambda>n. socket_frame (estimate_frame (of_nat n) (?p n) (?v n))) [0..<NODE_COUNT]"
    unfolding em_publish_frames [OF e'(2)] by (intro map_cong) simp_all
  then have "received fd (map bus_delivers frames) = map (\<lambda>n. estimate_frame (of_nat n) (?p n) (?v n)) [0..<NODE_COUNT]"
    using receive_estimate [OF assms(8) node(2)] by (simp add: received_def map_filter_def comp_def cong: map_cong)
  then show ?thesis
    using last_estimate_of_nodes [of ?v "ns ! j" ?p] ns(2) assms(9) ok by (auto simp: v)
qed

text \<open>
  C22: The drivetrain closes its loop over the bus: when the plugin's \<open>write\<close> has queued its frames, one
  turn of the emulator receives them and publishes its estimates, and the receive thread gets
  those, the next \<open>read\<close> reports every wheel at its commanded velocity, with a relative error of at
  most \<open>2\<^sup>-\<^sup>2\<^sup>3\<close>, whatever the emulator held before.
\<close>

theorem drive_closes_its_loop_over_the_bus:
  assumes h: "odesc_owns base h k" "od_backend h = Some (SocketCan_Drive b)" "0 \<le> sd_fd b" "writes_ok k"
    and ids: "distinct (sd_node_ids b)" "\<forall>n \<in> set (sd_node_ids b). unat n < NODE_COUNT"
    and g: "sd_gear_ratio b = FFin t g" "0 < g" "sized 10 g"
    and cmds: "\<forall>c \<in> set (od_hw_commands h). \<exists>s m. c = FFin s m \<and> 0 \<le> m \<and> sized 100 m"
    and em: "length (em_positions e) = NODE_COUNT" "length (em_velocities e) = NODE_COUNT"
  shows "\<exists>h1 k1 sent. odesc_write h k = Done (RT_OK, h1, k1) \<and> wire k1 = wire k @ sent \<and>
    (\<forall>dt takes frames e'. em_turn dt True takes sent e = ((frames, True), e') \<longrightarrow>
      (\<exists>h2. odesc_read period (fold odesc_rx (map bus_delivers frames) h1) = Done (RT_OK, h2) \<and>
        list_all2 (\<lambda>v c. \<exists>s m s' m'. c = FFin s m \<and> v = FFin s' m' \<and> \<bar>signed s' m' - signed s m\<bar> \<le> pow2 (- 23) * m)
          (od_hw_velocities h2) (od_hw_commands h)))"
proof -
  let ?float = "\<lambda>c. fconv binary32 (motor_turns (sd_gear_ratio b) c)"
  let ?fs = "map ?float (od_hw_commands h)"
  have len: "length (od_hw_commands h) = length (sd_node_ids b)"
    using h(1,2) by (auto simp: odesc_owns_def socketcan_drive_owns_def socketcan_drive_width_def)
  have ok: "fp_ok binary32 (?float c)" if "c \<in> set (od_hw_commands h)" for c
    using cmds that g(1,2) motor_float_ok by force
  let ?sent = "map2 (\<lambda>n f. odrive_frame n 13 (le_bytes (encode32 f) @ [0, 0, 0, 0])) (sd_node_ids b) ?fs"
  obtain k1 where w: "odesc_write h k = Done (RT_OK, h, k1)" "wire k1 = wire k @ ?sent"
    using drive_write_frames [OF h] by (auto simp: zip_map2 comp_def case_prod_unfold)
  have "\<exists>h2. odesc_read period (fold odesc_rx (map bus_delivers frames) h) = Done (RT_OK, h2) \<and>
      list_all2 (\<lambda>v c. \<exists>s m s' m'. c = FFin s m \<and> v = FFin s' m' \<and> \<bar>signed s' m' - signed s m\<bar> \<le> pow2 (- 23) * m)
        (od_hw_velocities h2) (od_hw_commands h)"
    if turn: "em_turn dt True takes ?sent e = ((frames, True), e')" for dt takes frames e'
  proof -
    obtain h2 where r: "odesc_read period (fold odesc_rx (map bus_delivers frames) h) = Done (RT_OK, h2)"
      and v: "od_hw_velocities h2 = map (\<lambda>n. velocity_rad_s (drive_joint_state (sd_gear_ratio b)
        (case last_estimate n (received (sd_fd b) (map bus_delivers frames)) of None \<Rightarrow> sd_estimates b ! unat n | Some e \<Rightarrow> e)
        zero_state)) (sd_node_ids b)"
      using odesc_read_velocities [OF h(1-3)] by blast
    have "list_all2 (\<lambda>v c. \<exists>s m s' m'. c = FFin s m \<and> v = FFin s' m' \<and> \<bar>signed s' m' - signed s m\<bar> \<le> pow2 (- 23) * m)
        (od_hw_velocities h2) (od_hw_commands h)"
    proof (rule list_all2_all_nthI)
      fix j
      assume "j < length (od_hw_velocities h2)"
      then have j: "j < length (sd_node_ids b)" by (simp add: v)
      let ?n = "sd_node_ids b ! j" and ?c = "od_hw_commands h ! j"
      have c: "?c \<in> set (od_hw_commands h)" using j len by simp
      obtain est where est: "last_estimate ?n (received (sd_fd b) (map bus_delivers frames)) = Some est"
          "est_velocity_turns_s est = ?float ?c"
        using emulator_echoes [OF ids _ _ em turn h(3) j] ok len j by auto
      obtain s m where m: "?c = FFin s m" "0 \<le> m" "sized 100 m" using cmds c by blast
      have "est_velocity_turns_s est = fconv binary64 (fconv binary32 (motor_turns (FFin t g) (FFin s m)))"
        using est(2) ok [OF c] by (simp add: m(1) g(1) del: fconv.simps)
      from drive_velocity_survives_the_loop [OF m(2,3) g(2,3) this, of zero_state]
      show "\<exists>s m s' m'. ?c = FFin s m \<and> od_hw_velocities h2 ! j = FFin s' m' \<and> \<bar>signed s' m' - signed s m\<bar> \<le> pow2 (- 23) * m"
        using m(1) j by (auto simp: v est(1) g(1))
    qed (simp add: v len)
    with r show ?thesis by blast
  qed
  with w show ?thesis by - (rule exI [of _ h], rule exI [of _ k1], rule exI [of _ ?sent], intro conjI allI impI)
qed

subsection \<open>Two wheels on the emulated bus\<close>

definition emulated_wheels :: SocketCanDrive where
  "emulated_wheels = (new_SocketCanDrive ''vcan0'' [3, 1] (FFin True (25 / 2)))
     \<lparr>sd_fd := 5, sd_rx_joinable := True, sd_rx_running := True\<rparr>"

definition emulated_drive :: OdescSystemHardware where
  "emulated_drive = sample_drive (SocketCan_Drive emulated_wheels)
     \<lparr>od_node_ids := [3, 1], od_hw_commands := [FFin False two_pi, fzero]\<rparr>"

lemma emulated_drive_sends:
  "\<exists>k1. odesc_write emulated_drive sample_kernel = Done (RT_OK, emulated_drive, k1) \<and>
    wire k1 = [\<lparr>can_id = 109, can_dlc = 8, can_data = [0, 0, 0x48, 0xC1, 0, 0, 0, 0]\<rparr>,
               \<lparr>can_id = 45, can_dlc = 8, can_data = [0, 0, 0, 0x80, 0, 0, 0, 0]\<rparr>]"
  and emulated_drive_owns: "odesc_owns [] emulated_drive sample_kernel"
proof -
  show own: "odesc_owns [] emulated_drive sample_kernel"
    by (simp add: odesc_owns_def emulated_drive_def sample_drive_def emulated_wheels_def socketcan_drive_defs
        sample_kernel_def new_SocketCanDrive_def kMaxNodeId_def owns_def)
  have "odrive_frame 3 13 (le_bytes (encode32 (fconv binary32 (motor_turns (FFin True (25 / 2)) (FFin False two_pi)))) @ [0, 0, 0, 0])
      = \<lparr>can_id = 109, can_dlc = 8, can_data = [0, 0, 0x48, 0xC1, 0, 0, 0, 0]\<rparr>"
    "odrive_frame 1 13 (le_bytes (encode32 (fconv binary32 (motor_turns (FFin True (25 / 2)) fzero))) @ [0, 0, 0, 0])
      = \<lparr>can_id = 45, can_dlc = 8, can_data = [0, 0, 0, 0x80, 0, 0, 0, 0]\<rparr>"
    by code_simp+
  then show "\<exists>k1. odesc_write emulated_drive sample_kernel = Done (RT_OK, emulated_drive, k1) \<and>
    wire k1 = [\<lparr>can_id = 109, can_dlc = 8, can_data = [0, 0, 0x48, 0xC1, 0, 0, 0, 0]\<rparr>,
               \<lparr>can_id = 45, can_dlc = 8, can_data = [0, 0, 0, 0x80, 0, 0, 0, 0]\<rparr>]"
    using drive_write_frames [OF own, of emulated_wheels] sample_active(2)
    by (simp add: emulated_drive_def emulated_wheels_def sample_drive_def new_SocketCanDrive_def sample_kernel_def)
qed

lemma emulated_turn:
  "snd (fst (em_turn fzero True (\<lambda>_. True) [\<lparr>can_id = 109, can_dlc = 8, can_data = [0, 0, 0x48, 0xC1, 0, 0, 0, 0]\<rparr>,
     \<lparr>can_id = 45, can_dlc = 8, can_data = [0, 0, 0, 0x80, 0, 0, 0, 0]\<rparr>] new_emulator))"
  by code_simp

lemma drive_closes_its_loop_over_the_bus_witness:
  "\<exists>h1 k1 frames e' h2. odesc_write emulated_drive sample_kernel = Done (RT_OK, h1, k1) \<and>
     em_turn fzero True (\<lambda>_. True) (wire k1) new_emulator = ((frames, True), e') \<and>
     odesc_read fzero (fold odesc_rx (map bus_delivers frames) h1) = Done (RT_OK, h2) \<and>
     list_all2 (\<lambda>v c. \<exists>s m s' m'. c = FFin s m \<and> v = FFin s' m' \<and> \<bar>signed s' m' - signed s m\<bar> \<le> pow2 (- 23) * m)
       (od_hw_velocities h2) [FFin False two_pi, fzero]"
proof -
  have b: "od_backend emulated_drive = Some (SocketCan_Drive emulated_wheels)" "0 \<le> sd_fd emulated_wheels"
    "sd_node_ids emulated_wheels = [3, 1]" "sd_gear_ratio emulated_wheels = FFin True (25 / 2)"
    "od_hw_commands emulated_drive = [FFin False two_pi, fzero]" "wire sample_kernel = []"
    by (simp_all add: emulated_drive_def emulated_wheels_def sample_drive_def new_SocketCanDrive_def sample_kernel_def)
  have "\<forall>c \<in> set (od_hw_commands emulated_drive). \<exists>s m. c = FFin s m \<and> 0 \<le> m \<and> sized 100 m"
  proof -
    have "0 \<le> two_pi \<and> sized 100 two_pi" "0 \<le> (0 :: rat) \<and> sized 100 0"
      using sized_mono [OF two_pi_facts(2), of 100] two_pi_facts(1) by (simp_all add: sized_def)
    then show ?thesis by (auto simp: b fzero_def)
  qed
  moreover have "sized 10 (25 / 2)" by (simp add: sized_def power_int_minus)
  ultimately obtain h1 k1 sent where w: "odesc_write emulated_drive sample_kernel = Done (RT_OK, h1, k1)" "wire k1 = sent"
    and t: "\<And>dt takes frames e'. em_turn dt True takes sent new_emulator = ((frames, True), e') \<Longrightarrow>
      \<exists>h2. odesc_read fzero (fold odesc_rx (map bus_delivers frames) h1) = Done (RT_OK, h2) \<and>
        list_all2 (\<lambda>v c. \<exists>s m s' m'. c = FFin s m \<and> v = FFin s' m' \<and> \<bar>signed s' m' - signed s m\<bar> \<le> pow2 (- 23) * m)
          (od_hw_velocities h2) [FFin False two_pi, fzero]"
    using drive_closes_its_loop_over_the_bus [OF emulated_drive_owns b(1,2) sample_active(2) _ _ b(4), of new_emulator fzero]
    by (simp add: b(3,5,6) new_emulator_def NODE_COUNT_def) blast
  obtain frames ok e' where e: "em_turn fzero True (\<lambda>_. True) sent new_emulator = ((frames, ok), e')"
    by (metis surj_pair)
  have "ok" using emulated_turn emulated_drive_sends w e by auto
  with t [of fzero "\<lambda>_. True" frames e'] w e show ?thesis by auto
qed

end
