(* ===== verification/Gps_Device.thy ===== *)
theory Gps_Device
  imports Float_Bits
begin

section \<open>The serial line of the GPS receiver\<close>

text \<open>
  \<open>comms/include/comms/SerialDevice.hpp\<close>: opening, configuring and reading the terminal device. The
  results of the system calls are inputs; the descriptors that are open and the settings in force are
  the state of the terminal. What \<open>cfmakeraw\<close> and \<open>cfsetspeed\<close> do to the settings is a parameter.
\<close>

record termios =
  c_iflag :: u32
  c_oflag :: u32
  c_cflag :: u32
  c_lflag :: u32
  c_cc :: "nat \<Rightarrow> u8"

text \<open>The Linux values of the flags and of the indices into \<open>c\_cc\<close>.\<close>

definition IGNCR :: u32 where "IGNCR = 0x80"

definition ICRNL :: u32 where "ICRNL = 0x100"

definition IXON :: u32 where "IXON = 0x400"

definition IXOFF :: u32 where "IXOFF = 0x1000"

definition CSTOPB :: u32 where "CSTOPB = 0x40"

definition CREAD :: u32 where "CREAD = 0x80"

definition CLOCAL :: u32 where "CLOCAL = 0x800"

definition VTIME :: nat where "VTIME = 5"

definition VMIN :: nat where "VMIN = 6"

definition B9600 :: nat where "B9600 = 13"

lemmas tty_flags = IGNCR_def ICRNL_def IXON_def IXOFF_def CSTOPB_def CREAD_def CLOCAL_def

record tty =
  tty_fds :: "int list"
  tty_settings :: "termios option"

text \<open>Where the bytes of a \<open>char *\<close> live; \<open>delete\<close> is defined for a single object from \<open>new\<close> only.\<close>

datatype allocation = Static_Storage | New_Object | New_Array

record SerialDevice =
  deviceName :: "string \<times> allocation"
  dev_fd :: int
  baudRate :: nat

definition new_SerialDevice :: "string \<times> allocation \<Rightarrow> SerialDevice" where
  "new_SerialDevice name = \<lparr>deviceName = name, dev_fd = -1, baudRate = B9600\<rparr>"

text \<open>
  The calls of one \<open>openDevice\<close>: \<open>open\<close> returns a descriptor that is not in use or -1, the settings
  as \<open>tcgetattr\<close> leaves them (its result is not looked at), \<open>tcsetattr\<close> returns 0 or not.
\<close>

record tty_calls =
  open_ret :: int
  tcgetattr_out :: termios
  tcsetattr_ret :: int

record libc =
  cfmakeraw :: "termios \<Rightarrow> termios"
  cfsetspeed :: "nat \<Rightarrow> termios \<Rightarrow> termios"

definition device_settings :: "libc \<Rightarrow> nat \<Rightarrow> termios \<Rightarrow> termios" where
  "device_settings lib speed t = (let
     t = cfsetspeed lib speed (cfmakeraw lib t);
     t = t\<lparr>c_iflag := c_iflag t AND NOT (IXON OR IXOFF OR IGNCR)\<rparr>;
     t = t\<lparr>c_iflag := c_iflag t OR ICRNL\<rparr>;
     t = t\<lparr>c_cflag := c_cflag t OR (CREAD OR CLOCAL)\<rparr>;
     t = t\<lparr>c_cflag := c_cflag t AND NOT CSTOPB\<rparr>;
     t = t\<lparr>c_oflag := 0, c_lflag := 0\<rparr>
   in t\<lparr>c_cc := (c_cc t)(VTIME := 5, VMIN := 0)\<rparr>)"

definition tty_close :: "int \<Rightarrow> tty \<Rightarrow> tty" where
  "tty_close fd k = k\<lparr>tty_fds := remove1 fd (tty_fds k)\<rparr>"

definition openDevice :: "libc \<Rightarrow> tty_calls \<Rightarrow> SerialDevice \<Rightarrow> tty \<Rightarrow> bool \<times> SerialDevice \<times> tty" where
  "openDevice lib c d k = (let
     k = (if dev_fd d \<noteq> -1 then tty_close (dev_fd d) k else k);
     d = d\<lparr>dev_fd := open_ret c\<rparr>
   in if dev_fd d < 0 then (False, d, k)
      else let k = k\<lparr>tty_fds := dev_fd d # tty_fds k\<rparr>;
               t = device_settings lib (baudRate d) (tcgetattr_out c)
        in if tcsetattr_ret c \<noteq> 0 then (False, d, k) else (True, d, k\<lparr>tty_settings := Some t\<rparr>))"

definition destroy_SerialDevice :: "SerialDevice \<Rightarrow> tty \<Rightarrow> tty outcome" where
  "destroy_SerialDevice d k = (if snd (deviceName d) \<noteq> New_Object then Undefined
     else Done (if dev_fd d \<noteq> -1 then tty_close (dev_fd d) k else k))"

text \<open>
  \<open>read\<close> returns -1 or the number of bytes it stored; the conversion to \<open>size\_t\<close> makes -1 the
  largest value. The bytes behind those stored keep what was there.
\<close>

record read_call =
  read_result :: int
  read_bytes :: "u8 list"

definition read_ok :: "nat \<Rightarrow> read_call \<Rightarrow> bool" where
  "read_ok len r \<longleftrightarrow> (read_result r = -1 \<or>
     0 \<le> read_result r \<and> nat (read_result r) \<le> len \<and> length (read_bytes r) = nat (read_result r))"

definition device_readMsg :: "read_call \<Rightarrow> u8 list \<Rightarrow> u64 \<times> u8 list" where
  "device_readMsg r msg = (let n = (if 0 \<le> read_result r then min (nat (read_result r)) (length msg) else 0)
   in (word_of_int (read_result r), take n (read_bytes r) @ drop n msg))"

subsection \<open>What the settings do\<close>

lemma bit_power_2 [simp]: "bit (2 ^ k :: int) n \<longleftrightarrow> n = k"
  using bit_push_bit_iff [of k "1 :: int" n] by (auto simp: push_bit_eq_mult bit_1_iff)

lemma flag_bits:
  "bit (128 :: int) n \<longleftrightarrow> n = 7" "bit (256 :: int) n \<longleftrightarrow> n = 8" "bit (1024 :: int) n \<longleftrightarrow> n = 10"
  "bit (4096 :: int) n \<longleftrightarrow> n = 12" "bit (64 :: int) n \<longleftrightarrow> n = 6" "bit (2048 :: int) n \<longleftrightarrow> n = 11"
  using bit_power_2 [of 7 n] bit_power_2 [of 8 n] bit_power_2 [of 10 n] bit_power_2 [of 12 n] bit_power_2 [of 6 n]
    bit_power_2 [of 11 n]
  by (simp_all del: bit_power_2)

definition raw_input :: "termios \<Rightarrow> bool" where
  "raw_input t \<longleftrightarrow> c_iflag t AND (IXON OR IXOFF OR IGNCR) = 0 \<and> c_cflag t AND (CREAD OR CLOCAL) = (CREAD OR CLOCAL) \<and>
     c_cflag t AND CSTOPB = 0 \<and> c_oflag t = 0 \<and> c_lflag t = 0 \<and> c_cc t VTIME = 5 \<and> c_cc t VMIN = 0"

lemma device_settings_raw:
  "raw_input (device_settings lib speed t)" "c_iflag (device_settings lib speed t) AND ICRNL = ICRNL"
proof -
  let ?t = "cfsetspeed lib speed (cfmakeraw lib t)"
  have f: "c_iflag (device_settings lib speed t) = (c_iflag ?t AND NOT (IXON OR IXOFF OR IGNCR)) OR ICRNL"
    "c_cflag (device_settings lib speed t) = (c_cflag ?t OR (CREAD OR CLOCAL)) AND NOT CSTOPB"
    "c_oflag (device_settings lib speed t) = 0" "c_lflag (device_settings lib speed t) = 0"
    "c_cc (device_settings lib speed t) VTIME = 5" "c_cc (device_settings lib speed t) VMIN = 0"
    by (simp_all add: device_settings_def Let_def VTIME_def VMIN_def)
  have "((x AND NOT (IXON OR IXOFF OR IGNCR)) OR ICRNL) AND (IXON OR IXOFF OR IGNCR) = 0" for x
    by (rule bit_word_eqI) (auto simp: bit_simps tty_flags flag_bits)
  moreover have "((x OR (CREAD OR CLOCAL)) AND NOT CSTOPB) AND (CREAD OR CLOCAL) = (CREAD OR CLOCAL)"
    "((x OR (CREAD OR CLOCAL)) AND NOT CSTOPB) AND CSTOPB = 0" for x
    by (rule bit_word_eqI; auto simp: bit_simps tty_flags flag_bits)+
  ultimately show "raw_input (device_settings lib speed t)" by (simp add: raw_input_def f)
  show "c_iflag (device_settings lib speed t) AND ICRNL = ICRNL"
    unfolding f by (rule bit_word_eqI) (auto simp: bit_simps tty_flags flag_bits)
qed

subsection \<open>One descriptor at a time\<close>

definition tty_owns :: "int list \<Rightarrow> SerialDevice \<Rightarrow> tty \<Rightarrow> bool" where
  "tty_owns base d k \<longleftrightarrow> - 1 \<le> dev_fd d \<and> tty_fds k = (if dev_fd d = -1 then base else dev_fd d # base)"

lemma openDevice_owns:
  assumes "tty_owns base d k" "- 1 \<le> open_ret c" "openDevice lib c d k = (ok, d', k')"
  shows "tty_owns base d' k'"
  using assms by (auto simp: tty_owns_def openDevice_def tty_close_def Let_def split: if_splits)

end
