(* ===== verification/Gps_Node.thy ===== *)
theory Gps_Node
  imports Gps_Device
begin

section \<open>The GPS node\<close>

text \<open>
  \<open>comms/include/comms/Gps.hpp\<close> and \<open>comms/src/GpsNode.cpp\<close>: the packed payloads, the parsing of a
  buffer, the pairing of a position with a covariance and the message that is published. What the
  code leaves uninitialised is an input that can have any value: the buffer on the stack before each
  read, and the member \<open>tolSec\<close>. The clock readings are inputs, the conversion of a duration to
  seconds (\<open>rclcpp::Duration::seconds\<close>) is a parameter.
\<close>

subsection \<open>Payloads\<close>

record posPayload =
  pos_iTow :: u32
  pos_longitude :: u32
  pos_latitude :: u32
  pos_height :: u32
  pos_hMsl :: u32
  pos_hAcc :: u32
  pos_vAcc :: u32

record covPayload =
  cov_iTow :: u32
  cov_version :: u8
  posCovValid :: u8
  velCovValid :: u8
  paddingA :: u64
  paddingB :: u8
  posCovNN :: fp
  posCovNE :: fp
  posCovND :: fp
  posCovEE :: fp
  posCovED :: fp
  posCovDD :: fp
  velCovNN :: fp
  velCovNE :: fp
  velCovND :: fp
  velCovEE :: fp
  velCovED :: fp
  velCovDD :: fp

definition new_posPayload :: posPayload where
  "new_posPayload = \<lparr>pos_iTow = 0, pos_longitude = 0, pos_latitude = 0, pos_height = 0, pos_hMsl = 0,
     pos_hAcc = 0, pos_vAcc = 0\<rparr>"

definition new_covPayload :: covPayload where
  "new_covPayload = \<lparr>cov_iTow = 0, cov_version = 0, posCovValid = 0, velCovValid = 0, paddingA = 0, paddingB = 0,
     posCovNN = fzero, posCovNE = fzero, posCovND = fzero, posCovEE = fzero, posCovED = fzero, posCovDD = fzero,
     velCovNN = fzero, velCovNE = fzero, velCovND = fzero, velCovEE = fzero, velCovED = fzero, velCovDD = fzero\<rparr>"

text \<open>Little-endian reads at an offset, as \<open>memcpy\<close> into a packed struct on the target makes them.\<close>

definition le32 :: "u8 list \<Rightarrow> nat \<Rightarrow> u32" where
  "le32 bs i = ucast (bs ! i) OR push_bit 8 (ucast (bs ! (i + 1))) OR push_bit 16 (ucast (bs ! (i + 2))) OR
     push_bit 24 (ucast (bs ! (i + 3)))"

definition le64 :: "u8 list \<Rightarrow> nat \<Rightarrow> u64" where
  "le64 bs i = ucast (le32 bs i) OR push_bit 32 (ucast (le32 bs (i + 4)))"

definition le_float :: "u8 list \<Rightarrow> nat \<Rightarrow> fp" where
  "le_float bs i = decode32 (le32 bs i)"

definition read_posPayload :: "u8 list \<Rightarrow> posPayload" where
  "read_posPayload bs = \<lparr>pos_iTow = le32 bs 0, pos_longitude = le32 bs 4, pos_latitude = le32 bs 8,
     pos_height = le32 bs 12, pos_hMsl = le32 bs 16, pos_hAcc = le32 bs 20, pos_vAcc = le32 bs 24\<rparr>"

definition read_covPayload :: "u8 list \<Rightarrow> covPayload" where
  "read_covPayload bs = \<lparr>cov_iTow = le32 bs 0, cov_version = bs ! 4, posCovValid = bs ! 5, velCovValid = bs ! 6,
     paddingA = le64 bs 7, paddingB = bs ! 15,
     posCovNN = le_float bs 16, posCovNE = le_float bs 20, posCovND = le_float bs 24,
     posCovEE = le_float bs 28, posCovED = le_float bs 32, posCovDD = le_float bs 36,
     velCovNN = le_float bs 40, velCovNE = le_float bs 44, velCovND = le_float bs 48,
     velCovEE = le_float bs 52, velCovED = le_float bs 56, velCovDD = le_float bs 60\<rparr>"

subsection \<open>The node\<close>

definition VALID_HEADER :: u16 where "VALID_HEADER = 0xb562"

definition POS_ID :: u16 where "POS_ID = 0x0136"

definition COV_ID :: u16 where "COV_ID = 0x2936"

definition HEADER_SZ :: nat where "HEADER_SZ = 4 * 8"

definition POS_SIZE :: nat where "POS_SIZE = 28"

definition COV_SIZE :: nat where "COV_SIZE = 64"

definition BUF_LEN :: nat where "BUF_LEN = 128"

lemmas gps_consts = VALID_HEADER_def POS_ID_def COV_ID_def HEADER_SZ_def POS_SIZE_def COV_SIZE_def BUF_LEN_def

record Gps =
  pendingPos :: posPayload
  pendingCov :: covPayload
  hasPos :: bool
  hasCov :: bool
  posTs :: int
  covTs :: int
  device :: SerialDevice
  tolSec :: "32 word"

definition new_Gps :: "32 word \<Rightarrow> Gps" where
  "new_Gps tol = \<lparr>pendingPos = new_posPayload, pendingCov = new_covPayload, hasPos = False, hasCov = False,
     posTs = 0, covTs = 0, device = new_SerialDevice (''test'', Static_Storage), tolSec = tol\<rparr>"

definition destroy_Gps :: "Gps \<Rightarrow> tty \<Rightarrow> tty outcome" where
  "destroy_Gps g k = destroy_SerialDevice (device g) k"

text \<open>The calls of one timer callback: the device, the stack, and the clock read twice at most.\<close>

record tick_calls =
  tc_open :: tty_calls
  tc_stack :: "u8 list"
  tc_read :: read_call
  tc_poll_time :: int
  tc_end_time :: int

text \<open>The header is the first four bytes, most significant first; -1 stands for no message.\<close>

definition parse_header :: "u8 list \<Rightarrow> int" where
  "parse_header buf = (let
     header = push_bit 24 (ucast (buf ! 0)) OR push_bit 16 (ucast (buf ! 1)) OR push_bit 8 (ucast (buf ! 2)) OR
       ucast (buf ! 3) :: u32;
     msgHeader = ucast (drop_bit (HEADER_SZ div 2) header) :: u16;
     msgId = ucast (header AND 0xFFFF) :: u16
   in if msgHeader XOR VALID_HEADER = 0
      then if msgId = COV_ID \<or> msgId = POS_ID then sint msgId else - 1
      else - 1)"

definition gps_readMsg :: "libc \<Rightarrow> tick_calls \<Rightarrow> Gps \<Rightarrow> tty \<Rightarrow> int \<times> u8 list \<times> Gps \<times> tty" where
  "gps_readMsg lib c g k = (let
     (_, d, k) = openDevice lib (tc_open c) (device g) k;
     (bytesRead, buf) = device_readMsg (tc_read c) (tc_stack c);
     g = g\<lparr>device := d\<rparr>
   in if bytesRead = 0 then (- 1, buf, g, k) else (parse_header buf, buf, g, k))"

definition pollMsgs :: "libc \<Rightarrow> tick_calls \<Rightarrow> Gps \<Rightarrow> tty \<Rightarrow> Gps \<times> tty" where
  "pollMsgs lib c g k = (case gps_readMsg lib c g k of (msgType, buf, g, k) \<Rightarrow>
     let payload = drop (HEADER_SZ div 8) buf in
     if msgType = uint POS_ID
     then (g\<lparr>pendingPos := read_posPayload (take POS_SIZE payload), hasPos := True, posTs := tc_poll_time c\<rparr>, k)
     else if msgType = uint COV_ID
     then (g\<lparr>pendingCov := read_covPayload (take COV_SIZE payload), hasCov := True, covTs := tc_poll_time c\<rparr>, k)
     else (g, k))"

subsection \<open>The message\<close>

datatype covariance_type = COVARIANCE_TYPE_UNKNOWN | COVARIANCE_TYPE_KNOWN

record NavSatFix =
  nav_longitude :: fp
  nav_latitude :: fp
  nav_altitude :: fp
  position_covariance :: "fp list"
  position_covariance_type :: covariance_type

definition scaled_int :: "32 word \<Rightarrow> rat \<Rightarrow> fp" where
  "scaled_int w q = fmul binary64 (fof_int binary64 (sint w)) (dlit q)"

definition constructGpsMsg :: "Gps \<Rightarrow> NavSatFix" where
  "constructGpsMsg g = (let
     p = pendingPos g; c = pendingCov g; d = fconv binary64;
     msg = \<lparr>nav_longitude = scaled_int (pos_longitude p) (1 / 10 ^ 7), nav_latitude = scaled_int (pos_latitude p) (1 / 10 ^ 7),
       nav_altitude = scaled_int (pos_height p) (1 / 10 ^ 3),
       position_covariance = replicate 9 fzero, position_covariance_type = COVARIANCE_TYPE_UNKNOWN\<rparr>
   in if posCovValid c \<noteq> 0
      then msg\<lparr>position_covariance :=
         [d (posCovEE c), d (posCovNE c), d (fneg (posCovED c)),
          d (posCovNE c), d (posCovNN c), d (fneg (posCovND c)),
          d (fneg (posCovED c)), d (fneg (posCovND c)), d (fneg (posCovDD c))],
         position_covariance_type := COVARIANCE_TYPE_KNOWN\<rparr>
      else msg)"

text \<open>The age of a pending payload against the tolerance: \<open>(currentTs - ts).seconds() > tolSec\<close>.\<close>

definition expired :: "(int \<Rightarrow> fp) \<Rightarrow> Gps \<Rightarrow> int \<Rightarrow> int \<Rightarrow> bool" where
  "expired seconds g now ts \<longleftrightarrow> flt (fof_int binary64 (sint (tolSec g))) (seconds (now - ts))"

definition drop_stale :: "(int \<Rightarrow> fp) \<Rightarrow> int \<Rightarrow> Gps \<Rightarrow> Gps" where
  "drop_stale seconds now g = (if hasPos g \<and> expired seconds g now (posTs g) \<or> hasCov g \<and> expired seconds g now (covTs g)
     then g\<lparr>hasPos := False, hasCov := False\<rparr> else g)"

definition timer_callback :: "libc \<Rightarrow> (int \<Rightarrow> fp) \<Rightarrow> tick_calls \<Rightarrow> Gps \<Rightarrow> tty \<Rightarrow> NavSatFix list \<times> Gps \<times> tty" where
  "timer_callback lib seconds c g k = (let
     (g, k) = pollMsgs lib c g k;
     (out, g) = (if hasPos g \<and> hasCov g
                 then if pos_iTow (pendingPos g) = cov_iTow (pendingCov g)
                      then ([constructGpsMsg g], g\<lparr>hasPos := False, hasCov := False\<rparr>) else ([], g)
                 else ([], g))
   in (out, drop_stale seconds (tc_end_time c) g, k))"

fun gps_run :: "libc \<Rightarrow> (int \<Rightarrow> fp) \<Rightarrow> tick_calls list \<Rightarrow> Gps \<Rightarrow> tty \<Rightarrow> NavSatFix list \<times> Gps \<times> tty" where
  "gps_run lib seconds [] g k = ([], g, k)"
| "gps_run lib seconds (c # cs) g k = (case timer_callback lib seconds c g k of (out, g, k) \<Rightarrow>
     case gps_run lib seconds cs g k of (outs, g, k) \<Rightarrow> (out @ outs, g, k))"

subsection \<open>The frames a receiver sends\<close>

datatype gps_msg = Pos_Msg posPayload | Cov_Msg covPayload

definition pos_bytes :: "posPayload \<Rightarrow> u8 list" where
  "pos_bytes p = concat (map le_bytes [pos_iTow p, pos_longitude p, pos_latitude p, pos_height p, pos_hMsl p,
     pos_hAcc p, pos_vAcc p])"

definition cov_bytes :: "covPayload \<Rightarrow> u8 list" where
  "cov_bytes c = le_bytes (cov_iTow c) @ [cov_version c, posCovValid c, velCovValid c] @
     le_bytes (ucast (paddingA c)) @ le_bytes (ucast (drop_bit 32 (paddingA c))) @ [paddingB c] @
     concat (map (\<lambda>x. le_bytes (encode32 x)) [posCovNN c, posCovNE c, posCovND c, posCovEE c, posCovED c, posCovDD c,
       velCovNN c, velCovNE c, velCovND c, velCovEE c, velCovED c, velCovDD c])"

fun gps_frame :: "gps_msg \<Rightarrow> u8 list" where
  "gps_frame (Pos_Msg p) = [0xB5, 0x62, 0x01, 0x36] @ pos_bytes p"
| "gps_frame (Cov_Msg c) = [0xB5, 0x62, 0x29, 0x36] @ cov_bytes c"

text \<open>The floats of a covariance payload are floats.\<close>

fun gps_msg_ok :: "gps_msg \<Rightarrow> bool" where
  "gps_msg_ok (Pos_Msg p) = True"
| "gps_msg_ok (Cov_Msg c) = list_all (fp_ok binary32) [posCovNN c, posCovNE c, posCovND c, posCovEE c, posCovED c, posCovDD c,
       velCovNN c, velCovNE c, velCovND c, velCovEE c, velCovED c, velCovDD c]"

definition received_msg :: "tick_calls \<Rightarrow> gps_msg option" where
  "received_msg c = (case device_readMsg (tc_read c) (tc_stack c) of (n, buf) \<Rightarrow>
     let payload = drop 4 buf in
     if n = 0 then None
     else if parse_header buf = uint POS_ID then Some (Pos_Msg (read_posPayload (take POS_SIZE payload)))
     else if parse_header buf = uint COV_ID then Some (Cov_Msg (read_covPayload (take COV_SIZE payload)))
     else None)"

lemma length_pos_bytes [simp]: "length (pos_bytes p) = 28"
  by (simp add: pos_bytes_def)

lemma length_cov_bytes [simp]: "length (cov_bytes c) = 64"
  by (simp add: cov_bytes_def)

lemma le32_le_bytes: "length xs = i \<Longrightarrow> le32 (xs @ le_bytes w @ ys) i = w"
  using word32_of_bytes [of w] by (simp add: le32_def le_bytes_def nth_append)

lemma le32_bytes [simp]:
  "bs ! i = byte_of 0 w \<Longrightarrow> bs ! Suc i = byte_of 1 w \<Longrightarrow> bs ! (i + 2) = byte_of 2 w \<Longrightarrow> bs ! (i + 3) = byte_of 3 w \<Longrightarrow>
   le32 bs i = w"
  using word32_of_bytes [of w] by (simp add: le32_def)

lemma le64_bytes:
  "le32 bs i = ucast (a :: u64) \<Longrightarrow> le32 bs (i + 4) = ucast (drop_bit 32 a) \<Longrightarrow> le64 bs i = a"
proof -
  have "ucast (ucast a :: u32) OR push_bit 32 (ucast (ucast (drop_bit 32 a) :: u32)) = a"
    by (rule bit_word_eqI) (auto simp: bit_simps)
  then show "le32 bs i = ucast a \<Longrightarrow> le32 bs (i + 4) = ucast (drop_bit 32 a) \<Longrightarrow> le64 bs i = a"
    by (simp add: le64_def)
qed

lemma read_pos_bytes: "read_posPayload (pos_bytes p) = p"
  by (simp add: read_posPayload_def pos_bytes_def le_bytes_def nth_Cons')

lemma read_cov_bytes:
  assumes "gps_msg_ok (Cov_Msg c)"
  shows "read_covPayload (cov_bytes c) = c"
proof -
  have "le64 (cov_bytes c) 7 = paddingA c"
    by (rule le64_bytes) (simp_all add: cov_bytes_def le_bytes_def nth_Cons')
  moreover have "cov_bytes c ! 4 = cov_version c" "cov_bytes c ! 5 = posCovValid c" "cov_bytes c ! 6 = velCovValid c"
    "cov_bytes c ! 15 = paddingB c" "le32 (cov_bytes c) 0 = cov_iTow c"
    by (simp_all add: cov_bytes_def le_bytes_def nth_Cons')
  moreover have "le32 (cov_bytes c) 16 = encode32 (posCovNN c)" "le32 (cov_bytes c) 20 = encode32 (posCovNE c)"
    "le32 (cov_bytes c) 24 = encode32 (posCovND c)" "le32 (cov_bytes c) 28 = encode32 (posCovEE c)"
    "le32 (cov_bytes c) 32 = encode32 (posCovED c)" "le32 (cov_bytes c) 36 = encode32 (posCovDD c)"
    "le32 (cov_bytes c) 40 = encode32 (velCovNN c)" "le32 (cov_bytes c) 44 = encode32 (velCovNE c)"
    "le32 (cov_bytes c) 48 = encode32 (velCovND c)" "le32 (cov_bytes c) 52 = encode32 (velCovEE c)"
    "le32 (cov_bytes c) 56 = encode32 (velCovED c)" "le32 (cov_bytes c) 60 = encode32 (velCovDD c)"
    by (simp_all add: cov_bytes_def le_bytes_def nth_Cons')
  ultimately show ?thesis
    using assms by (simp add: read_covPayload_def le_float_def decode32_encode32)
qed

lemma parse_header_frame:
  "parse_header (gps_frame (Pos_Msg p) @ rest) = uint POS_ID" "parse_header (gps_frame (Cov_Msg c) @ rest) = uint COV_ID"
proof -
  let ?h = "\<lambda>a b c d. push_bit 24 (ucast (a :: u8)) OR push_bit 16 (ucast (b :: u8)) OR push_bit 8 (ucast (c :: u8)) OR
     ucast (d :: u8) :: u32"
  have "?h 0xB5 0x62 0x01 0x36 = 0xB5620136" "?h 0xB5 0x62 0x29 0x36 = 0xB5622936" by code_simp+
  then have "parse_header (0xB5 # 0x62 # 0x01 # 0x36 # r) = uint POS_ID"
    "parse_header (0xB5 # 0x62 # 0x29 # 0x36 # r) = uint COV_ID" for r
    by (simp_all add: parse_header_def gps_consts nth_Cons' drop_bit_eq_div)
  then show "parse_header (gps_frame (Pos_Msg p) @ rest) = uint POS_ID"
    "parse_header (gps_frame (Cov_Msg c) @ rest) = uint COV_ID" by simp_all
qed

lemma frame_classified:
  assumes "gps_msg_ok m" "snd (device_readMsg (tc_read c) (tc_stack c)) = gps_frame m @ rest"
    "fst (device_readMsg (tc_read c) (tc_stack c)) \<noteq> 0"
  shows "received_msg c = Some m"
proof (cases m)
  case (Pos_Msg p)
  then show ?thesis
    using assms(2,3) parse_header_frame(1) [of p rest]
    by (simp add: received_msg_def case_prod_unfold Let_def read_pos_bytes POS_SIZE_def)
next
  case (Cov_Msg q)
  then have "parse_header (snd (device_readMsg (tc_read c) (tc_stack c))) = uint COV_ID"
    using assms(2) parse_header_frame(2) [of q rest] by simp
  then show ?thesis
    using Cov_Msg assms read_cov_bytes [of q]
    by (simp add: received_msg_def case_prod_unfold Let_def COV_SIZE_def POS_ID_def COV_ID_def del: gps_msg_ok.simps)
qed

lemma frame_length: "length (gps_frame m) \<le> 68" "0 < length (gps_frame m)"
  by (cases m; simp)+

lemma received_frame:
  assumes "gps_msg_ok m" "read_result (tc_read c) = int (length (gps_frame m @ tail))"
    "read_bytes (tc_read c) = gps_frame m @ tail" "length (tc_stack c) = BUF_LEN" "length (gps_frame m @ tail) \<le> BUF_LEN"
  shows "received_msg c = Some m"
proof (rule frame_classified [OF assms(1), where rest = "tail @ drop (length (gps_frame m @ tail)) (tc_stack c)"])
  have "nat (read_result (tc_read c)) = length (gps_frame m @ tail)"
    using assms(2) by (simp only: nat_int)
  then show "snd (device_readMsg (tc_read c) (tc_stack c)) =
      gps_frame m @ tail @ drop (length (gps_frame m @ tail)) (tc_stack c)"
    using assms by (simp add: device_readMsg_def Let_def)
  have nz: "(word_of_int (int n) :: u64) \<noteq> 0" if "0 < n" "n \<le> 128" for n
  proof -
    have "unat (of_nat n :: u64) = n" using that by (simp add: unsigned_of_nat take_bit_nat_eq_self)
    then show ?thesis using that by auto
  qed
  show "fst (device_readMsg (tc_read c) (tc_stack c)) \<noteq> 0"
    using nz [of "length (gps_frame m @ tail)"] assms(5) frame_length(2) [of m]
    by (simp only: device_readMsg_def Let_def fst_conv assms(2)) (simp add: BUF_LEN_def)
qed


subsection \<open>The pairing the node implements\<close>

text \<open>
  What the node promises, without buffers, flags and members: at most one pending position and one
  pending covariance, each with the time it arrived.
\<close>

record pairing =
  pend_pos :: "(posPayload \<times> int) option"
  pend_cov :: "(covPayload \<times> int) option"

definition no_pending :: pairing where
  "no_pending = \<lparr>pend_pos = None, pend_cov = None\<rparr>"

fun spec_receive :: "gps_msg option \<Rightarrow> int \<Rightarrow> pairing \<Rightarrow> pairing" where
  "spec_receive None t s = s"
| "spec_receive (Some (Pos_Msg p)) t s = s\<lparr>pend_pos := Some (p, t)\<rparr>"
| "spec_receive (Some (Cov_Msg c)) t s = s\<lparr>pend_cov := Some (c, t)\<rparr>"

definition spec_pair :: "pairing \<Rightarrow> (posPayload \<times> covPayload) list \<times> pairing" where
  "spec_pair s = (case (pend_pos s, pend_cov s) of
     (Some (p, _), Some (c, _)) \<Rightarrow> if pos_iTow p = cov_iTow c then ([(p, c)], no_pending) else ([], s)
   | _ \<Rightarrow> ([], s))"

definition spec_expire :: "(int \<Rightarrow> bool) \<Rightarrow> int \<Rightarrow> pairing \<Rightarrow> pairing" where
  "spec_expire old now s =
     (if (\<exists>p t. pend_pos s = Some (p, t) \<and> old (now - t)) \<or> (\<exists>c t. pend_cov s = Some (c, t) \<and> old (now - t))
      then no_pending else s)"

definition spec_tick :: "(int \<Rightarrow> bool) \<Rightarrow> tick_calls \<Rightarrow> pairing \<Rightarrow> (posPayload \<times> covPayload) list \<times> pairing" where
  "spec_tick old c s = (case spec_pair (spec_receive (received_msg c) (tc_poll_time c) s) of
     (out, s) \<Rightarrow> (out, spec_expire old (tc_end_time c) s))"

fun spec_run :: "(int \<Rightarrow> bool) \<Rightarrow> tick_calls list \<Rightarrow> pairing \<Rightarrow> (posPayload \<times> covPayload) list \<times> pairing" where
  "spec_run old [] s = ([], s)"
| "spec_run old (c # cs) s = (case spec_tick old c s of (out, s) \<Rightarrow>
     case spec_run old cs s of (outs, s) \<Rightarrow> (out @ outs, s))"

text \<open>The message for a position and a covariance, the pending state of a node, its notion of old.\<close>

definition fix_of :: "posPayload \<times> covPayload \<Rightarrow> NavSatFix" where
  "fix_of x = constructGpsMsg ((new_Gps 0)\<lparr>pendingPos := fst x, pendingCov := snd x\<rparr>)"

definition gps_abs :: "Gps \<Rightarrow> pairing" where
  "gps_abs g = \<lparr>pend_pos = (if hasPos g then Some (pendingPos g, posTs g) else None),
     pend_cov = (if hasCov g then Some (pendingCov g, covTs g) else None)\<rparr>"

definition gps_old :: "(int \<Rightarrow> fp) \<Rightarrow> 32 word \<Rightarrow> int \<Rightarrow> bool" where
  "gps_old seconds tol age \<longleftrightarrow> flt (fof_int binary64 (sint tol)) (seconds age)"

lemma fix_of_pending: "constructGpsMsg g = fix_of (pendingPos g, pendingCov g)"
  by (simp add: constructGpsMsg_def fix_of_def Let_def)

lemma pollMsgs_abs:
  assumes "pollMsgs lib c g k = (g', k')"
  shows "gps_abs g' = spec_receive (received_msg c) (tc_poll_time c) (gps_abs g)" "tolSec g' = tolSec g"
proof -
  have ids: "uint POS_ID \<noteq> uint COV_ID" "uint POS_ID \<noteq> - 1" "uint COV_ID \<noteq> - 1"
    by (simp_all add: gps_consts)
  have four: "HEADER_SZ div 8 = 4" by (simp add: HEADER_SZ_def)
  show "gps_abs g' = spec_receive (received_msg c) (tc_poll_time c) (gps_abs g)" "tolSec g' = tolSec g"
    using assms ids
    by (auto simp: pollMsgs_def gps_readMsg_def received_msg_def gps_abs_def Let_def four split: prod.splits if_splits)
qed

lemma drop_stale_abs:
  "gps_abs (drop_stale seconds now g) = spec_expire (gps_old seconds (tolSec g)) now (gps_abs g)"
  "tolSec (drop_stale seconds now g) = tolSec g"
  by (auto simp: drop_stale_def spec_expire_def gps_abs_def expired_def gps_old_def no_pending_def)

lemma timer_callback_abs:
  assumes "timer_callback lib seconds c g k = (out, g', k')"
  shows "\<exists>xs. spec_tick (gps_old seconds (tolSec g)) c (gps_abs g) = (xs, gps_abs g') \<and> out = map fix_of xs \<and>
    tolSec g' = tolSec g"
proof -
  obtain g1 k1 where p: "pollMsgs lib c g k = (g1, k1)" by (cases "pollMsgs lib c g k")
  note a = pollMsgs_abs [OF p]
  obtain xs s where q: "spec_pair (gps_abs g1) = (xs, s)" by (cases "spec_pair (gps_abs g1)")
  show ?thesis
  proof (cases "hasPos g1 \<and> hasCov g1 \<and> pos_iTow (pendingPos g1) = cov_iTow (pendingCov g1)")
    case True
    then have "spec_pair (gps_abs g1) = ([(pendingPos g1, pendingCov g1)], no_pending)"
      by (simp add: spec_pair_def gps_abs_def)
    moreover have "gps_abs (g1\<lparr>hasPos := False, hasCov := False\<rparr>) = no_pending"
      by (simp add: gps_abs_def no_pending_def)
    ultimately show ?thesis
      using assms p a True drop_stale_abs [of seconds "tc_end_time c" "g1\<lparr>hasPos := False, hasCov := False\<rparr>"]
      by (auto simp: timer_callback_def spec_tick_def fix_of_pending)
  next
    case False
    then have "spec_pair (gps_abs g1) = ([], gps_abs g1)"
      by (auto simp: spec_pair_def gps_abs_def)
    then show ?thesis
      using assms p a False drop_stale_abs [of seconds "tc_end_time c" g1]
      by (auto simp: timer_callback_def spec_tick_def split: if_splits)
  qed
qed

lemma gps_run_abs:
  assumes "gps_run lib seconds cs g k = (outs, g', k')"
  shows "\<exists>xs. spec_run (gps_old seconds (tolSec g)) cs (gps_abs g) = (xs, gps_abs g') \<and> outs = map fix_of xs"
  using assms
proof (induction cs arbitrary: g k outs)
  case Nil
  then show ?case by simp
next
  case (Cons c cs)
  obtain out g1 k1 where t: "timer_callback lib seconds c g k = (out, g1, k1)" by (metis surj_pair)
  obtain outs1 where r: "gps_run lib seconds cs g1 k1 = (outs1, g', k')" and o: "outs = out @ outs1"
    using Cons.prems t by (auto split: prod.splits)
  from timer_callback_abs [OF t] Cons.IH [OF r] o show ?case by fastforce
qed

end
