(* ===== verification/Gps_Properties.thy ===== *)
theory Gps_Properties
  imports Gps_Node
begin

section \<open>What the GPS node does\<close>

text \<open>
  The properties of the GPS node: it refines an abstract pairing of positions with covariances, what
  it publishes for well-formed frames, and what happens when reads fail, memory is uninitialised or
  the device is opened again and again.
\<close>

subsection \<open>Reception and pairing\<close>

lemma gps_run_refines:
  "fst (gps_run lib seconds cs g k) = map fix_of (fst (spec_run (gps_old seconds (tolSec g)) cs (gps_abs g))) \<and>
   gps_abs (fst (snd (gps_run lib seconds cs g k))) = snd (spec_run (gps_old seconds (tolSec g)) cs (gps_abs g))"
proof -
  obtain outs g' k' where "gps_run lib seconds cs g k = (outs, g', k')" by (metis surj_pair)
  with gps_run_abs [OF this] show ?thesis by auto
qed

text \<open>
  C24: The GPS node refines the pairing of positions with covariances: over any sequence of timer
  callbacks, on any device, the messages published are those of the abstract pairing for the
  received payloads, and the members represent its state.
\<close>

theorem gps_refines_pairing:
  "fst (gps_run lib seconds cs g k) = map fix_of (fst (spec_run (gps_old seconds (tolSec g)) cs (gps_abs g))) \<and>
   gps_abs (fst (snd (gps_run lib seconds cs g k))) = snd (spec_run (gps_old seconds (tolSec g)) cs (gps_abs g))"
  by (rule gps_run_refines)

text \<open>The read of this callback returns a frame with a message, and perhaps bytes after it.\<close>

definition delivers_frame :: "tick_calls \<Rightarrow> gps_msg \<Rightarrow> bool" where
  "delivers_frame c m \<longleftrightarrow> gps_msg_ok m \<and> length (tc_stack c) = BUF_LEN \<and> length (read_bytes (tc_read c)) \<le> BUF_LEN \<and>
     read_result (tc_read c) = int (length (read_bytes (tc_read c))) \<and>
     take (length (gps_frame m)) (read_bytes (tc_read c)) = gps_frame m"

lemma delivered_frame: "delivers_frame c m \<Longrightarrow> received_msg c = Some m"
  using received_frame [of m c "drop (length (gps_frame m)) (read_bytes (tc_read c))"]
  unfolding delivers_frame_def by (metis append_take_drop_id)

lemma matching_pair_run:
  assumes "\<not> hasPos g" "\<not> hasCov g" "delivers_frame c1 m1" "delivers_frame c2 m2"
    and "(m1, m2) = (Pos_Msg p, Cov_Msg q) \<or> (m1, m2) = (Cov_Msg q, Pos_Msg p)" "pos_iTow p = cov_iTow q"
    and "\<not> expired seconds g (tc_end_time c1) (tc_poll_time c1)"
  shows "fst (gps_run lib seconds [c1, c2] g k) = [fix_of (p, q)] \<and>
    \<not> hasPos (fst (snd (gps_run lib seconds [c1, c2] g k))) \<and> \<not> hasCov (fst (snd (gps_run lib seconds [c1, c2] g k)))"
proof -
  obtain outs g' k' where r: "gps_run lib seconds [c1, c2] g k = (outs, g', k')" by (metis surj_pair)
  have "gps_abs g = no_pending" using assms(1,2) by (simp add: gps_abs_def no_pending_def)
  moreover have "\<not> gps_old seconds (tolSec g) (tc_end_time c1 - tc_poll_time c1)"
    using assms(7) by (simp add: expired_def gps_old_def)
  ultimately have "spec_run (gps_old seconds (tolSec g)) [c1, c2] (gps_abs g) = ([(p, q)], no_pending)"
    using assms(5,6) delivered_frame [OF assms(3)] delivered_frame [OF assms(4)]
    by (auto simp: spec_tick_def spec_pair_def spec_expire_def no_pending_def)
  then have "outs = [fix_of (p, q)]" "gps_abs g' = no_pending" using gps_run_abs [OF r] by auto
  then show ?thesis using r by (auto simp: gps_abs_def no_pending_def split: if_splits)
qed

text \<open>
  C25: When one callback reads the frame of a position and the next the frame of a covariance of the
  same time of week, or the other way round, and the first is not too old by then, exactly one message
  is published, with that position and covariance, and nothing stays pending; what was on the stack
  plays no part.
\<close>

theorem gps_publishes_a_matching_pair:
  assumes "\<not> hasPos g" "\<not> hasCov g" "delivers_frame c1 m1" "delivers_frame c2 m2"
    and "(m1, m2) = (Pos_Msg p, Cov_Msg q) \<or> (m1, m2) = (Cov_Msg q, Pos_Msg p)" "pos_iTow p = cov_iTow q"
    and "\<not> expired seconds g (tc_end_time c1) (tc_poll_time c1)"
  shows "fst (gps_run lib seconds [c1, c2] g k) = [fix_of (p, q)] \<and>
    \<not> hasPos (fst (snd (gps_run lib seconds [c1, c2] g k))) \<and> \<not> hasCov (fst (snd (gps_run lib seconds [c1, c2] g k)))"
  by (rule matching_pair_run [OF assms])

definition count_pos :: "gps_msg option list \<Rightarrow> nat" where
  "count_pos ms = length (filter (\<lambda>m. \<exists>p. m = Some (Pos_Msg p)) ms)"

definition count_cov :: "gps_msg option list \<Rightarrow> nat" where
  "count_cov ms = length (filter (\<lambda>m. \<exists>c. m = Some (Cov_Msg c)) ms)"

definition pending :: "'a option \<Rightarrow> nat" where
  "pending x = (case x of None \<Rightarrow> 0 | Some _ \<Rightarrow> 1)"

lemma spec_receive_cases:
  obtains "received_msg c = None" "spec_receive (received_msg c) t s = s"
  | p where "received_msg c = Some (Pos_Msg p)" "spec_receive (received_msg c) t s = s\<lparr>pend_pos := Some (p, t)\<rparr>"
  | q where "received_msg c = Some (Cov_Msg q)" "spec_receive (received_msg c) t s = s\<lparr>pend_cov := Some (q, t)\<rparr>"
proof (cases "received_msg c")
  case None
  then show ?thesis using that(1) by simp
next
  case (Some m)
  then show ?thesis using that(2,3) by (cases m) simp_all
qed

lemma spec_pair_expire:
  assumes "spec_pair s = (xs, s1)"
  shows "length xs + pending (pend_pos (spec_expire old now s1)) \<le> pending (pend_pos s)"
    "length xs + pending (pend_cov (spec_expire old now s1)) \<le> pending (pend_cov s)"
    "\<forall>(p, c) \<in> set xs. pos_iTow p = cov_iTow c \<and> (\<exists>t. pend_pos s = Some (p, t)) \<and> (\<exists>t. pend_cov s = Some (c, t))"
    "pend_pos (spec_expire old now s1) = Some y \<Longrightarrow> pend_pos s = Some y"
    "pend_cov (spec_expire old now s1) = Some z \<Longrightarrow> pend_cov s = Some z"
  using assms
  by (auto simp: spec_pair_def spec_expire_def pending_def no_pending_def split: option.splits if_splits)

lemma spec_run_once:
  assumes "spec_run old cs s = (xs, s')"
  shows "length xs + pending (pend_pos s') \<le> count_pos (map received_msg cs) + pending (pend_pos s) \<and>
    length xs + pending (pend_cov s') \<le> count_cov (map received_msg cs) + pending (pend_cov s)"
  using assms
proof (induction cs arbitrary: s xs)
  case Nil
  then show ?case by (simp add: count_pos_def count_cov_def)
next
  case (Cons c cs)
  obtain ys s1 where p: "spec_pair (spec_receive (received_msg c) (tc_poll_time c) s) = (ys, s1)" by (metis surj_pair)
  let ?s = "spec_expire old (tc_end_time c) s1"
  obtain zs where r: "spec_run old cs ?s = (zs, s')" and xs: "xs = ys @ zs"
    using Cons.prems p by (auto simp: spec_tick_def split: prod.splits)
  note q = Cons.IH [OF r] spec_pair_expire(1,2) [OF p, of old "tc_end_time c"]
  have "pending (x :: 'a option) \<le> 1" for x by (simp add: pending_def split: option.split)
  then show ?case
    using q by (cases c "tc_poll_time c" s rule: spec_receive_cases)
      (auto simp: xs count_pos_def count_cov_def pending_def split: option.splits)
qed

lemma spec_run_sources:
  assumes "spec_run old cs s = (xs, s')" "(p, c) \<in> set xs"
  shows "pos_iTow p = cov_iTow c \<and> (Some (Pos_Msg p) \<in> set (map received_msg cs) \<or> (\<exists>t. pend_pos s = Some (p, t))) \<and>
    (Some (Cov_Msg c) \<in> set (map received_msg cs) \<or> (\<exists>t. pend_cov s = Some (c, t)))"
  using assms
proof (induction cs arbitrary: s xs)
  case Nil
  then show ?case by simp
next
  case (Cons d cs)
  obtain ys s1 where q: "spec_pair (spec_receive (received_msg d) (tc_poll_time d) s) = (ys, s1)" by (metis surj_pair)
  let ?s = "spec_expire old (tc_end_time d) s1"
  obtain zs where r: "spec_run old cs ?s = (zs, s')" and xs: "xs = ys @ zs"
    using Cons.prems(1) q by (auto simp: spec_tick_def split: prod.splits)
  note e = spec_pair_expire(4,5) [OF q, of old "tc_end_time d"]
  have "(p, c) \<in> set ys \<or> (p, c) \<in> set zs" using Cons.prems(2) xs by simp
  then show ?case
  proof
    assume "(p, c) \<in> set ys"
    then show ?thesis
      using spec_pair_expire(3) [OF q] by (cases d "tc_poll_time d" s rule: spec_receive_cases) (force simp: image_iff)+
  next
    assume "(p, c) \<in> set zs"
    from Cons.IH [OF r this] e show ?thesis
      by (cases d "tc_poll_time d" s rule: spec_receive_cases) (fastforce simp: image_iff)+
  qed
qed

text \<open>
  C26: Whatever bytes the device delivers, every published message is made of one position and one
  covariance payload received in this run, with equal times of week; and no payload is used twice:
  there are at most as many messages as positions, and as covariances.
\<close>

theorem gps_fixes_come_from_one_epoch:
  assumes "gps_run lib seconds cs (new_Gps tol) k = (outs, g', k')"
  shows "(\<forall>m \<in> set outs. \<exists>p c. m = fix_of (p, c) \<and> pos_iTow p = cov_iTow c \<and>
      Some (Pos_Msg p) \<in> set (map received_msg cs) \<and> Some (Cov_Msg c) \<in> set (map received_msg cs)) \<and>
    length outs \<le> count_pos (map received_msg cs) \<and> length outs \<le> count_cov (map received_msg cs)"
proof -
  have "gps_abs (new_Gps tol) = no_pending" by (simp add: gps_abs_def new_Gps_def no_pending_def)
  then obtain xs where xs: "spec_run (gps_old seconds tol) cs no_pending = (xs, gps_abs g')" "outs = map fix_of xs"
    using gps_run_abs [OF assms] by (auto simp: new_Gps_def)
  have "pend_pos no_pending = None" "pend_cov no_pending = None" by (simp_all add: no_pending_def)
  then show ?thesis
    using spec_run_once [OF xs(1)] spec_run_sources [OF xs(1)] xs(2) by (fastforce simp: pending_def)
qed

subsection \<open>The published covariance\<close>

text \<open>
  The receiver reports the covariance of position in north, east, down; a \<open>NavSatFix\<close> carries it in
  east, north, up. The axes of the latter: which axis of the former, and whether reversed.
\<close>

definition enu_axis :: "nat \<Rightarrow> nat \<times> bool" where
  "enu_axis i = [(1, False), (0, False), (2, True)] ! i"

definition ned_entry :: "covPayload \<Rightarrow> nat \<Rightarrow> nat \<Rightarrow> fp" where
  "ned_entry c i j = [[posCovNN c, posCovNE c, posCovND c], [posCovNE c, posCovEE c, posCovED c],
     [posCovND c, posCovED c, posCovDD c]] ! i ! j"

definition enu_entry :: "covPayload \<Rightarrow> nat \<Rightarrow> nat \<Rightarrow> fp" where
  "enu_entry c i j = (case (enu_axis i, enu_axis j) of ((a, s), (b, t)) \<Rightarrow>
     if s \<noteq> t then fneg (ned_entry c a b) else ned_entry c a b)"

text \<open>
  C27: A valid covariance is published as the matrix rotated from north-east-down to east-north-up,
  exactly and in row-major order, except for the variance of the up axis, which is published with
  its sign reversed: a positive variance becomes negative.
\<close>

theorem gps_covariance_is_enu_but_for_up:
  assumes "posCovValid c \<noteq> 0" "gps_msg_ok (Cov_Msg c)" "i < 3" "j < 3"
  shows "position_covariance (fix_of (p, c)) ! (3 * i + j) =
    (if i = 2 \<and> j = 2 then fneg (enu_entry c 2 2) else enu_entry c i j)"
proof -
  have "i = 0 \<or> i = 1 \<or> i = 2" "j = 0 \<or> j = 1 \<or> j = 2" using assms(3,4) by auto
  moreover have "fp_ok binary32 (fneg x) = fp_ok binary32 x" for x by simp
  ultimately show ?thesis
    using assms(1,2)
    by (elim disjE) (simp_all add: fix_of_def constructGpsMsg_def Let_def enu_entry_def enu_axis_def ned_entry_def)
qed

subsection \<open>What is left uninitialised\<close>


lemma negative_tolerance_old:
  assumes "t < 0" "- (2 ^ 31) \<le> t" "fle fzero x"
  shows "flt (fof_int binary64 t) x"
proof -
  have "\<bar>t\<bar> \<le> 2 ^ prec binary64" using assms(1,2) by simp
  then have "fof_int binary64 t = FFin True (of_int (- t))"
    using fof_int_exact [of binary64 t] assms(1) by simp
  moreover have "(of_int (- t) :: rat) > 0" using assms(1) by simp
  ultimately show ?thesis
    using assms(3) by (cases x) (auto simp: fle_def fzero_def signed_def)
qed

text \<open>
  \<open>tolSec\<close> is compared with but never assigned. When its memory holds a negative number, every
  payload is dropped in the callback that received it, and no run publishes anything. (A duration
  that is not negative has seconds that are not negative; the clock does not go back within one
  callback.)
\<close>

theorem gps_negative_tolerance_publishes_nothing:
  assumes "sint tol < 0" "\<forall>d \<ge> 0. fle fzero (seconds d)" "\<forall>c \<in> set cs. tc_poll_time c \<le> tc_end_time c"
  shows "fst (gps_run lib seconds cs (new_Gps tol) k) = []"
proof -
  have old: "gps_old seconds tol d" if "0 \<le> d" for d
    using negative_tolerance_old [OF assms(1)] sint_range_size [of tol] assms(2) that
    by (simp add: gps_old_def word_size)
  have tick: "spec_tick (gps_old seconds tol) c no_pending = ([], no_pending)" if "tc_poll_time c \<le> tc_end_time c" for c
    using old [of "tc_end_time c - tc_poll_time c"] that
    by (cases c "tc_poll_time c" no_pending rule: spec_receive_cases)
      (auto simp: spec_tick_def spec_pair_def spec_expire_def no_pending_def)
  have "spec_run (gps_old seconds tol) cs no_pending = ([], no_pending)"
    using assms(3) by (induction cs) (simp_all add: tick)
  moreover have "gps_abs (new_Gps tol) = no_pending" "tolSec (new_Gps tol) = tol"
    by (simp_all add: gps_abs_def new_Gps_def no_pending_def)
  ultimately show ?thesis using gps_run_refines [of lib seconds cs "new_Gps tol" k] by simp
qed

subsection \<open>The device\<close>

lemma timer_callback_device:
  assumes "timer_callback lib seconds c g k = (out, g', k')" "tty_owns base (device g) k" "- 1 \<le> open_ret (tc_open c)"
  shows "tty_owns base (device g') k' \<and> deviceName (device g') = deviceName (device g)"
proof -
  obtain ok d k1 where o: "openDevice lib (tc_open c) (device g) k = (ok, d, k1)" by (metis surj_pair)
  have "device g' = d" "k' = k1"
    using assms(1) o by (auto simp: timer_callback_def pollMsgs_def gps_readMsg_def drop_stale_def Let_def
        split: prod.splits if_splits)
  moreover have "deviceName d = deviceName (device g)"
    using o by (auto simp: openDevice_def Let_def split: if_splits)
  ultimately show ?thesis using openDevice_owns [OF assms(2,3) o] by simp
qed

text \<open>
  C29: However often the callback opens the device again, whatever opening, configuring and reading
  return, at most one descriptor is open; but the node cannot be destroyed without undefined
  behaviour, because the destructor deletes the name of the device, which is a string literal.
\<close>

theorem gps_keeps_one_descriptor:
  assumes "\<forall>c \<in> set cs. - 1 \<le> open_ret (tc_open c)" "gps_run lib seconds cs (new_Gps tol) k = (outs, g', k')"
  shows "tty_fds k' = (if dev_fd (device g') = -1 then tty_fds k else dev_fd (device g') # tty_fds k) \<and>
    destroy_Gps g' k' = Undefined"
proof -
  have "tty_owns (tty_fds k) (device g') k' \<and> deviceName (device g') = deviceName (device g)"
    if "\<forall>c \<in> set cs. - 1 \<le> open_ret (tc_open c)" "gps_run lib seconds cs g k1 = (outs, g', k')"
      "tty_owns (tty_fds k) (device g) k1" for cs g k1 outs
    using that
  proof (induction cs arbitrary: g k1 outs)
    case (Cons c cs)
    obtain out g2 k2 where t: "timer_callback lib seconds c g k1 = (out, g2, k2)" by (metis surj_pair)
    obtain outs1 where r: "gps_run lib seconds cs g2 k2 = (outs1, g', k')"
      using Cons.prems(2) t by (auto split: prod.splits)
    show ?case
      using Cons.IH [OF _ r] timer_callback_device [OF t] Cons.prems(1,3) by simp
  qed simp
  from this [OF assms] show ?thesis
    by (auto simp: tty_owns_def new_Gps_def new_SerialDevice_def destroy_Gps_def destroy_SerialDevice_def)
qed

text \<open>
  After a successful \<open>openDevice\<close> the device is in raw mode without flow control, at most half a
  second per read, whatever its settings were; but carriage returns of the input are translated to
  newlines, although the messages are binary.
\<close>

theorem gps_device_is_raw_but_for_carriage_returns:
  assumes "openDevice lib c d k = (True, d', k')"
  shows "\<exists>t. tty_settings k' = Some t \<and> raw_input t \<and> c_iflag t AND ICRNL = ICRNL \<and> 0 \<le> dev_fd d' \<and>
    dev_fd d' \<in> set (tty_fds k')"
proof -
  have "tty_settings k' = Some (device_settings lib (baudRate d) (tcgetattr_out c))" "0 \<le> dev_fd d'"
    "dev_fd d' \<in> set (tty_fds k')"
    using assms by (auto simp: openDevice_def Let_def split: if_splits)
  then show ?thesis using device_settings_raw by blast
qed

subsection \<open>Concrete inputs\<close>

lemma fp_ok_small: "fp_ok binary32 (FFin False 2)" "fp_ok binary32 (FFin False 3)" "fp_ok binary32 fzero"
proof -
  show "fp_ok binary32 (FFin False 2)" by code_simp
  show "fp_ok binary32 (FFin False 3)" by code_simp
  show "fp_ok binary32 fzero" by code_simp
qed

definition sample_pos :: posPayload where
  "sample_pos = \<lparr>pos_iTow = 5000, pos_longitude = -1178000000, pos_latitude = 340560000, pos_height = 230000,
     pos_hMsl = 260000, pos_hAcc = 900, pos_vAcc = 1100\<rparr>"

definition sample_cov :: covPayload where
  "sample_cov = new_covPayload\<lparr>cov_iTow := 5000, posCovValid := 1, posCovNN := FFin False 2, posCovDD := FFin False 3\<rparr>"

definition sample_tick :: "int \<Rightarrow> u8 list \<Rightarrow> int \<Rightarrow> tick_calls" where
  "sample_tick r bytes t = \<lparr>tc_open = \<lparr>open_ret = 4, tcgetattr_out = \<lparr>c_iflag = 0, c_oflag = 0, c_cflag = 0, c_lflag = 0,
       c_cc = (\<lambda>_. 0)\<rparr>, tcsetattr_ret = 0\<rparr>,
     tc_stack = replicate 128 0, tc_read = \<lparr>read_result = r, read_bytes = bytes\<rparr>, tc_poll_time = t, tc_end_time = t\<rparr>"

definition sample_ticks :: "tick_calls list" where
  "sample_ticks = [sample_tick 32 (gps_frame (Pos_Msg sample_pos)) 1000, sample_tick 68 (gps_frame (Cov_Msg sample_cov)) 2000]"

text \<open>The seconds of a duration in nanoseconds, for the examples.\<close>

definition sample_seconds :: "int \<Rightarrow> fp" where
  "sample_seconds ns = fdiv binary64 (fof_int binary64 ns) (dlit (10 ^ 9))"

definition sample_libc :: libc where
  "sample_libc = \<lparr>cfmakeraw = id, cfsetspeed = (\<lambda>_. id)\<rparr>"

lemma length_gps_frame: "length (gps_frame (Pos_Msg p)) = 32" "length (gps_frame (Cov_Msg c)) = 68"
  by simp_all

lemma sample_delivers:
  "delivers_frame (sample_tick 32 (gps_frame (Pos_Msg sample_pos)) t) (Pos_Msg sample_pos)"
  "delivers_frame (sample_tick 68 (gps_frame (Cov_Msg sample_cov)) t) (Cov_Msg sample_cov)"
  by (simp_all add: delivers_frame_def sample_tick_def BUF_LEN_def length_gps_frame sample_cov_def new_covPayload_def
      fp_ok_small del: fp_ok.simps gps_frame.simps)

lemma sample_not_expired: "\<not> expired sample_seconds (new_Gps 1) 1000 1000"
  by code_simp

lemma sample_run:
  "fst (gps_run sample_libc sample_seconds sample_ticks (new_Gps 1) \<lparr>tty_fds = [], tty_settings = None\<rparr>) =
     [fix_of (sample_pos, sample_cov)]"
  using matching_pair_run [OF _ _ sample_delivers, of "new_Gps 1" sample_pos sample_cov sample_seconds 1000
      sample_libc 2000 "\<lparr>tty_fds = [], tty_settings = None\<rparr>"] sample_not_expired
  by (simp add: sample_ticks_def new_Gps_def sample_pos_def sample_cov_def sample_tick_def)

lemma gps_publishes_a_matching_pair_witness:
  "fst (gps_run sample_libc sample_seconds sample_ticks (new_Gps 1) \<lparr>tty_fds = [], tty_settings = None\<rparr>) =
     [fix_of (sample_pos, sample_cov)]"
  using gps_publishes_a_matching_pair [OF _ _ sample_delivers, of "new_Gps 1" sample_pos sample_cov sample_seconds 1000
      sample_libc 2000 "\<lparr>tty_fds = [], tty_settings = None\<rparr>"] sample_not_expired
  by (simp add: sample_ticks_def new_Gps_def sample_pos_def sample_cov_def sample_tick_def)

lemma gps_fixes_come_from_one_epoch_witness:
  "\<exists>p c. fix_of (sample_pos, sample_cov) = fix_of (p, c) \<and> pos_iTow p = cov_iTow c \<and>
     Some (Pos_Msg p) \<in> set (map received_msg sample_ticks) \<and> Some (Cov_Msg c) \<in> set (map received_msg sample_ticks)"
proof -
  obtain g k where "gps_run sample_libc sample_seconds sample_ticks (new_Gps 1) \<lparr>tty_fds = [], tty_settings = None\<rparr> =
      ([fix_of (sample_pos, sample_cov)], g, k)"
    using sample_run by (metis prod.collapse)
  from gps_fixes_come_from_one_epoch [OF this] show ?thesis by simp
qed

lemma gps_covariance_is_enu_but_for_up_witness:
  "position_covariance (fix_of (sample_pos, sample_cov)) ! 8 = FFin True 3 \<and>
   position_covariance (fix_of (sample_pos, sample_cov)) ! 4 = FFin False 2"
proof -
  have ok: "posCovValid sample_cov \<noteq> 0" "gps_msg_ok (Cov_Msg sample_cov)"
    using sample_delivers(2) by (simp_all add: delivers_frame_def sample_cov_def)
  show ?thesis
    using gps_covariance_is_enu_but_for_up [OF ok, of 2 2 sample_pos] gps_covariance_is_enu_but_for_up [OF ok, of 1 1 sample_pos]
    by (simp add: enu_entry_def enu_axis_def ned_entry_def sample_cov_def)
qed


lemma sample_seconds_nonneg:
  assumes "0 \<le> d"
  shows "fle fzero (sample_seconds d)"
proof -
  have e: "dlit (10 ^ 9) = FFin False (10 ^ 9)" by code_simp
  have d: "fof_int binary64 d = fround binary64 False (of_int d)" using assms by (simp add: fof_int_def)
  have pos: "fle fzero (fround binary64 False m)" if "0 \<le> m" for m
    using round_mag_nonneg [OF that, of binary64]
    by (auto simp: fround_def Let_def fle_def fzero_def signed_def le_less simp del: power_int_numeral)
  show ?thesis
  proof (cases "fround binary64 False (of_int d)")
    case (FFin s m)
    then have "\<not> s" "0 \<le> m"
      using round_mag_nonneg [of "of_int d" binary64] assms by (auto simp: fround_def Let_def split: if_splits)
    then show ?thesis using pos [of "m / 10 ^ 9"] unfolding sample_seconds_def d e FFin by simp
  next
    case (FInf s)
    then have "\<not> s" by (auto simp: fround_def Let_def split: if_splits)
    then show ?thesis unfolding sample_seconds_def d e FInf by (simp add: fle_def fzero_def)
  qed (auto simp: fround_def Let_def split: if_splits)
qed

lemma gps_negative_tolerance_publishes_nothing_witness:
  "fst (gps_run sample_libc sample_seconds sample_ticks (new_Gps (- 1)) \<lparr>tty_fds = [], tty_settings = None\<rparr>) = []"
  by (rule gps_negative_tolerance_publishes_nothing)
    (simp_all add: sample_seconds_nonneg sample_ticks_def sample_tick_def)

lemma gps_keeps_one_descriptor_witness:
  "\<exists>outs g k. gps_run sample_libc sample_seconds sample_ticks (new_Gps 1) \<lparr>tty_fds = [9], tty_settings = None\<rparr> = (outs, g, k) \<and>
     (tty_fds k = [9] \<or> (\<exists>fd. tty_fds k = [fd, 9]))"
proof -
  obtain outs g k where r: "gps_run sample_libc sample_seconds sample_ticks (new_Gps 1)
      \<lparr>tty_fds = [9], tty_settings = None\<rparr> = (outs, g, k)" by (metis surj_pair)
  from gps_keeps_one_descriptor [OF _ r] r show ?thesis
    by (auto simp: sample_ticks_def sample_tick_def)
qed

lemma gps_device_is_raw_but_for_carriage_returns_witness:
  "\<exists>t. tty_settings (snd (snd (openDevice sample_libc (tc_open (sample_tick 0 [] 0)) (new_SerialDevice (''test'', Static_Storage))
      \<lparr>tty_fds = [], tty_settings = None\<rparr>))) = Some t \<and> c_iflag t AND ICRNL = ICRNL"
proof -
  obtain d k where "openDevice sample_libc (tc_open (sample_tick 0 [] 0)) (new_SerialDevice (''test'', Static_Storage))
      \<lparr>tty_fds = [], tty_settings = None\<rparr> = (True, d, k)"
    by (simp add: openDevice_def Let_def sample_tick_def new_SerialDevice_def)
  with gps_device_is_raw_but_for_carriage_returns [OF this] show ?thesis by auto
qed

end
