(* ===== verification/Rounding.thy ===== *)
theory Rounding
  imports IEEE754
begin

section \<open>Rounding errors over the whole range\<close>

text \<open>
  The error of one operation in a format \<open>F\<close>, subnormal results included: half a unit in the last place
  is at most \<open>rel_error F\<close> times the exact result plus \<open>min_error F\<close>, half the smallest positive number. For
  \<open>double\<close> these are \<open>unit\_roundoff\<close> and \<open>tiny\<close>.
\<close>

definition rel_error :: "fmt \<Rightarrow> rat" where
  "rel_error F = pow2 (- int (prec F))"

definition min_error :: "fmt \<Rightarrow> rat" where
  "min_error F = pow2 (emin F - int (prec F))"

lemma format_errors_pos [simp]: "0 < rel_error F" "0 \<le> rel_error F" "0 < min_error F" "0 \<le> min_error F"
  by (simp_all add: rel_error_def min_error_def)

lemma round_mag_error_mixed:
  assumes "0 \<le> m"
  shows "\<bar>round_mag F m - m\<bar> \<le> rel_error F * m + min_error F"
proof (cases "m = 0")
  case False
  then have m: "0 < m" using assms by simp
  show ?thesis
  proof (cases "pow2 (emin F) \<le> m")
    case True
    then have "\<bar>round_mag F m - m\<bar> \<le> m * rel_error F"
      using round_mag_rel_error by (simp add: rel_error_def)
    then show ?thesis by (simp add: mult.commute add_increasing2)
  next
    case False
    then have "pow2 (ilog2 m) < pow2 (emin F)" using ilog2_bounds(1) [OF m] by linarith
    then have "ilog2 m < emin F" by (simp only: pow2_less_iff)
    then have u: "ulp_exp F m = emin F - int (prec F) + 1" by (simp add: ulp_exp_def)
    have "pow2 (ulp_exp F m) / 2 = min_error F"
      unfolding u by (simp only: pow2_add min_error_def) simp
    then have "\<bar>round_mag F m - m\<bar> \<le> min_error F" using round_mag_error [OF m, of F] by simp
    then show ?thesis using m by (simp add: add_increasing)
  qed
qed simp

text \<open>A finite number within \<open>e\<close> of a value.\<close>

fun inside :: "rat \<Rightarrow> fp \<Rightarrow> rat \<Rightarrow> bool" where
  "inside e (FFin s m) v = (0 \<le> m \<and> \<bar>signed s m - v\<bar> \<le> e)"
| "inside e x v = False"

lemma inside_mono: "inside e x v \<Longrightarrow> e \<le> e' \<Longrightarrow> inside e' x v"
  by (cases x) auto

lemma insideE:
  assumes "inside e x v"
  obtains s m where "x = FFin s m" "0 \<le> m" "\<bar>signed s m - v\<bar> \<le> e"
  using assms by (cases x) auto

lemma inside_fround:
  assumes "wf_fmt F" "signed s \<bar>v\<bar> = v" "\<bar>v\<bar> \<le> pow2 (emax F)"
  shows "inside (rel_error F * \<bar>v\<bar> + min_error F) (fround F s \<bar>v\<bar>) v"
proof -
  have r: "fround F s \<bar>v\<bar> = FFin s (round_mag F \<bar>v\<bar>)"
    using assms by (intro fround_finite) simp_all
  have "signed s (round_mag F \<bar>v\<bar>) - v = signed s (round_mag F \<bar>v\<bar> - \<bar>v\<bar>)"
    using assms(2) by (auto simp: signed_def split: if_splits)
  then show ?thesis
    using round_mag_error_mixed [of "\<bar>v\<bar>"] round_mag_nonneg [of "\<bar>v\<bar>" F] by (simp add: r)
qed

lemma inside_fadd_any:
  assumes "wf_fmt F" "\<bar>signed s a + signed t b\<bar> \<le> pow2 (emax F)"
  shows "inside (rel_error F * \<bar>signed s a + signed t b\<bar> + min_error F) (fadd F (FFin s a) (FFin t b))
    (signed s a + signed t b)"
proof (cases "signed s a + signed t b = 0")
  case True
  then show ?thesis by (simp add: signed_def [of _ "0 :: rat"])
next
  case False
  then show ?thesis
    using inside_fround [OF assms(1) _ assms(2), of "signed s a + signed t b < 0"]
    by (simp add: Let_def signed_def)
qed

lemma inside_fround_signed:
  assumes "wf_fmt F" "0 \<le> m" "m \<le> pow2 (emax F)"
  shows "inside (rel_error F * m + min_error F) (fround F s m) (signed s m)"
  using inside_fround [OF assms(1), of s "signed s m"] assms(2,3) by (simp del: power_int_numeral)

lemma inside_fmul_any:
  assumes "wf_fmt F" "0 \<le> a" "0 \<le> b" "\<bar>signed s a * signed t b\<bar> \<le> pow2 (emax F)"
  shows "inside (rel_error F * \<bar>signed s a * signed t b\<bar> + min_error F) (fmul F (FFin s a) (FFin t b))
    (signed s a * signed t b)"
proof -
  have "\<bar>signed s a * signed t b\<bar> = a * b" using assms(2,3) by (simp add: abs_mult)
  with assms show ?thesis
    unfolding fmul.simps signed_product [symmetric] by (auto intro: inside_fround_signed)
qed

lemma inside_fdiv_any:
  assumes "wf_fmt F" "0 \<le> a" "0 < b" "\<bar>signed s a / signed t b\<bar> \<le> pow2 (emax F)"
  shows "inside (rel_error F * \<bar>signed s a / signed t b\<bar> + min_error F) (fdiv F (FFin s a) (FFin t b))
    (signed s a / signed t b)"
proof -
  have q: "\<bar>signed s a / signed t b\<bar> = a / b" using assms(2,3) by (simp add: abs_divide)
  have f: "fdiv F (FFin s a) (FFin t b) = fround F (s \<noteq> t) (a / b)" using assms(3) by simp
  have "0 \<le> a / b" "a / b \<le> pow2 (emax F)" using assms q by (simp_all del: power_int_numeral)
  from this(1) inside_fround_signed [OF assms(1) this, of "s \<noteq> t"] show ?thesis
    unfolding f signed_quotient [symmetric] by (simp only: signed_abs abs_of_nonneg)
qed

text \<open>The instances for \<open>double\<close>.\<close>

definition tiny :: rat where
  "tiny = pow2 (- 1075)"

lemma tiny_pos [simp]: "0 < tiny" "0 \<le> tiny"
  by (simp_all add: tiny_def)

lemma binary64_errors: "rel_error binary64 = unit_roundoff" "min_error binary64 = tiny"
  by (simp_all add: rel_error_def min_error_def unit_roundoff_def tiny_def del: power_int_numeral)

lemmas inside_fadd = inside_fadd_any [OF wf_binary(2), unfolded binary64_errors binary64_simps]
lemmas inside_fmul = inside_fmul_any [OF wf_binary(2), unfolded binary64_errors binary64_simps]
lemmas inside_fdiv = inside_fdiv_any [OF wf_binary(2), unfolded binary64_errors binary64_simps]

lemma signed_False [simp]: "signed False m = m"
  by (simp add: signed_def)

lemmas inside_fmul_pos = inside_fmul [where t = False, unfolded signed_False]
lemmas inside_fdiv_pos = inside_fdiv [where t = False, unfolded signed_False]

lemma fof_int_small: "0 \<le> i \<Longrightarrow> i < 2 ^ 31 \<Longrightarrow> fof_int binary64 i = FFin False (of_int i)"
  using fof_int_exact [of binary64 i] by simp

text \<open>
  A point of a line: \<open>start + (goal - start) / n * i\<close> evaluated in \<open>double\<close>, \<open>i\<close> steps of \<open>n\<close> from
  \<open>s\<close> to \<open>g\<close>. The error does not grow with the number of steps.
\<close>

lemma line_point_bound:
  fixes S D d r p t x :: rat
  assumes M: "\<bar>S\<bar> \<le> M" "\<bar>D\<bar> \<le> M" "\<bar>S + D * q\<bar> \<le> M" and q: "0 \<le> q" "q \<le> 1" and j: "0 \<le> j" "j \<le> J" "1 \<le> J"
    and d: "\<bar>d - D\<bar> \<le> u * \<bar>D\<bar> + e" and r: "\<bar>r - d * q\<bar> \<le> u * \<bar>d * q\<bar> + j * e"
    and t: "\<bar>t - r\<bar> \<le> u * \<bar>r\<bar> + e" and x: "\<bar>x - (S + t)\<bar> \<le> u * \<bar>S + t\<bar> + e"
    and u: "0 \<le> u" "u \<le> 1 / 100" and e: "0 \<le> e"
  shows "\<bar>x - (S + D * q)\<bar> \<le> 8 * u * M + 8 * J * e"
proof -
  have je: "j * e \<le> J * e" "e \<le> J * e" using j e by (simp_all add: mult_right_mono mult_le_cancel_right1)
  have mono: "u * a \<le> u * b" if "a \<le> b" for a b using that u(1) by (rule mult_left_mono)
  have small: "u * (J * e) \<le> J * e / 100" using mult_right_mono [OF u(2), of "J * e"] je(2) e by simp
  have uM: "0 \<le> u * M" using u(1) M(1) abs_ge_zero [of S] by (intro mult_nonneg_nonneg) linarith+
  have uuM: "u * (u * M) \<le> u * M / 100" using mult_right_mono [OF u(2) uM] by simp
  have d1: "\<bar>d - D\<bar> \<le> u * M + e" using d mono [OF M(2)] by linarith
  have "\<bar>d * q - D * q\<bar> = \<bar>d - D\<bar> * q" using q(1) by (simp add: abs_mult flip: left_diff_distrib)
  also have "\<dots> \<le> \<bar>d - D\<bar>" using q by (simp add: mult_left_le)
  finally have dq: "\<bar>d * q - D * q\<bar> \<le> u * M + e" using d1 by linarith
  have "\<bar>D * q\<bar> \<le> \<bar>D\<bar>" using q by (simp add: abs_mult mult_left_le)
  then have Dq: "\<bar>D * q\<bar> \<le> M" using M(2) by linarith
  then have dq1: "\<bar>d * q\<bar> \<le> M + u * M + e" using dq by linarith
  have "u * \<bar>d * q\<bar> \<le> u * M + u * (u * M) + u * e"
    using mono [OF dq1] by (simp add: distrib_left)
  then have r1: "\<bar>r - D * q\<bar> \<le> 2 * (u * M) + u * M / 100 + 3 * (J * e)"
    using r dq je small uuM mono [OF je(2)] e by linarith
  then have r2: "\<bar>r\<bar> \<le> M + 3 * (u * M) + 3 * (J * e)" using Dq uM je e by linarith
  have "u * \<bar>r\<bar> \<le> u * M + 3 * (u * (u * M)) + 3 * (u * (J * e))"
    using mono [OF r2] by (simp add: distrib_left mult.left_commute)
  then have t1: "\<bar>t - D * q\<bar> \<le> 3 * (u * M) + 4 * (u * M) / 100 + 5 * (J * e)"
    using t r1 je small uuM e uM by linarith
  then have t2: "\<bar>S + t\<bar> \<le> M + 4 * (u * M) + 5 * (J * e)" using M(3) uM je e by linarith
  have "u * \<bar>S + t\<bar> \<le> u * M + 4 * (u * (u * M)) + 5 * (u * (J * e))"
    using mono [OF t2] by (simp add: distrib_left mult.left_commute)
  then have "\<bar>x - (S + D * q)\<bar> \<le> 5 * (u * M) + 7 * (J * e)"
    using x t1 je small uuM e uM by linarith
  then show ?thesis using uM je(2) e by (simp add: mult.assoc)
qed

lemma unit_roundoff_small: "unit_roundoff \<le> 1 / 100"
  by (simp add: unit_roundoff_def power_int_minus)

lemma tiny_small: "2 ^ 31 * tiny \<le> 1"
proof -
  have "2 ^ 31 * tiny = pow2 31 * pow2 (- 1075)" by (simp add: tiny_def)
  also have "\<dots> = pow2 (- 1044)" by (simp flip: pow2_add)
  also have "\<dots> \<le> pow2 0" by (simp only: pow2_le_iff)
  finally show ?thesis by simp
qed

lemma abs_scaled_le:
  fixes q x :: rat
  shows "0 \<le> q \<Longrightarrow> q \<le> 1 \<Longrightarrow> \<bar>x * q\<bar> \<le> \<bar>x\<bar>"
  by (simp add: abs_mult mult_left_le)

lemma convex_bound:
  fixes S G :: rat
  assumes "0 \<le> q" "q \<le> 1"
  shows "\<bar>S + (G - S) * q\<bar> \<le> \<bar>S\<bar> + \<bar>G\<bar>"
proof -
  have "S + (G - S) * q = (1 - q) * S + q * G" by (simp add: algebra_simps)
  also have "\<bar>\<dots>\<bar> \<le> (1 - q) * \<bar>S\<bar> + q * \<bar>G\<bar>"
    using abs_triangle_ineq [of "(1 - q) * S" "q * G"] assms by (simp add: abs_mult)
  also have "\<dots> \<le> \<bar>S\<bar> + \<bar>G\<bar>"
    using assms by (intro add_mono) (simp_all add: mult_left_le_one_le mult_right_le_one_le)
  finally show ?thesis .
qed

lemma abs_near_bound:
  fixes x y z :: rat
  assumes "\<bar>x - y\<bar> \<le> z + e" "z \<le> \<bar>y\<bar> / 100" "\<bar>y\<bar> \<le> Y"
  shows "\<bar>x\<bar> \<le> 2 * Y + e"
  using assms by linarith

lemma line_point:
  assumes ab: "0 \<le> a" "0 \<le> b" "a + b \<le> pow2 1000" and i: "0 \<le> i" "i < n" "n < 2 ^ 31"
  shows "inside (8 * unit_roundoff * (a + b) + 8 * 2 ^ 31 * tiny)
    (fadd binary64 (FFin s a) (fmul binary64 (fdiv binary64 (fsub binary64 (FFin t b) (FFin s a)) (fof_int binary64 n))
      (fof_int binary64 i)))
    (signed s a + (signed t b - signed s a) * (of_int i / of_int n))"
proof -
  let ?u = unit_roundoff and ?e = tiny and ?S = "signed s a" and ?G = "signed t b"
  define M where M_def: "M = a + b"
  let ?q = "of_int i / of_int n :: rat"
  note u = unit_roundoff_pos(2) unit_roundoff_small and e = tiny_pos(2) tiny_small
  have n: "0 < (of_int n :: rat)" "0 \<le> (of_int i :: rat)" "(of_int i :: rat) \<le> of_int n" "1 \<le> (of_int n :: rat)"
    "(of_int i :: rat) \<le> 2 ^ 31"
  proof -
    have "(of_int i :: rat) \<le> of_int (2 ^ 31)" unfolding of_int_le_iff using i by linarith
    then show "(of_int i :: rat) \<le> 2 ^ 31" by simp
  qed (use i in simp_all)
  have q: "0 \<le> ?q" "?q \<le> 1" using n by simp_all
  have SG: "\<bar>?S\<bar> = a" "\<bar>?G\<bar> = b" using ab by simp_all
  have M: "\<bar>?S\<bar> \<le> M" "\<bar>?G - ?S\<bar> \<le> M" "\<bar>?S + (?G - ?S) * ?q\<bar> \<le> M" "0 \<le> M"
    using SG ab convex_bound [OF q, of ?S ?G] abs_triangle_ineq4 [of ?G ?S] by (simp_all add: M_def)
  have big: "x \<le> pow2 1023" if "x \<le> 16 * M + 256" for x
  proof -
    have "16 * M + 256 \<le> 16 * pow2 1000 + 256" using ab(3) by (simp add: M_def)
    also have "\<dots> \<le> pow2 1023" by simp
    finally show ?thesis using that by linarith
  qed
  have uM: "?u * \<bar>x\<bar> \<le> \<bar>x\<bar> / 100" for x using mult_right_mono [OF u(2), of "\<bar>x\<bar>"] by simp
  have "1 * ?e \<le> 2 ^ 31 * ?e" by (rule mult_right_mono) simp_all
  then have e1: "?e \<le> 1" using e(2) by (simp only: mult_1)
  have "signed t b + signed (\<not> s) a = ?G - ?S" by (simp add: signed_def)
  then have "inside (?u * \<bar>?G - ?S\<bar> + ?e) (fsub binary64 (FFin t b) (FFin s a)) (?G - ?S)"
    using inside_fadd [of t b "\<not> s" a] big [of "\<bar>?G - ?S\<bar>"] M(2,4) by (simp add: fsub_def del: fadd.simps power_int_numeral)
  then obtain ds d where d: "fsub binary64 (FFin t b) (FFin s a) = FFin ds d" "0 \<le> d"
      "\<bar>signed ds d - (?G - ?S)\<bar> \<le> ?u * \<bar>?G - ?S\<bar> + ?e" by (rule insideE)
  have d2: "\<bar>signed ds d\<bar> \<le> 2 * M + 1" using abs_near_bound [OF d(3) uM M(2)] M(4) e1 by linarith
  let ?D = "signed ds d"
  have N: "fof_int binary64 n = FFin False (of_int n)" "fof_int binary64 i = FFin False (of_int i)"
    using i by (simp_all add: fof_int_small)
  have dn: "\<bar>?D / of_int n\<bar> \<le> 2 * M + 1"
  proof -
    have "\<bar>?D / of_int n\<bar> \<le> \<bar>?D\<bar>" using n(1,4) by (simp add: abs_divide divide_le_eq mult_le_cancel_left1)
    then show ?thesis using d2 by linarith
  qed
  then have "\<bar>?D / of_int n\<bar> \<le> pow2 1023" using M(4) by (intro big) linarith
  then obtain rs r where r: "fdiv binary64 (FFin ds d) (FFin False (of_int n)) = FFin rs r" "0 \<le> r"
      "\<bar>signed rs r - ?D / of_int n\<bar> \<le> ?u * \<bar>?D / of_int n\<bar> + ?e"
    using inside_fdiv_pos [OF d(2) n(1)] by (blast elim: insideE)
  let ?R = "signed rs r * of_int i"
  have "?R - ?D * ?q = (signed rs r - ?D / of_int n) * of_int i" by (simp add: left_diff_distrib)
  then have "\<bar>?R - ?D * ?q\<bar> = \<bar>signed rs r - ?D / of_int n\<bar> * of_int i"
    using n(2) by (simp add: abs_mult)
  also have "\<dots> \<le> (?u * \<bar>?D / of_int n\<bar> + ?e) * of_int i" using r(3) n(2) by (rule mult_right_mono)
  also have "\<dots> = ?u * \<bar>?D * ?q\<bar> + of_int i * ?e" using n(1,2) by (simp add: abs_mult abs_divide algebra_simps)
  finally have R: "\<bar>?R - ?D * ?q\<bar> \<le> ?u * \<bar>?D * ?q\<bar> + of_int i * ?e" .
  have "of_int i * ?e \<le> 2 ^ 31 * ?e" using n(5) by (rule mult_right_mono) simp
  then have ie: "of_int i * ?e \<le> 1" using tiny_small by linarith
  have "\<bar>?D * ?q\<bar> \<le> \<bar>?D\<bar>" using q by (rule abs_scaled_le)
  then have "\<bar>?D * ?q\<bar> \<le> 2 * M + 1" using d2 by linarith
  from abs_near_bound [OF R uM this] ie have R2: "\<bar>?R\<bar> \<le> 4 * M + 3" by (simp add: distrib_left)
  then have "\<bar>?R\<bar> \<le> pow2 1023" using M(4) by (intro big) linarith
  then obtain ts t' where t: "fmul binary64 (FFin rs r) (FFin False (of_int i)) = FFin ts t'" "0 \<le> t'"
      "\<bar>signed ts t' - ?R\<bar> \<le> ?u * \<bar>?R\<bar> + ?e"
    using inside_fmul_pos [OF r(2) n(2)] by (blast elim: insideE)
  let ?T = "signed ts t'"
  have "\<bar>?S + ?T\<bar> \<le> 9 * M + 7" 
    using abs_near_bound [OF t(3) uM R2] M(1,4) e1 abs_triangle_ineq [of ?S ?T] by (simp add: distrib_left)
  then have "\<bar>?S + ?T\<bar> \<le> pow2 1023" using M(4) by (intro big) linarith
  then obtain xs x where x: "fadd binary64 (FFin s a) (FFin ts t') = FFin xs x" "0 \<le> x"
      "\<bar>signed xs x - (?S + ?T)\<bar> \<le> ?u * \<bar>?S + ?T\<bar> + ?e"
    using inside_fadd by (blast elim: insideE)
  have "\<bar>signed xs x - (?S + (?G - ?S) * ?q)\<bar> \<le> 8 * ?u * M + 8 * 2 ^ 31 * ?e"
    using line_point_bound [OF M(1,2,3) q n(2,5) _ d(3) R t(3) x(3) u e(1)] by simp
  then show ?thesis unfolding M_def by (simp only: N d(1) r(1) t(1) x(1) inside.simps x(2))
qed

end
