(* ===== verification/Teleop.thy ===== *)
theory Teleop
  imports Float_Bits
begin

section \<open>Joystick teleoperation\<close>

text \<open>
  \<open>teleop/src/joy_teleop.cpp\<close>: the node's parameters as members and the callback that turns a
  joystick message into a velocity command. The axes are \<open>float\<close>s, the buttons \<open>int\<close>s, the fields
  of a \<open>Twist\<close> \<open>double\<close>s; an index outside the message's vectors is undefined behaviour. \<open>float\<close>
  expressions are evaluated in \<open>float\<close>.
\<close>

record Joy =
  axes :: "fp list"
  buttons :: "int list"

record Twist =
  linear_x :: fp
  linear_y :: fp
  linear_z :: fp
  angular_x :: fp
  angular_y :: fp
  angular_z :: fp

definition zero_Twist :: Twist where
  "zero_Twist = \<lparr>linear_x = fzero, linear_y = fzero, linear_z = fzero, angular_x = fzero, angular_y = fzero,
     angular_z = fzero\<rparr>"

record JoyTankDrive =
  leftAxisId :: int
  rightAxisId :: int
  safetyButtonId :: int
  maxVel :: fp
  trackWidth :: fp

text \<open>The constructor, with the overrides of the parameters; the \<open>double\<close> parameters become \<open>float\<close>s.\<close>

definition new_JoyTankDrive ::
  "int option \<Rightarrow> int option \<Rightarrow> fp option \<Rightarrow> int option \<Rightarrow> fp option \<Rightarrow> JoyTankDrive" where
  "new_JoyTankDrive left_axis right_axis track_width safety_button max_vel = (let
     param = (\<lambda>override default. case override of None \<Rightarrow> default | Some x \<Rightarrow> x)
   in \<lparr>leftAxisId = (case left_axis of None \<Rightarrow> 0 | Some x \<Rightarrow> x),
       rightAxisId = (case right_axis of None \<Rightarrow> 2 | Some x \<Rightarrow> x),
       safetyButtonId = (case safety_button of None \<Rightarrow> 5 | Some x \<Rightarrow> x),
       maxVel = fconv binary32 (param max_vel (dlit 0)),
       trackWidth = fconv binary32 (param track_width (dlit (67 / 100)))\<rparr>)"

text \<open>\<open>v[i]\<close> for an \<open>int\<close>: a negative index becomes a huge one.\<close>

definition vec_at_int :: "'a list \<Rightarrow> int \<Rightarrow> 'a outcome" where
  "vec_at_int xs i = (if i < 0 then Undefined else vec_at xs (nat i))"

definition topic_callback :: "JoyTankDrive \<Rightarrow> Joy \<Rightarrow> Twist outcome" where
  "topic_callback n msg =
     and_then (vec_at_int (axes msg) (leftAxisId n)) (\<lambda>leftAxis.
     and_then (vec_at_int (axes msg) (rightAxisId n)) (\<lambda>rightAxis.
     and_then (vec_at_int (buttons msg) (safetyButtonId n)) (\<lambda>safetyButton.
       let twistMsg = zero_Twist in
       Done (if safetyButton \<noteq> 0
         then twistMsg\<lparr>
           linear_x := fmul binary64 (fdiv binary64 (fadd binary32 leftAxis rightAxis) (dlit 2)) (maxVel n),
           linear_y := fzero, linear_z := fzero, angular_x := fzero, angular_y := fzero,
           angular_z := fmul binary32 (fdiv binary32 (fsub binary32 rightAxis leftAxis) (trackWidth n)) (maxVel n)\<rparr>
         else twistMsg))))"

subsection \<open>Properties\<close>

definition index_ok :: "int \<Rightarrow> 'a list \<Rightarrow> bool" where
  "index_ok i xs \<longleftrightarrow> 0 \<le> i \<and> nat i < length xs"

lemma vec_at_int_ok [simp]: "index_ok i xs \<Longrightarrow> vec_at_int xs i = Done (xs ! nat i)"
  by (simp add: vec_at_int_def index_ok_def)

lemma vec_at_int_bad [simp]: "\<not> index_ok i xs \<Longrightarrow> vec_at_int xs i = Undefined"
  by (auto simp: vec_at_int_def index_ok_def)

text \<open>
  C30: Without the safety button no motion: the callback publishes a command exactly when the three
  configured indices exist in the message (else it reads out of bounds), all components of the
  command are zero unless the safety button is pressed, and only the forward and the turning speed
  can ever differ from zero.
\<close>

theorem teleop_moves_only_with_the_safety_button:
  "(topic_callback n msg = Undefined \<longleftrightarrow> \<not> (index_ok (leftAxisId n) (axes msg) \<and> index_ok (rightAxisId n) (axes msg) \<and>
      index_ok (safetyButtonId n) (buttons msg))) \<and>
   (\<forall>t. topic_callback n msg = Done t \<longrightarrow>
      (buttons msg ! nat (safetyButtonId n) = 0 \<longrightarrow> t = zero_Twist) \<and>
      t\<lparr>linear_x := fzero, angular_z := fzero\<rparr> = zero_Twist)"
  by (cases "index_ok (leftAxisId n) (axes msg)"; cases "index_ok (rightAxisId n) (axes msg)";
      cases "index_ok (safetyButtonId n) (buttons msg)")
    (auto simp: topic_callback_def zero_Twist_def Let_def split: if_splits)

text \<open>A stick position: a float from -1 to 1.\<close>

fun stick :: "fp \<Rightarrow> bool" where
  "stick (FFin s m) = (0 \<le> m \<and> m \<le> 1)"
| "stick x = False"

lemma dlit_2: "dlit 2 = FFin False 2"
  by code_simp

lemma ok_2: "fp_ok binary32 (FFin False 2)" "fp_ok binary64 (FFin False 1)"
proof -
  show "fp_ok binary32 (FFin False 2)" by code_simp
  show "fp_ok binary64 (FFin False 1)" by code_simp
qed

lemma half_sum:
  assumes "stick x" "stick y"
  obtains s m where "fdiv binary64 (fadd binary32 x y) (dlit 2) = FFin s m" "0 \<le> m" "m \<le> 1"
proof -
  obtain s a t b where x: "x = FFin s a" "0 \<le> a" "a \<le> 1" and y: "y = FFin t b" "0 \<le> b" "b \<le> 1"
    using assms by (cases x; cases y) auto
  obtain u c where c: "fadd binary32 x y = FFin u c" "0 \<le> c" "c \<le> 2"
  proof (cases "signed s a + signed t b = 0")
    case True
    then show ?thesis using that [of "s \<and> t" 0] by (simp add: x(1) y(1))
  next
    case False
    have "\<bar>signed s a + signed t b\<bar> \<le> 2" using x y by (auto simp: signed_def)
    then obtain m where "fround binary32 (signed s a + signed t b < 0) \<bar>signed s a + signed t b\<bar> =
        FFin (signed s a + signed t b < 0) m" "0 \<le> m" "m \<le> 2"
      using fround_le [of binary32 "\<bar>signed s a + signed t b\<bar>" 2 False] ok_2(1) by (metis abs_ge_zero wf_binary(1))
    then show ?thesis using that False by (simp add: x(1) y(1) Let_def)
  qed
  obtain m where "fround binary64 u (c / 2) = FFin u m" "0 \<le> m" "m \<le> 1"
    using fround_le [of binary64 "c / 2" 1 False u] ok_2(2) c by auto
  then show ?thesis using that by (simp add: c dlit_2)
qed

text \<open>
  With sticks between -1 and 1 the forward speed is a finite number of magnitude at most the
  configured maximum, whatever rounding does.
\<close>

theorem teleop_speed_is_bounded:
  assumes "topic_callback n msg = Done t" "\<forall>a \<in> set (axes msg). stick a"
    and "maxVel n = FFin False v" "fp_ok binary32 (maxVel n)"
  shows "\<exists>s m. linear_x t = FFin s m \<and> 0 \<le> m \<and> m \<le> v"
proof -
  have v: "0 \<le> v" using assms(3,4) by simp
  have ids: "index_ok (leftAxisId n) (axes msg)" "index_ok (rightAxisId n) (axes msg)"
      "index_ok (safetyButtonId n) (buttons msg)"
    using assms(1) by (auto simp: topic_callback_def and_then_Done_iff vec_at_int_def index_ok_def vec_at_def
        split: if_splits)
  let ?l = "axes msg ! nat (leftAxisId n)" and ?r = "axes msg ! nat (rightAxisId n)"
  have "stick ?l" "stick ?r" using ids assms(2) by (simp_all add: index_ok_def)
  then obtain s m where h: "fdiv binary64 (fadd binary32 ?l ?r) (dlit 2) = FFin s m" "0 \<le> m" "m \<le> 1"
    by (rule half_sum)
  have "m * v \<le> v" using h(3) v by (simp add: mult_left_le_one_le h(2))
  moreover have "0 \<le> m * v" using h(2) v by simp
  moreover have "fp_ok binary64 (FFin False v)"
    using fp_ok_binary64_if_binary32 assms(3,4) by metis
  ultimately obtain p where "fround binary64 s (m * v) = FFin s p" "0 \<le> p" "p \<le> v"
    using fround_le [of binary64 "m * v" v False s] by auto
  then have "\<exists>s' p. fmul binary64 (fdiv binary64 (fadd binary32 ?l ?r) (dlit 2)) (maxVel n) = FFin s' p \<and> 0 \<le> p \<and> p \<le> v"
    by (simp add: h(1) assms(3))
  moreover have "\<exists>s' p. fzero = FFin s' p \<and> 0 \<le> p \<and> p \<le> v"
    using v unfolding fzero_def by (intro exI [of _ False] exI [of _ 0]) simp
  moreover have "linear_x t = fmul binary64 (fdiv binary64 (fadd binary32 ?l ?r) (dlit 2)) (maxVel n) \<or> linear_x t = fzero"
    using assms(1) ids by (auto simp: topic_callback_def zero_Twist_def Let_def split: if_splits)
  ultimately show ?thesis by metis
qed

text \<open>The node with the defaults of its parameters and a maximum of 2 m/s, and a message.\<close>

definition sample_teleop :: JoyTankDrive where
  "sample_teleop = new_JoyTankDrive None None None None (Some (FFin False 2))"

definition sample_joy :: "int \<Rightarrow> Joy" where
  "sample_joy button = \<lparr>axes = [FFin False 1, fzero, FFin True (1 / 2)], buttons = [0, 0, 0, 0, 0, button]\<rparr>"

lemma sample_teleop: "maxVel sample_teleop = FFin False 2" "fp_ok binary32 (maxVel sample_teleop)"
proof -
  show m: "maxVel sample_teleop = FFin False 2"
    using ok_2(1) by (simp add: sample_teleop_def new_JoyTankDrive_def del: fp_ok.simps)
  show "fp_ok binary32 (maxVel sample_teleop)" unfolding m by (rule ok_2)
qed

lemma sample_command: "\<exists>t. topic_callback sample_teleop (sample_joy b) = Done t"
  by (simp add: topic_callback_def sample_joy_def sample_teleop_def new_JoyTankDrive_def vec_at_int_def Let_def)

lemma teleop_moves_only_with_the_safety_button_witness:
  "topic_callback sample_teleop (sample_joy 0) = Done zero_Twist"
proof -
  obtain t where t: "topic_callback sample_teleop (sample_joy 0) = Done t" using sample_command by blast
  moreover have "buttons (sample_joy 0) ! nat (safetyButtonId sample_teleop) = 0"
    by (simp add: sample_joy_def sample_teleop_def new_JoyTankDrive_def nth_Cons')
  ultimately show ?thesis
    using teleop_moves_only_with_the_safety_button [of sample_teleop "sample_joy 0"] by simp
qed

lemma teleop_speed_is_bounded_witness:
  "\<exists>t s m. topic_callback sample_teleop (sample_joy 1) = Done t \<and> linear_x t = FFin s m \<and> m \<le> 2"
proof -
  obtain t where t: "topic_callback sample_teleop (sample_joy 1) = Done t" using sample_command by blast
  from teleop_speed_is_bounded [OF t _ sample_teleop] t show ?thesis
    by (auto simp: sample_joy_def fzero_def)
qed

end
