(* ===== verification/Teleop_Sides.thy ===== *)
theory Teleop_Sides
  imports Rounding Teleop
begin

section \<open>The tank drive behind the joystick\<close>

text \<open>
  The callback of \<open>Teleop\<close> sends half the sum of the sticks as forward speed and their difference over
  the track width as turning speed. Here: the two together give each side of the rover the speed of
  its own stick, through the rounding of a \<open>double\<close> and three \<open>float\<close> operations.
\<close>

subsection \<open>Errors of the two components\<close>

lemma scaled_error:
  fixes x y c e :: rat
  assumes "\<bar>x - y\<bar> \<le> e" "0 \<le> c"
  shows "\<bar>c * x - c * y\<bar> \<le> c * e"
  using mult_left_mono [OF assms] assms(2) by (simp add: abs_mult flip: right_diff_distrib)

lemma tank_forward:
  fixes S s H X v u t U T :: rat
  assumes S: "\<bar>S - s\<bar> \<le> u * \<bar>s\<bar> + t" "\<bar>s\<bar> \<le> 2" and H: "\<bar>H - S / 2\<bar> \<le> U * \<bar>S / 2\<bar> + T"
    and X: "\<bar>X - H * v\<bar> \<le> U * \<bar>H * v\<bar> + T" and v: "0 \<le> v"
    and u: "0 \<le> u" "u \<le> 1 / 1000" "0 \<le> U" "U \<le> u / 1000" "0 \<le> t" "t \<le> 1 / 1000" "0 \<le> T" "T \<le> t"
  shows "\<bar>X - v * (s / 2)\<bar> \<le> 2 * (u * v) + 2 * (t * v) + t"
proof -
  have us: "u * \<bar>s\<bar> \<le> u * 2" using S(2) u(1) by (rule mult_left_mono)
  then have S2: "\<bar>S\<bar> \<le> 21 / 10" using S u(2,6) by linarith
  have US: "U * \<bar>S / 2\<bar> \<le> U * 2" using S2 u(3) by (intro mult_left_mono) simp_all
  then have H2: "\<bar>H\<bar> \<le> 2" using H S2 u by linarith
  have "v * \<bar>H\<bar> \<le> v * 2" using H2 v by (rule mult_left_mono)
  then have "\<bar>H * v\<bar> \<le> 2 * v" using v by (simp add: abs_mult mult.commute)
  then have "U * \<bar>H * v\<bar> \<le> U * (2 * v)" using u(3) by (rule mult_left_mono)
  moreover have "U * v \<le> u / 1000 * v" using u(4) v by (rule mult_right_mono)
  ultimately have X2: "\<bar>X - H * v\<bar> \<le> u * v / 500 + T" using X by (simp add: algebra_simps)
  have "\<bar>v * H - v * (S / 2)\<bar> \<le> v * (u / 500 + t)"
    using H US u(4,8) v by (intro scaled_error) linarith
  moreover have "\<bar>v * (S / 2) - v * (s / 2)\<bar> \<le> v * (u + t / 2)"
    using S us v by (intro scaled_error) linarith
  ultimately have "\<bar>X - v * (s / 2)\<bar> \<le> u * v / 500 + T + (v * (u / 500 + t) + v * (u + t / 2))"
    using X2 by (simp add: mult.commute)
  moreover have "v * (u / 500 + t) + v * (u + t / 2) = 501 / 500 * (u * v) + 3 / 2 * (t * v)"
    by (simp add: algebra_simps)
  moreover have "0 \<le> u * v" "0 \<le> t * v" using u v by simp_all
  ultimately show ?thesis using u(8) by linarith
qed

lemma tank_turn:
  fixes D d Q Z v W u t :: rat
  assumes D: "\<bar>D - d\<bar> \<le> u * \<bar>d\<bar> + t" "\<bar>d\<bar> \<le> 2" and Q: "\<bar>Q - D / W\<bar> \<le> u * \<bar>D / W\<bar> + t"
    and Z: "\<bar>Z - Q * v\<bar> \<le> u * \<bar>Q * v\<bar> + t" and v: "0 \<le> v" and W: "0 < W"
    and u: "0 \<le> u" "u \<le> 1 / 1000" "0 \<le> t" "t \<le> 1 / 1000"
  shows "\<bar>Z * (W / 2) - v * (d / 2)\<bar> \<le> 4 * (u * v) + t * v + t * (W * v) + t * W"
proof -
  have ud: "u * \<bar>d\<bar> \<le> u * 2" using D(2) u(1) by (rule mult_left_mono)
  then have D2: "\<bar>D\<bar> \<le> 21 / 10" using D u by linarith
  have QW: "\<bar>W * Q - D\<bar> \<le> u * \<bar>D\<bar> + W * t"
    using scaled_error [OF Q, of W] W by (simp add: abs_divide algebra_simps)
  have uD: "u * \<bar>D\<bar> \<le> u * (21 / 10)" using D2 u(1) by (rule mult_left_mono)
  then have QW2: "\<bar>W * Q\<bar> \<le> 22 / 10 + W * t" using QW D2 u by linarith
  have "\<bar>W / 2 * Z - W / 2 * (Q * v)\<bar> \<le> W / 2 * (u * \<bar>Q * v\<bar> + t)"
    using Z W by (intro scaled_error) simp_all
  also have "\<dots> = u * v / 2 * \<bar>W * Q\<bar> + W * t / 2" using v W by (simp add: abs_mult algebra_simps)
  also have "\<dots> \<le> u * v / 2 * (22 / 10 + W * t) + W * t / 2"
    using QW2 u v by (intro add_right_mono mult_left_mono) simp_all
  finally have 1: "\<bar>W / 2 * Z - W / 2 * (Q * v)\<bar> \<le> u * v / 2 * (22 / 10 + W * t) + W * t / 2" .
  have 2: "\<bar>v / 2 * (W * Q) - v / 2 * D\<bar> \<le> v / 2 * (u * (21 / 10) + W * t)"
    using QW uD v by (intro scaled_error) simp_all
  have 3: "\<bar>v / 2 * D - v / 2 * d\<bar> \<le> v / 2 * (u * 2 + t)"
    using D ud v by (intro scaled_error) simp_all
  have "u * (t * (W * v)) \<le> 1 / 1000 * (t * (W * v))" using u v W by (intro mult_right_mono) simp_all
  moreover have "0 \<le> u * v" "0 \<le> t * v" "0 \<le> t * (W * v)" "0 \<le> t * W" using u v W by simp_all
  moreover have "u * v / 2 * (22 / 10 + W * t) + W * t / 2 = 11 / 10 * (u * v) + u * (t * (W * v)) / 2 + t * W / 2"
    "v / 2 * (u * (21 / 10) + W * t) = 21 / 20 * (u * v) + t * (W * v) / 2"
    "v / 2 * (u * 2 + t) = u * v + t * v / 2"
    by (simp_all add: algebra_simps)
  moreover have "W / 2 * Z = Z * (W / 2)" "W / 2 * (Q * v) = v / 2 * (W * Q)" "v / 2 * d = v * (d / 2)"
    by (simp_all add: algebra_simps)
  ultimately show ?thesis using 1 2 3 by linarith
qed

text \<open>The value of a finite number.\<close>

fun fval :: "fp \<Rightarrow> rat" where
  "fval (FFin s m) = signed s m"
| "fval x = 0"

lemma insideD: "inside e x v \<Longrightarrow> fisfinite x \<and> \<bar>fval x - v\<bar> \<le> e \<and> (\<exists>s m. x = FFin s m \<and> 0 \<le> m)"
  by (cases x) auto

lemma format_errors:
  "rel_error binary64 \<le> rel_error binary32 / 1000" "rel_error binary32 = 1 / 2 ^ 24" "min_error binary64 \<le> min_error binary32"
  "min_error binary32 = 1 / 2 ^ 150"
proof -
  show "min_error binary64 \<le> min_error binary32" by (simp add: min_error_def del: power_int_numeral)
qed (simp_all add: rel_error_def min_error_def power_int_minus)

lemma stickE:
  assumes "stick x"
  obtains s m where "x = FFin s m" "0 \<le> m" "m \<le> 1" "\<bar>fval x\<bar> \<le> 1"
  using assms by (cases x) auto

text \<open>The errors and the range of \<open>float\<close> and \<open>double\<close>.\<close>

lemma float_errors:
  "0 \<le> rel_error binary32" "rel_error binary32 \<le> 1 / 1000" "0 \<le> rel_error binary64" "rel_error binary64 \<le> rel_error binary32 / 1000"
  "0 \<le> min_error binary32" "min_error binary32 \<le> 1 / 1000" "0 \<le> min_error binary64" "min_error binary64 \<le> min_error binary32"
  using format_errors by simp_all

lemma float_range: "q \<le> 2 ^ 120 \<Longrightarrow> q \<le> pow2 (emax binary32)" "q \<le> 2 ^ 120 \<Longrightarrow> q \<le> pow2 (emax binary64)"
  by (simp_all add: order_trans)

lemma mult_bound: "0 \<le> b \<Longrightarrow> \<bar>a\<bar> \<le> A \<Longrightarrow> b \<le> B \<Longrightarrow> A * B \<le> C \<Longrightarrow> \<bar>a * b\<bar> \<le> (C :: rat)"
  using mult_mono [of "\<bar>a\<bar>" A b B] order_trans [OF abs_ge_zero, of a A]
  by (simp add: abs_mult)

lemma error_bound: "\<bar>x - y\<bar> \<le> u * \<bar>y\<bar> + t \<Longrightarrow> 0 \<le> u \<Longrightarrow> u \<le> 1 / 1000 \<Longrightarrow> t \<le> 1 / 1000 \<Longrightarrow> \<bar>y\<bar> \<le> Y \<Longrightarrow>
    \<bar>x\<bar> \<le> 2 * Y + (1 :: rat)"
  using mult_right_mono [of u "1 / 1000" "\<bar>y\<bar>"] by simp

text \<open>The two components of the command, for stick positions \<open>l\<close> and \<open>r\<close>.\<close>

lemma tank_x:
  assumes l: "0 \<le> lm" "lm \<le> 1" and r: "0 \<le> rm" "rm \<le> 1" and v: "0 \<le> v" "v \<le> 2 ^ 100"
  shows "inside (2 * (rel_error binary32 * v) + 2 * (min_error binary32 * v) + min_error binary32)
    (fmul binary64 (fdiv binary64 (fadd binary32 (FFin ls lm) (FFin rs rm)) (dlit 2)) (FFin False v))
    (v * ((signed ls lm + signed rs rm) / 2))"
proof -
  let ?u = "rel_error binary32" and ?t = "min_error binary32" and ?U = "rel_error binary64" and ?T = "min_error binary64"
  let ?s = "signed ls lm + signed rs rm"
  note e = float_errors
  have s: "\<bar>?s\<bar> \<le> 2" using l r by (auto simp: signed_def)
  then obtain ss sm where S: "fadd binary32 (FFin ls lm) (FFin rs rm) = FFin ss sm" "0 \<le> sm"
      "\<bar>signed ss sm - ?s\<bar> \<le> ?u * \<bar>?s\<bar> + ?t"
    using inside_fadd_any [of binary32 ls lm rs rm] float_range(1) [of "\<bar>?s\<bar>"] by (auto elim: insideE)
  let ?S = "signed ss sm"
  have S2: "\<bar>?S\<bar> \<le> 5" using error_bound [OF S(3) e(1,2,6) s] by simp
  then obtain hs hm where H: "fdiv binary64 (FFin ss sm) (FFin False 2) = FFin hs hm" "0 \<le> hm"
      "\<bar>signed hs hm - ?S / 2\<bar> \<le> ?U * \<bar>?S / 2\<bar> + ?T"
    using inside_fdiv_any [of binary64 sm 2 ss False] S(2) float_range(2) [of "\<bar>?S / 2\<bar>"]
    by (auto elim!: insideE simp del: fdiv.simps)
  let ?H = "signed hs hm"
  have "\<bar>?S / 2\<bar> \<le> 3" using S2 by simp
  from error_bound [OF H(3) e(3) _ _ this] e have H2: "\<bar>?H\<bar> \<le> 7" by simp
  have "\<bar>?H * v\<bar> \<le> 2 ^ 120" by (rule mult_bound [OF v(1) H2 v(2)]) simp
  then have "inside (?U * \<bar>?H * v\<bar> + ?T) (fmul binary64 (FFin hs hm) (FFin False v)) (?H * v)"
    using inside_fmul_any [of binary64 hm v hs False] H(2) v(1) float_range(2) by simp
  then obtain xs xm where X: "fmul binary64 (FFin hs hm) (FFin False v) = FFin xs xm" "0 \<le> xm"
      "\<bar>signed xs xm - ?H * v\<bar> \<le> ?U * \<bar>?H * v\<bar> + ?T"
    by (rule insideE)
  show ?thesis
    using tank_forward [OF S(3) s H(3) X(3) v(1) e] X(2) by (simp only: S(1) dlit_2 H(1) X(1) inside.simps)
qed

lemma tank_z:
  assumes l: "0 \<le> lm" "lm \<le> 1" and r: "0 \<le> rm" "rm \<le> 1" and v: "0 \<le> v" "v \<le> 2 ^ 100" and W: "1 / 2 ^ 10 \<le> W"
  obtains zs zm where "fmul binary32 (fdiv binary32 (fsub binary32 (FFin rs rm) (FFin ls lm)) (FFin False W)) (FFin False v) =
      FFin zs zm" "0 \<le> zm"
    "\<bar>signed zs zm * (W / 2) - v * ((signed rs rm - signed ls lm) / 2)\<bar> \<le>
      4 * (rel_error binary32 * v) + min_error binary32 * v + min_error binary32 * (W * v) + min_error binary32 * W"
proof -
  let ?u = "rel_error binary32" and ?t = "min_error binary32"
  let ?d = "signed rs rm - signed ls lm"
  note e = float_errors
  have W0: "0 < W" using W by (rule less_le_trans [rotated]) simp
  have d: "\<bar>?d\<bar> \<le> 2" and sub: "signed rs rm + signed (\<not> ls) lm = ?d" using l r by (auto simp: signed_def)
  then obtain ds dm where D: "fsub binary32 (FFin rs rm) (FFin ls lm) = FFin ds dm" "0 \<le> dm"
      "\<bar>signed ds dm - ?d\<bar> \<le> ?u * \<bar>?d\<bar> + ?t"
    using inside_fadd_any [of binary32 rs rm "\<not> ls" lm] float_range(1) [of "\<bar>?d\<bar>"]
    by (auto elim!: insideE simp: fsub_def simp del: fadd.simps)
  let ?D = "signed ds dm"
  have D2: "\<bar>?D\<bar> \<le> 5" using error_bound [OF D(3) e(1,2,6) d] by simp
  have "1 / W \<le> 2 ^ 10" using W W0 by (simp add: field_simps)
  then have "\<bar>?D * (1 / W)\<bar> \<le> 2 ^ 13" using D2 W0 by (intro mult_bound [where A = 5 and B = "2 ^ 10"]) simp_all
  then have DW: "\<bar>?D / W\<bar> \<le> 2 ^ 13" by simp
  then have "inside (?u * \<bar>?D / W\<bar> + ?t) (fdiv binary32 (FFin ds dm) (FFin False W)) (?D / W)"
    using inside_fdiv_any [of binary32 dm W ds False] D(2) W0 float_range(1) [of "\<bar>?D / W\<bar>"] by simp
  then obtain qs qm where Q: "fdiv binary32 (FFin ds dm) (FFin False W) = FFin qs qm" "0 \<le> qm"
      "\<bar>signed qs qm - ?D / W\<bar> \<le> ?u * \<bar>?D / W\<bar> + ?t"
    by (rule insideE)
  let ?Q = "signed qs qm"
  have Q2: "\<bar>?Q\<bar> \<le> 2 ^ 15" using error_bound [OF Q(3) e(1,2,6) DW] by simp
  have "\<bar>?Q * v\<bar> \<le> 2 ^ 120" by (rule mult_bound [OF v(1) Q2 v(2)]) simp
  then have "inside (?u * \<bar>?Q * v\<bar> + ?t) (fmul binary32 (FFin qs qm) (FFin False v)) (?Q * v)"
    using inside_fmul_any [of binary32 qm v qs False] Q(2) v(1) float_range(1) by simp
  then obtain zs zm where Z: "fmul binary32 (FFin qs qm) (FFin False v) = FFin zs zm" "0 \<le> zm"
      "\<bar>signed zs zm - ?Q * v\<bar> \<le> ?u * \<bar>?Q * v\<bar> + ?t"
    by (rule insideE)
  show ?thesis
    by (rule that [OF _ Z(2) tank_turn [OF D(3) d Q(3) Z(3) v(1) W0 e(1,2,5,6)]]) (simp only: D(1) Q(1) Z(1))
qed

subsection \<open>The two sides\<close>

text \<open>Together: half the sum and half the difference of the sticks give each of them back.\<close>

lemma tank_errors:
  assumes "0 \<le> v" "0 \<le> W" "W \<le> 2 ^ 10"
  shows "2 * (rel_error binary32 * v) + 2 * (min_error binary32 * v) + min_error binary32 +
      (4 * (rel_error binary32 * v) + min_error binary32 * v + min_error binary32 * (W * v) + min_error binary32 * W) \<le>
    v / 2 ^ 21 + 1 / 2 ^ 139"
proof -
  have "W * v \<le> 2 ^ 10 * v" using assms by (intro mult_right_mono) simp_all
  then show ?thesis using assms by (simp add: format_errors(2,4))
qed

lemma average_minus_half_difference: "v * ((a + b) / 2) - v * ((b - a) / 2) = v * a"
  "v * ((a + b) / 2) + v * ((b - a) / 2) = v * (b :: rat)"
  by (simp_all add: field_simps)

lemma sides_bound:
  fixes x z :: rat
  assumes "\<bar>x - p\<bar> \<le> a" "\<bar>z - m\<bar> \<le> b" "a + b \<le> e" "p - m = l" "p + m = r"
  shows "\<bar>(x - z) - l\<bar> \<le> e" "\<bar>(x + z) - r\<bar> \<le> e"
  using assms by linarith+

text \<open>
  C31: With the safety button pressed, sticks between -1 and 1, a maximum speed \<open>v\<close> and a track width
  \<open>W\<close> of 2^-10 to 2^10, the command is a tank drive: a differential base of that track width that
  follows it moves its left side at \<open>v\<close> times the left stick and its right side at \<open>v\<close> times the
  right stick, up to a rounding error of at most v / 2^21 + 2^-139, although the forward part is
  computed in \<open>double\<close> and the turning part in \<open>float\<close>.
\<close>

theorem teleop_drives_each_side_by_its_stick:
  assumes cb: "topic_callback n msg = Done t" and safe: "buttons msg ! nat (safetyButtonId n) \<noteq> 0"
    and sticks: "\<forall>a \<in> set (axes msg). stick a"
    and v: "maxVel n = FFin False v" "0 \<le> v" "v \<le> 2 ^ 100"
    and W: "trackWidth n = FFin False W" "1 / 2 ^ 10 \<le> W" "W \<le> 2 ^ 10"
  shows "fisfinite (linear_x t) \<and> fisfinite (angular_z t) \<and>
    \<bar>(fval (linear_x t) - fval (angular_z t) * (W / 2)) - v * fval (axes msg ! nat (leftAxisId n))\<bar> \<le> v / 2 ^ 21 + 1 / 2 ^ 139 \<and>
    \<bar>(fval (linear_x t) + fval (angular_z t) * (W / 2)) - v * fval (axes msg ! nat (rightAxisId n))\<bar> \<le> v / 2 ^ 21 + 1 / 2 ^ 139"
proof -
  let ?l = "axes msg ! nat (leftAxisId n)" and ?r = "axes msg ! nat (rightAxisId n)"
  have ids: "index_ok (leftAxisId n) (axes msg)" "index_ok (rightAxisId n) (axes msg)"
      "index_ok (safetyButtonId n) (buttons msg)"
    using cb by (auto simp: topic_callback_def and_then_Done_iff vec_at_int_def index_ok_def vec_at_def
        split: if_splits)
  then have "stick ?l" "stick ?r" using sticks by (simp_all add: index_ok_def)
  then obtain ls lm rs rm where l: "?l = FFin ls lm" "0 \<le> lm" "lm \<le> 1" and r: "?r = FFin rs rm" "0 \<le> rm" "rm \<le> 1"
    by (elim stickE) blast
  have x: "linear_x t = fmul binary64 (fdiv binary64 (fadd binary32 ?l ?r) (dlit 2)) (FFin False v)"
    and z: "angular_z t = fmul binary32 (fdiv binary32 (fsub binary32 ?r ?l) (FFin False W)) (FFin False v)"
    using cb ids safe by (auto simp: topic_callback_def Let_def v W)
  let ?E = "v / 2 ^ 21 + 1 / 2 ^ 139 :: rat"
  obtain xs xm where X: "linear_x t = FFin xs xm" "\<bar>signed xs xm - v * ((signed ls lm + signed rs rm) / 2)\<bar> \<le>
      2 * (rel_error binary32 * v) + 2 * (min_error binary32 * v) + min_error binary32"
    using tank_x [OF l(2,3) r(2,3) v(2,3), of ls rs] unfolding x l(1) r(1) by (rule insideE) blast
  obtain zs zm where Z: "angular_z t = FFin zs zm"
      "\<bar>signed zs zm * (W / 2) - v * ((signed rs rm - signed ls lm) / 2)\<bar> \<le>
       4 * (rel_error binary32 * v) + min_error binary32 * v + min_error binary32 * (W * v) + min_error binary32 * W"
    using tank_z [OF l(2,3) r(2,3) v(2,3) W(2), of rs ls] unfolding z l(1) r(1) by blast
  have "0 \<le> W" using W(2) by (rule order_trans [rotated]) simp
  then have "\<bar>(signed xs xm - signed zs zm * (W / 2)) - v * signed ls lm\<bar> \<le> ?E"
    "\<bar>(signed xs xm + signed zs zm * (W / 2)) - v * signed rs rm\<bar> \<le> ?E"
    by (rule sides_bound [OF X(2) Z(2) tank_errors [OF v(2) _ W(3)] average_minus_half_difference])+
  then show ?thesis unfolding X(1) Z(1) l(1) r(1) by simp
qed

lemma sample_width: "\<exists>W. trackWidth sample_teleop = FFin False W \<and> 1 / 2 ^ 10 \<le> W \<and> W \<le> 2 ^ 10"
proof -
  have "fconv binary32 (dlit (67 / 100)) = FFin False (11240735 / 2 ^ 24)" by code_simp
  then show ?thesis
    by (intro exI [of _ "11240735 / 2 ^ 24"]) (simp add: sample_teleop_def new_JoyTankDrive_def)
qed

lemma teleop_drives_each_side_by_its_stick_witness:
  "\<exists>t W. topic_callback sample_teleop (sample_joy 1) = Done t \<and>
    \<bar>fval (linear_x t) - fval (angular_z t) * (W / 2) - 2\<bar> \<le> 1 / 2 ^ 19 \<and>
    \<bar>fval (linear_x t) + fval (angular_z t) * (W / 2) + 1\<bar> \<le> 1 / 2 ^ 19"
proof -
  obtain t where t: "topic_callback sample_teleop (sample_joy 1) = Done t" using sample_command by blast
  obtain W where W: "trackWidth sample_teleop = FFin False W" "1 / 2 ^ 10 \<le> W" "W \<le> 2 ^ 10"
    using sample_width by blast
  have ids: "leftAxisId sample_teleop = 0" "rightAxisId sample_teleop = 2" "safetyButtonId sample_teleop = 5"
    by (simp_all add: sample_teleop_def new_JoyTankDrive_def)
  show ?thesis
    using teleop_drives_each_side_by_its_stick [OF t _ _ sample_teleop(1) _ _ W] t
    by (intro exI [of _ t] exI [of _ W]) (auto simp: ids sample_joy_def fzero_def signed_def)
qed

end
