(* ===== verification/Planner.thy ===== *)
theory Planner
  imports Rounding Prelude
begin

section \<open>The straight-line planner\<close>

text \<open>
  \<open>navigation/straight_line_planner.hpp\<close> and \<open>straight_line_planner.cpp\<close>: the planner plugin of Nav2.
  The clock is an input (the \<open>n\<close>-th call of \<open>now\<close> returns \<open>clock n\<close>) and so is \<open>std::hypot\<close>, whose
  last digits depend on the library. The conversion of a \<open>double\<close> to \<open>int\<close> is undefined when the
  truncated value is no \<open>int\<close>. The pointers to the node, the transform buffer and the costmap are
  only passed on or used for log messages.
\<close>

record pose_stamped =
  ps_stamp :: int
  ps_frame :: string
  ps_x :: fp
  ps_y :: fp
  ps_z :: fp
  ps_qx :: fp
  ps_qy :: fp
  ps_qz :: fp
  ps_qw :: fp

record path =
  path_stamp :: int
  path_frame :: string
  path_poses :: "pose_stamped list"

definition empty_path :: path where
  "empty_path = \<lparr>path_stamp = 0, path_frame = [], path_poses = []\<rparr>"

record StraightLine =
  sl_name :: string
  sl_global_frame :: string
  sl_interpolation_resolution :: fp

text \<open>\<open>configure\<close>: the parameter \<open>name.interpolation\_resolution\<close>, 0.1 when it was not declared before.\<close>

definition planner_configure :: "string \<Rightarrow> string \<Rightarrow> (string \<Rightarrow> fp option) \<Rightarrow> StraightLine" where
  "planner_configure name global_frame params = \<lparr>sl_name = name, sl_global_frame = global_frame,
     sl_interpolation_resolution = (case params (name @ ''.interpolation_resolution'') of
       None \<Rightarrow> dlit (1 / 10) | Some r \<Rightarrow> r)\<rparr>"

definition interpolated_pose :: "StraightLine \<Rightarrow> pose_stamped \<Rightarrow> fp \<Rightarrow> fp \<Rightarrow> int \<Rightarrow> int \<Rightarrow> pose_stamped" where
  "interpolated_pose p start x_increment y_increment i now = \<lparr>
     ps_stamp = now, ps_frame = sl_global_frame p,
     ps_x = fadd binary64 (ps_x start) (fmul binary64 x_increment (fof_int binary64 i)),
     ps_y = fadd binary64 (ps_y start) (fmul binary64 y_increment (fof_int binary64 i)),
     ps_z = fzero, ps_qx = fzero, ps_qy = fzero, ps_qz = fzero, ps_qw = dlit 1\<rparr>"

definition number_of_loops :: "(fp \<Rightarrow> fp \<Rightarrow> fp) \<Rightarrow> StraightLine \<Rightarrow> pose_stamped \<Rightarrow> pose_stamped \<Rightarrow> int outcome" where
  "number_of_loops hypot p start goal = ftrunc_int32 (fdiv binary64
     (hypot (fsub binary64 (ps_x goal) (ps_x start)) (fsub binary64 (ps_y goal) (ps_y start)))
     (sl_interpolation_resolution p))"

definition createPlan ::
  "(fp \<Rightarrow> fp \<Rightarrow> fp) \<Rightarrow> (nat \<Rightarrow> int) \<Rightarrow> StraightLine \<Rightarrow> pose_stamped \<Rightarrow> pose_stamped \<Rightarrow> path outcome" where
  "createPlan hypot clock p start goal =
     (if ps_frame start \<noteq> sl_global_frame p then Done empty_path
      else if ps_frame goal \<noteq> sl_global_frame p then Done empty_path
      else and_then (number_of_loops hypot p start goal) (\<lambda>total_number_of_loop. let
        x_increment = fdiv binary64 (fsub binary64 (ps_x goal) (ps_x start)) (fof_int binary64 total_number_of_loop);
        y_increment = fdiv binary64 (fsub binary64 (ps_y goal) (ps_y start)) (fof_int binary64 total_number_of_loop);
        n = nat total_number_of_loop;
        poses = map (\<lambda>i. interpolated_pose p start x_increment y_increment (int i) (clock (i + 1))) [0..<n];
        goal_pose = goal\<lparr>ps_stamp := clock (n + 1), ps_frame := sl_global_frame p\<rparr>
      in Done \<lparr>path_stamp = clock 0, path_frame = sl_global_frame p, path_poses = poses @ [goal_pose]\<rparr>))"

text \<open>The lifecycle methods only log.\<close>

definition planner_cleanup :: "StraightLine \<Rightarrow> StraightLine" where "planner_cleanup p = p"

definition planner_activate :: "StraightLine \<Rightarrow> StraightLine" where "planner_activate p = p"

definition planner_deactivate :: "StraightLine \<Rightarrow> StraightLine" where "planner_deactivate p = p"

subsection \<open>The shape of a plan\<close>

text \<open>
  C32: A plan is empty when start or goal is not in the global frame. Otherwise it is undefined
  behaviour exactly when the number of steps is no \<open>int\<close> (as for resolution zero), and else ends with
  the goal, in the global frame, preceded by as many poses as there are steps, each with the
  identity orientation at height zero.
\<close>

theorem planner_plan_ends_at_the_goal:
  "(ps_frame start \<noteq> sl_global_frame p \<or> ps_frame goal \<noteq> sl_global_frame p \<longrightarrow>
      createPlan hypot clock p start goal = Done empty_path) \<and>
   (ps_frame start = sl_global_frame p \<and> ps_frame goal = sl_global_frame p \<longrightarrow>
      (case number_of_loops hypot p start goal of
        Done n \<Rightarrow> \<exists>path poses. createPlan hypot clock p start goal = Done path \<and>
          path_poses path = poses @ [goal\<lparr>ps_stamp := clock (nat n + 1)\<rparr>] \<and> length poses = nat n \<and>
          path_frame path = sl_global_frame p \<and>
          (\<forall>q \<in> set poses. ps_frame q = sl_global_frame p \<and> ps_z q = fzero \<and>
             (ps_qx q, ps_qy q, ps_qz q, ps_qw q) = (fzero, fzero, fzero, FFin False 1))
      | _ \<Rightarrow> createPlan hypot clock p start goal = Undefined))"
proof -
  have one: "dlit 1 = FFin False 1" by code_simp
  have "number_of_loops hypot p start goal = Undefined \<or> (\<exists>n. number_of_loops hypot p start goal = Done n)"
    unfolding number_of_loops_def
    by (cases "fdiv binary64 (hypot (fsub binary64 (ps_x goal) (ps_x start)) (fsub binary64 (ps_y goal) (ps_y start)))
      (sl_interpolation_resolution p)") (auto simp: Let_def)
  then show ?thesis
    by (auto simp: createPlan_def Let_def interpolated_pose_def one)
qed

subsection \<open>Where the points lie\<close>

text \<open>
  C33: Every interpolated point of a plan of \<open>n\<close> steps lies on the segment from start to goal, the
  \<open>i\<close>-th at the fraction \<open>i / n\<close> of it, up to an error of 8 roundings of the coordinates' size that
  does not grow with the number of steps.
\<close>

theorem planner_points_lie_on_the_line:
  assumes "createPlan hypot clock p start goal = Done path" "ps_frame start = sl_global_frame p"
    "ps_frame goal = sl_global_frame p" "number_of_loops hypot p start goal = Done n" "i < nat n"
    and x: "ps_x start = FFin s a" "ps_x goal = FFin t b" "0 \<le> a" "0 \<le> b" "a + b \<le> pow2 1000"
    and y: "ps_y start = FFin s' a'" "ps_y goal = FFin t' b'" "0 \<le> a'" "0 \<le> b'" "a' + b' \<le> pow2 1000"
  shows "inside (8 * unit_roundoff * (a + b) + 8 * 2 ^ 31 * tiny) (ps_x (path_poses path ! i))
      (signed s a + (signed t b - signed s a) * (of_nat i / of_int n)) \<and>
    inside (8 * unit_roundoff * (a' + b') + 8 * 2 ^ 31 * tiny) (ps_y (path_poses path ! i))
      (signed s' a' + (signed t' b' - signed s' a') * (of_nat i / of_int n))"
proof -
  have n: "n < 2 ^ 31" "0 \<le> int i" "int i < n"
    using assms(4,5) by (auto simp: number_of_loops_def elim!: ftrunc_int32.elims split: if_splits simp: Let_def)
  have q: "path_poses path ! i = interpolated_pose p start
      (fdiv binary64 (fsub binary64 (ps_x goal) (ps_x start)) (fof_int binary64 n))
      (fdiv binary64 (fsub binary64 (ps_y goal) (ps_y start)) (fof_int binary64 n)) (int i) (clock (i + 1))"
    using assms(1-5) by (auto simp: createPlan_def Let_def nth_append)
  show ?thesis
    using line_point [OF x(3-5) n(2,3,1), of s t] line_point [OF y(3-5) n(2,3,1), of s' t']
    by (simp add: q interpolated_pose_def x(1,2) y(1,2) del: power_int_numeral inside.simps)
qed

text \<open>A plan of 4 m straight ahead in steps of the default resolution, with a \<open>hypot\<close> that is exact here.\<close>

definition sample_planner :: StraightLine where
  "sample_planner = planner_configure ''GridBased'' ''map'' (\<lambda>_. None)"

definition sample_pose :: "fp \<Rightarrow> pose_stamped" where
  "sample_pose x = \<lparr>ps_stamp = 0, ps_frame = ''map'', ps_x = x, ps_y = fzero, ps_z = fzero, ps_qx = fzero,
     ps_qy = fzero, ps_qz = fzero, ps_qw = FFin False 1\<rparr>"

lemma sample_loops: "number_of_loops (\<lambda>x y. x) sample_planner (sample_pose (FFin False 1)) (sample_pose (FFin False 5)) = Done 40"
  by code_simp

lemma sample_frames: "ps_frame (sample_pose x) = sl_global_frame sample_planner"
  by (simp add: sample_pose_def sample_planner_def planner_configure_def)

lemma planner_plan_ends_at_the_goal_witness:
  "\<exists>path poses. createPlan (\<lambda>x y. x) int sample_planner (sample_pose (FFin False 1)) (sample_pose (FFin False 5)) = Done path \<and>
     path_poses path = poses @ [(sample_pose (FFin False 5))\<lparr>ps_stamp := 41\<rparr>] \<and> length poses = 40"
  using planner_plan_ends_at_the_goal [of "sample_pose (FFin False 1)" sample_planner "sample_pose (FFin False 5)"
      "\<lambda>x y. x" int]
  by (auto simp: sample_loops sample_frames)

lemma planner_points_lie_on_the_line_witness:
  "\<exists>path. createPlan (\<lambda>x y. x) int sample_planner (sample_pose (FFin False 1)) (sample_pose (FFin False 5)) = Done path \<and>
     inside (8 * unit_roundoff * 6 + 8 * 2 ^ 31 * tiny) (ps_x (path_poses path ! 10)) 2"
proof -
  obtain path where c: "createPlan (\<lambda>x y. x) int sample_planner (sample_pose (FFin False 1)) (sample_pose (FFin False 5)) =
      Done path"
    using sample_loops by (simp add: createPlan_def sample_frames Let_def)
  have "(1 :: rat) + 5 \<le> pow2 3" "pow2 3 \<le> pow2 1000" by (simp, simp only: pow2_le_iff)
  then have big: "(1 :: rat) + 5 \<le> pow2 1000" by linarith
  have "(0 :: rat) + 0 \<le> pow2 1000" by simp
  with planner_points_lie_on_the_line [OF c sample_frames sample_frames sample_loops, of 10 False 1 False 5 False 0 False 0] big
  have "inside (8 * unit_roundoff * (1 + 5) + 8 * 2 ^ 31 * tiny) (ps_x (path_poses path ! 10)) (1 + (5 - 1) * (10 / 40))"
    by (simp add: sample_pose_def fzero_def del: power_int_numeral inside.simps)
  then show ?thesis using c by simp
qed

end
