(* ===== verification/Vio_Geometry.thy ===== *)
theory Vio_Geometry
  imports Rounding Prelude
begin

section \<open>Angles and quaternions of the synthetic odometry\<close>

text \<open>
  \<open>zed2i/geometry\_utils.hpp\<close>. The loops of \<open>wrap\_angle\<close> need not end: they are functions to \<open>option\<close>,
  where \<open>None\<close> means that the loop runs forever. The library's trigonometric functions are parameters.
\<close>

definition kPi :: fp where
  "kPi = dlit 3.14159265358979323846"

definition kTwicePi :: fp where
  "kTwicePi = fmul binary64 (dlit 2) kPi"

partial_function (option) wrap_down :: "fp \<Rightarrow> fp option" where
  "wrap_down angle = (if flt kPi angle then wrap_down (fsub binary64 angle kTwicePi) else Some angle)"

partial_function (option) wrap_up :: "fp \<Rightarrow> fp option" where
  "wrap_up angle = (if fle angle (fneg kPi) then wrap_up (fadd binary64 angle kTwicePi) else Some angle)"

declare wrap_down.simps [code] wrap_up.simps [code]

definition wrap_angle :: "fp \<Rightarrow> fp option" where
  "wrap_angle angle = Option.bind (wrap_down angle) wrap_up"

record quaternion =
  q_x :: fp
  q_y :: fp
  q_z :: fp
  q_w :: fp

text \<open>The library functions the node calls.\<close>

record math =
  m_atan2 :: "fp \<Rightarrow> fp \<Rightarrow> fp"
  m_sin :: "fp \<Rightarrow> fp"
  m_cos :: "fp \<Rightarrow> fp"
  m_sqrt :: "fp \<Rightarrow> fp"
  m_hypot :: "fp \<Rightarrow> fp \<Rightarrow> fp"

definition yaw_from_quaternion :: "math \<Rightarrow> quaternion \<Rightarrow> fp" where
  "yaw_from_quaternion lib q = (let mul = fmul binary64; add = fadd binary64; sub = fsub binary64;
     siny_cosp = mul (dlit 2) (add (mul (q_w q) (q_z q)) (mul (q_x q) (q_y q)));
     cosy_cosp = sub (dlit 1) (mul (dlit 2) (add (mul (q_y q) (q_y q)) (mul (q_z q) (q_z q))))
   in m_atan2 lib siny_cosp cosy_cosp)"

text \<open>A default \<open>Quaternion\<close> is the identity, (0, 0, 0, 1).\<close>

definition new_quaternion :: quaternion where
  "new_quaternion = \<lparr>q_x = fzero, q_y = fzero, q_z = fzero, q_w = dlit 1\<rparr>"

definition quaternion_from_yaw :: "math \<Rightarrow> fp \<Rightarrow> quaternion" where
  "quaternion_from_yaw lib yaw = new_quaternion\<lparr>
     q_z := m_sin lib (fmul binary64 yaw (dlit (1 / 2))), q_w := m_cos lib (fmul binary64 yaw (dlit (1 / 2)))\<rparr>"

subsection \<open>Loops that never end\<close>

lemma wrap_down_moves: "wrap_down x = Some y \<Longrightarrow> \<not> flt kPi x \<or> fsub binary64 x kTwicePi \<noteq> x"
  by (erule wrap_down.raw_induct [rotated]) (auto split: if_splits)

lemma wrap_up_moves: "wrap_up x = Some y \<Longrightarrow> \<not> fle x (fneg kPi) \<or> fadd binary64 x kTwicePi \<noteq> x"
  by (erule wrap_up.raw_induct [rotated]) (auto split: if_splits)

lemma wrap_down_fixed: "flt kPi x \<Longrightarrow> fsub binary64 x kTwicePi = x \<Longrightarrow> wrap_down x = None"
  using wrap_down_moves [of x] by (cases "wrap_down x") auto

lemma wrap_up_fixed: "fle x (fneg kPi) \<Longrightarrow> fadd binary64 x kTwicePi = x \<Longrightarrow> wrap_up x = None"
  using wrap_up_moves [of x] by (cases "wrap_up x") auto

definition pi_double :: rat where
  "pi_double = 884279719003555 / 281474976710656"

lemma kPi_value: "kPi = FFin False pi_double"
  by code_simp

lemma kTwicePi_value: "kTwicePi = FFin False (2 * pi_double)"
  by code_simp

lemma pi_double_bounds: "314 / 100 < pi_double" "pi_double < 315 / 100"
  by (simp_all add: pi_double_def)


subsection \<open>Termination and result\<close>

lemma signed_True: "signed True m = - m"
  by (simp add: signed_def)

text \<open>One turn less or more, within one rounding.\<close>

lemma turn_step:
  assumes x: "0 \<le> m" "\<bar>signed s m\<bar> \<le> B" and B: "4 \<le> B" "B \<le> pow2 40"
    and E: "unit_roundoff * B + tiny \<le> E" "E \<le> 1 / 100"
  shows "pi_double < signed s m \<Longrightarrow> \<exists>t r. fsub binary64 (FFin s m) kTwicePi = FFin t r \<and> 0 \<le> r \<and>
      \<bar>signed t r - (signed s m - 2 * pi_double)\<bar> \<le> E \<and> \<bar>signed t r\<bar> \<le> B"
    "signed s m \<le> - pi_double \<Longrightarrow> \<exists>t r. fadd binary64 (FFin s m) kTwicePi = FFin t r \<and> 0 \<le> r \<and>
      \<bar>signed t r - (signed s m + 2 * pi_double)\<bar> \<le> E \<and> \<bar>signed t r\<bar> \<le> B"
proof -
  have big: "B \<le> pow2 1023" using B(2) by (rule order.trans) (simp only: pow2_le_iff)
  have step: "\<exists>t r. fadd binary64 (FFin s m) (FFin u (2 * pi_double)) = FFin t r \<and> 0 \<le> r \<and>
      \<bar>signed t r - (signed s m + signed u (2 * pi_double))\<bar> \<le> E"
    if "\<bar>signed s m + signed u (2 * pi_double)\<bar> \<le> B" for u
  proof -
    have "unit_roundoff * \<bar>signed s m + signed u (2 * pi_double)\<bar> \<le> unit_roundoff * B"
      using that by (rule mult_left_mono) simp
    then have "inside E (fadd binary64 (FFin s m) (FFin u (2 * pi_double))) (signed s m + signed u (2 * pi_double))"
      using inside_fadd [of s m u "2 * pi_double"] that big E(1) by (intro inside_mono [OF inside_fadd]) linarith+
    then show ?thesis by (rule insideE) blast
  qed
  note p = pi_double_bounds
  show "\<exists>t r. fsub binary64 (FFin s m) kTwicePi = FFin t r \<and> 0 \<le> r \<and>
      \<bar>signed t r - (signed s m - 2 * pi_double)\<bar> \<le> E \<and> \<bar>signed t r\<bar> \<le> B" if v: "pi_double < signed s m"
  proof -
    have "\<bar>signed s m + signed True (2 * pi_double)\<bar> \<le> B" 
      using x(2) v B(1) p unfolding signed_True by linarith
    from step [OF this] obtain t r where r: "fsub binary64 (FFin s m) kTwicePi = FFin t r" "0 \<le> r"
        "\<bar>signed t r - (signed s m - 2 * pi_double)\<bar> \<le> E"
      by (auto simp: fsub_def kTwicePi_value signed_def [of True])
    have "\<bar>signed t r\<bar> \<le> B" using r(3) E(2) x(2) v B(1) p by linarith
    with r show ?thesis by blast
  qed
  show "\<exists>t r. fadd binary64 (FFin s m) kTwicePi = FFin t r \<and> 0 \<le> r \<and>
      \<bar>signed t r - (signed s m + 2 * pi_double)\<bar> \<le> E \<and> \<bar>signed t r\<bar> \<le> B" if v: "signed s m \<le> - pi_double"
  proof -
    have "\<bar>signed s m + signed False (2 * pi_double)\<bar> \<le> B" 
      using x(2) v B(1) p unfolding signed_False by linarith
    from step [OF this] obtain t r where r: "fadd binary64 (FFin s m) kTwicePi = FFin t r" "0 \<le> r"
        "\<bar>signed t r - (signed s m + 2 * pi_double)\<bar> \<le> E"
      by (auto simp: kTwicePi_value)
    have "\<bar>signed t r\<bar> \<le> B" using r(3) E(2) x(2) v B(1) p by linarith
    with r show ?thesis by blast
  qed
qed

lemma above_pi: "flt kPi (FFin s m) \<longleftrightarrow> pi_double < signed s m"
  by (simp add: kPi_value)

lemma below_pi: "fle (FFin s m) (fneg kPi) \<longleftrightarrow> signed s m \<le> - pi_double"
  by (auto simp: fle_def kPi_value signed_True)

lemma turn_up_le_pi:
  assumes "signed s m \<le> - pi_double" "fadd binary64 (FFin s m) kTwicePi = FFin t r" "0 \<le> r"
  shows "signed t r \<le> pi_double"
proof -
  define w where "w = signed s m + 2 * pi_double"
  have w: "w \<le> pi_double" using assms(1) by (simp add: w_def)
  have "fadd binary64 (FFin s m) kTwicePi = (if w = 0 then FFin (s \<and> False) 0 else fround binary64 (w < 0) \<bar>w\<bar>)"
    by (simp add: kTwicePi_value w_def Let_def)
  with assms(2) have f: "FFin t r = (if w = 0 then FFin (s \<and> False) 0 else fround binary64 (w < 0) \<bar>w\<bar>)"
    by (simp only:)
  have p: "0 < pi_double" using pi_double_bounds by linarith
  have ok: "fp_ok binary64 (FFin False pi_double)" unfolding kPi_value [symmetric] kPi_def by (rule fp_ok_dlit)
  consider "w = 0" | "w < 0" | "0 < w" by linarith
  then show ?thesis
  proof cases
    case 1
    then show ?thesis using f p by simp
  next
    case 2
    then have "t" using f by (auto simp: fround_def Let_def split: if_splits)
    then show ?thesis using assms(3) p by (simp add: signed_True)
  next
    case 3
    then obtain q where "fround binary64 False w = FFin False q" "0 \<le> q" "q \<le> pi_double"
      using fround_le [of binary64 w pi_double False False] ok w by auto
    then show ?thesis using f 3 by simp
  qed
qed

lemma wrap_down_returns:
  assumes B: "4 \<le> B" "B \<le> pow2 40" and E: "unit_roundoff * B + tiny \<le> E" "E \<le> 1 / 100"
  shows "0 \<le> m \<Longrightarrow> \<bar>signed s m\<bar> \<le> B \<Longrightarrow> signed s m \<le> pi_double + 6 * of_nat n \<Longrightarrow>
    \<exists>t r k. wrap_down (FFin s m) = Some (FFin t r) \<and> 0 \<le> r \<and> signed t r \<le> pi_double \<and> \<bar>signed t r\<bar> \<le> B \<and>
      \<bar>signed t r - (signed s m - of_nat k * (2 * pi_double))\<bar> \<le> of_nat k * E \<and> 6 * of_nat k \<le> signed s m - signed t r"
proof (induction n arbitrary: s m)
  case 0
  then show ?case
    by (subst wrap_down.simps) (auto simp: above_pi intro!: exI [of _ 0] exI [of _ s] exI [of _ m])
next
  case (Suc n)
  show ?case
  proof (cases "pi_double < signed s m")
    case False
    then show ?thesis
      using Suc.prems by (subst wrap_down.simps) (auto simp: above_pi intro!: exI [of _ 0] exI [of _ s] exI [of _ m])
  next
    case True
    obtain u v where v: "fsub binary64 (FFin s m) kTwicePi = FFin u v" "0 \<le> v"
        "\<bar>signed u v - (signed s m - 2 * pi_double)\<bar> \<le> E" "\<bar>signed u v\<bar> \<le> B"
      using turn_step(1) [OF Suc.prems(1,2) B E True] by blast
    have drop: "signed u v \<le> signed s m - 6" using v(3) E(2) pi_double_bounds by linarith
    then have "signed u v \<le> pi_double + 6 * of_nat n" using Suc.prems(3) by simp
    then obtain t r k where r: "wrap_down (FFin u v) = Some (FFin t r)" "0 \<le> r" "signed t r \<le> pi_double"
        "\<bar>signed t r\<bar> \<le> B" "\<bar>signed t r - (signed u v - of_nat k * (2 * pi_double))\<bar> \<le> of_nat k * E"
        "6 * of_nat k \<le> signed u v - signed t r"
      using Suc.IH [OF v(2,4)] by blast
    have "wrap_down (FFin s m) = Some (FFin t r)"
      using True r(1) by (subst wrap_down.simps) (simp add: above_pi v(1))
    moreover have "of_nat (Suc k) * (2 * pi_double) = of_nat k * (2 * pi_double) + 2 * pi_double"
      "of_nat (Suc k) * E = of_nat k * E + E" "6 * of_nat (Suc k) = 6 * of_nat k + (6 :: rat)"
      by (simp_all add: algebra_simps)
    then have "\<bar>signed t r - (signed s m - of_nat (Suc k) * (2 * pi_double))\<bar> \<le> of_nat (Suc k) * E"
      "6 * of_nat (Suc k) \<le> signed s m - signed t r"
      using r(5,6) v(3) drop by linarith+
    ultimately show ?thesis using r(2-4) by blast
  qed
qed

lemma wrap_up_returns:
  assumes B: "4 \<le> B" "B \<le> pow2 40" and E: "unit_roundoff * B + tiny \<le> E" "E \<le> 1 / 100"
  shows "0 \<le> m \<Longrightarrow> \<bar>signed s m\<bar> \<le> B \<Longrightarrow> signed s m \<le> pi_double \<Longrightarrow> - pi_double < signed s m + 6 * of_nat n \<Longrightarrow>
    \<exists>t r k. wrap_up (FFin s m) = Some (FFin t r) \<and> 0 \<le> r \<and> signed t r \<le> pi_double \<and> - pi_double < signed t r \<and>
      \<bar>signed t r - (signed s m + of_nat k * (2 * pi_double))\<bar> \<le> of_nat k * E \<and> 6 * of_nat k \<le> signed t r - signed s m"
proof (induction n arbitrary: s m)
  case 0
  then show ?case
    by (subst wrap_up.simps) (auto simp: below_pi intro!: exI [of _ 0] exI [of _ s] exI [of _ m])
next
  case (Suc n)
  show ?case
  proof (cases "signed s m \<le> - pi_double")
    case False
    then show ?thesis
      using Suc.prems by (subst wrap_up.simps) (auto simp: below_pi intro!: exI [of _ 0] exI [of _ s] exI [of _ m])
  next
    case True
    obtain u v where v: "fadd binary64 (FFin s m) kTwicePi = FFin u v" "0 \<le> v"
        "\<bar>signed u v - (signed s m + 2 * pi_double)\<bar> \<le> E" "\<bar>signed u v\<bar> \<le> B"
      using turn_step(2) [OF Suc.prems(1,2) B E True] by blast
    have rise: "signed s m + 6 \<le> signed u v" using v(3) E(2) pi_double_bounds by linarith
    then have "- pi_double < signed u v + 6 * of_nat n" using Suc.prems(4) by simp
    then obtain t r k where r: "wrap_up (FFin u v) = Some (FFin t r)" "0 \<le> r" "signed t r \<le> pi_double"
        "- pi_double < signed t r" "\<bar>signed t r - (signed u v + of_nat k * (2 * pi_double))\<bar> \<le> of_nat k * E"
        "6 * of_nat k \<le> signed t r - signed u v"
      using Suc.IH [OF v(2,4) turn_up_le_pi [OF True v(1,2)]] by blast
    have "wrap_up (FFin s m) = Some (FFin t r)"
      using True r(1) by (subst wrap_up.simps) (simp add: below_pi v(1))
    moreover have "of_nat (Suc k) * (2 * pi_double) = of_nat k * (2 * pi_double) + 2 * pi_double"
      "of_nat (Suc k) * E = of_nat k * E + E" "6 * of_nat (Suc k) = 6 * of_nat k + (6 :: rat)"
      by (simp_all add: algebra_simps)
    then have "\<bar>signed t r - (signed s m + of_nat (Suc k) * (2 * pi_double))\<bar> \<le> of_nat (Suc k) * E"
      "6 * of_nat (Suc k) \<le> signed t r - signed s m"
      using r(5,6) v(3) rise by linarith+
    ultimately show ?thesis using r(2-4) by blast
  qed
qed

lemma turn_bounds:
  assumes "0 \<le> m" "m \<le> pow2 30"
  shows "4 \<le> m + 4" "m + 4 \<le> pow2 40" "unit_roundoff * (m + 4) + tiny \<le> 1 / 100"
proof -
  have "m + 4 \<le> pow2 30 + pow2 2" using assms(2) by simp
  also have b31: "\<dots> \<le> pow2 31" by simp
  finally have B31: "m + 4 \<le> pow2 31" .
  have "pow2 31 \<le> pow2 40" by (simp only: pow2_le_iff)
  with B31 show "4 \<le> m + 4" "m + 4 \<le> pow2 40" using assms(1) by (simp_all only: order.trans le_add_same_cancel2)
  have "unit_roundoff * (m + 4) \<le> unit_roundoff * pow2 31" using B31 by (rule mult_left_mono) simp
  also have "\<dots> = pow2 (- 22)" unfolding unit_roundoff_def pow2_add [symmetric] by (rule arg_cong [where f = pow2]) simp
  finally have "unit_roundoff * (m + 4) \<le> 1 / 1000" by (simp add: power_int_minus)
  moreover have "tiny \<le> 1 / 1000"
  proof -
    have "tiny \<le> pow2 (- 10)" unfolding tiny_def by (simp only: pow2_le_iff)
    then show ?thesis by (simp add: power_int_minus)
  qed
  ultimately show "unit_roundoff * (m + 4) + tiny \<le> 1 / 100" by linarith
qed

lemma wrap_angle_turns:
  assumes "0 \<le> m" "m \<le> pow2 30"
  shows "\<exists>t r k n. wrap_angle (FFin s m) = Some (FFin t r) \<and> 0 \<le> r \<and> - pi_double < signed t r \<and> signed t r \<le> pi_double \<and>
    \<bar>signed t r - (signed s m - of_int k * (2 * pi_double))\<bar> \<le> of_nat n * (unit_roundoff * (m + 4) + tiny) \<and>
    of_nat n \<le> m + 4"
proof -
  let ?B = "m + 4" and ?E = "unit_roundoff * (m + 4) + tiny"
  note B = turn_bounds(1,2) [OF assms] and E = order_refl [of ?E] turn_bounds(3) [OF assms]
  have v: "\<bar>signed s m\<bar> \<le> ?B" using assms(1) by simp
  obtain n :: nat where n: "signed s m < of_nat n" using reals_Archimedean2 by blast
  have "signed s m \<le> pi_double + 6 * of_nat n" using n pi_double_bounds by linarith
  then obtain t r k where d: "wrap_down (FFin s m) = Some (FFin t r)" "0 \<le> r" "signed t r \<le> pi_double"
      "\<bar>signed t r\<bar> \<le> ?B" "\<bar>signed t r - (signed s m - of_nat k * (2 * pi_double))\<bar> \<le> of_nat k * ?E"
      "6 * of_nat k \<le> signed s m - signed t r"
    using wrap_down_returns [OF B E assms(1) v] by blast
  obtain n' :: nat where n': "- signed t r < of_nat n'" using reals_Archimedean2 by blast
  have "- pi_double < signed t r + 6 * of_nat n'" using n' pi_double_bounds by linarith
  then obtain t' r' k' where u: "wrap_up (FFin t r) = Some (FFin t' r')" "0 \<le> r'" "signed t' r' \<le> pi_double"
      "- pi_double < signed t' r'" "\<bar>signed t' r' - (signed t r + of_nat k' * (2 * pi_double))\<bar> \<le> of_nat k' * ?E"
      "6 * of_nat k' \<le> signed t' r' - signed t r"
    using wrap_up_returns [OF B E d(2,4,3)] by blast
  have "wrap_angle (FFin s m) = Some (FFin t' r')" by (simp add: wrap_angle_def d(1) u(1))
  moreover have "\<bar>signed t' r' - (signed s m - of_int (int k - int k') * (2 * pi_double))\<bar> \<le> of_nat (k + k') * ?E"
  proof -
    have "of_int (int k - int k') * (2 * pi_double) = of_nat k * (2 * pi_double) - of_nat k' * (2 * pi_double)"
      "of_nat (k + k') * ?E = of_nat k * ?E + of_nat k' * ?E" by (simp_all add: algebra_simps)
    then show ?thesis using d(5) u(5) by linarith
  qed
  moreover have "of_nat (k + k') \<le> ?B"
  proof -
    have "\<bar>signed s m\<bar> = m" using assms(1) by simp
    then show ?thesis
      unfolding of_nat_add using d(6,3,4) u(6,3) pi_double_bounds assms(1) by linarith
  qed
  ultimately show ?thesis using u(2-4) by blast
qed

text \<open>
  C35: \<open>wrap\_angle\<close> returns for every angle of at most 2^30 rad, with a number above -pi and at most pi
  that differs from the angle by a whole number of turns, up to one rounding of the angle's size per
  turn.
\<close>

theorem wrap_angle_returns_the_angle:
  assumes "0 \<le> m" "m \<le> pow2 30"
  shows "\<exists>t r k n. wrap_angle (FFin s m) = Some (FFin t r) \<and> - pi_double < signed t r \<and> signed t r \<le> pi_double \<and>
    \<bar>signed t r - (signed s m - of_int k * (2 * pi_double))\<bar> \<le> of_nat n * (unit_roundoff * (m + 4) + tiny) \<and>
    of_nat n \<le> m + 4"
  using wrap_angle_turns [OF assms] by blast

lemma wrap_angle_returns_the_angle_witness:
  "\<exists>t r. wrap_angle (FFin True 1000) = Some (FFin t r) \<and> - pi_double < signed t r \<and> signed t r \<le> pi_double"
  using wrap_angle_returns_the_angle [of 1000 True] by auto

end
