(* ===== verification/Vio_Seeds.thy ===== *)
theory Vio_Seeds
  imports Prelude "HOL-Library.Char_ord"
begin

section \<open>The random streams of the synthetic odometry\<close>

text \<open>
  \<open>fnv1a\<close> and \<open>stream\_seed\<close> of \<open>synthetic\_vio\_node.cpp\<close>: 64-bit arithmetic that wraps. The lemmas
  show the finalizer to be a bijection, with its inverse.
\<close>

definition fnv1a :: "string \<Rightarrow> u64" where
  "fnv1a text = fold (\<lambda>character value. (value XOR of_nat (of_char character)) * 1099511628211) text 14695981039346656037"

definition stream_seed :: "u64 \<Rightarrow> string \<Rightarrow> u64" where
  "stream_seed seed name = (let
     value = seed XOR (fnv1a name + 0x9e3779b97f4a7c15);
     value = (value XOR drop_bit 30 value) * 0xbf58476d1ce4e5b9;
     value = (value XOR drop_bit 27 value) * 0x94d049bb133111eb
   in value XOR drop_bit 31 value)"

lemma xorshift_inj:
  fixes x y :: u64
  assumes "x XOR drop_bit n x = y XOR drop_bit n y" "0 < n"
  shows "x = y"
proof (rule bit_word_eqI)
  fix i :: nat
  have b: "bit x i \<longleftrightarrow> bit y i" if "64 - k \<le> i" for i k
    using that
  proof (induction k arbitrary: i rule: less_induct)
    case (less k)
    have e: "bit x i \<noteq> bit x (n + i) \<longleftrightarrow> bit y i \<noteq> bit y (n + i)"
      using arg_cong [OF assms(1), of "\<lambda>w. bit w i"] by (simp add: bit_simps)
    show ?case
    proof (cases "64 \<le> n + i")
      case True
      then have "\<not> bit x (n + i)" "\<not> bit y (n + i)" using bit_imp_le_length by fastforce+
      then show ?thesis using e by simp
    next
      case False
      then have "64 - (64 - (n + i)) \<le> n + i" "64 - (n + i) < k" using less.prems assms(2) by linarith+
      then have "bit x (n + i) \<longleftrightarrow> bit y (n + i)" using less.IH by blast
      then show ?thesis using e by blast
    qed
  qed
  show "bit x i \<longleftrightarrow> bit y i" using b [of 64 i] by simp
qed

lemma times_odd_inj:
  fixes c d x y :: u64
  assumes "c * d = 1" "x * c = y * c"
  shows "x = y"
proof -
  have "x * (c * d) = y * (c * d)" using assms(2) by (simp flip: mult.assoc)
  then show ?thesis using assms(1) by simp
qed

text \<open>One round of the finalizer.\<close>

definition mix :: "nat \<Rightarrow> u64 \<Rightarrow> u64 \<Rightarrow> u64" where
  "mix n c v = (v XOR drop_bit n v) * c"

lemma mix_inj: "mix n c x = mix n c y \<Longrightarrow> c * d = 1 \<Longrightarrow> 0 < n \<Longrightarrow> x = y"
  unfolding mix_def using times_odd_inj xorshift_inj by blast

lemma stream_seed_mix:
  "stream_seed s a = (let v = mix 27 0x94d049bb133111eb (mix 30 0xbf58476d1ce4e5b9 (s XOR (fnv1a a + 0x9e3779b97f4a7c15)))
     in v XOR drop_bit 31 v)"
  by (simp only: stream_seed_def mix_def Let_def)

lemma xor_cancel: "(a XOR b :: u64) = a XOR c \<longleftrightarrow> b = c" "(b XOR a :: u64) = c XOR a \<longleftrightarrow> b = c"
proof -
  have l: "b = c" if "(a XOR b :: u64) = a XOR c" for a b c
    using arg_cong [OF that, of "\<lambda>w. a XOR w"] by (simp flip: xor.assoc)
  show "(a XOR b :: u64) = a XOR c \<longleftrightarrow> b = c" "(b XOR a :: u64) = c XOR a \<longleftrightarrow> b = c"
    using l [of a b c] by (auto simp: xor.commute)
qed

lemma stream_seed_eq_iff:
  "stream_seed s a = stream_seed t b \<longleftrightarrow> s XOR (fnv1a a + 0x9e3779b97f4a7c15) = t XOR (fnv1a b + 0x9e3779b97f4a7c15)"
    (is "_ \<longleftrightarrow> ?x = ?y")
proof
  have i1: "(0xbf58476d1ce4e5b9 :: u64) * 0x96de1b173f119089 = 1" by code_simp
  have i2: "(0x94d049bb133111eb :: u64) * 0x319642b2d24d8ec3 = 1" by code_simp
  assume "stream_seed s a = stream_seed t b"
  then have "mix 27 0x94d049bb133111eb (mix 30 0xbf58476d1ce4e5b9 ?x) = mix 27 0x94d049bb133111eb (mix 30 0xbf58476d1ce4e5b9 ?y)"
    unfolding stream_seed_mix Let_def by (rule xorshift_inj) simp
  then have "mix 30 0xbf58476d1ce4e5b9 ?x = mix 30 0xbf58476d1ce4e5b9 ?y" by (rule mix_inj [OF _ i2]) simp
  then show "?x = ?y" by (rule mix_inj [OF _ i1]) simp
qed (simp only: stream_seed_mix)

text \<open>
  C40: The four random streams of a run are never seeded alike, whatever the seed; and different seeds
  give each stream a different seed.
\<close>

theorem vio_streams_are_seeded_apart:
  "distinct (map (stream_seed seed) [''white_noise'', ''drift'', ''faults'', ''profile'']) \<and> inj (\<lambda>seed. stream_seed seed name)"
proof -
  have "fnv1a ''white_noise'' = 0xee811db42de6f7" "fnv1a ''drift'' = 0x5ab3f9c9341f6c04" "fnv1a ''faults'' = 0x8f7d6133a7f61844" "fnv1a ''profile'' = 0x8add349e618ba10e" by code_simp+
  then show ?thesis by (auto simp: stream_seed_eq_iff xor_cancel inj_def)
qed

end
