(* ===== verification/Vio_Node.thy ===== *)
theory Vio_Node
  imports Vio_Geometry Vio_Seeds
begin

section \<open>The synthetic visual odometry\<close>

text \<open>
  \<open>synthetic\_vio\_node.cpp\<close>: the parameters and their validation, the choice of the noise model, the
  callback that turns a true pose into a noisy measurement, and the queue that delays it. The random
  engines and distributions of the standard library are a parameter (what they draw depends on the
  library), and so are the mathematical functions and the seconds of a duration. Times are in
  nanoseconds. A callback is \<open>None\<close> when \<open>wrap\_angle\<close> does not return.
\<close>

subsection \<open>Parameters\<close>

record NoiseModel =
  position_noise_std :: fp
  yaw_noise_std :: fp
  position_drift_rw_std :: fp
  yaw_drift_rw_std :: fp
  translation_scale_std :: fp
  yaw_scale_std :: fp
  dropout_probability :: fp
  outlier_probability :: fp
  outlier_position_std :: fp
  outlier_yaw_std :: fp
  latency_ms :: int
  reported_covariance_scale :: fp

record vio_parameters =
  truth_topic :: string
  vio_topic :: string
  output_frame_id :: string
  child_frame_id :: string
  profile :: string
  nominal_model :: NoiseModel
  validation_min_multiplier :: fp
  validation_max_multiplier :: fp
  stress_min_multiplier :: fp
  stress_max_multiplier :: fp
  stress_dropout_probability :: fp
  stress_outlier_probability :: fp
  stress_latency_ms :: int
  stress_reported_covariance_scale :: fp

definition default_NoiseModel :: NoiseModel where
  "default_NoiseModel = \<lparr>position_noise_std = dlit 0.03, yaw_noise_std = dlit 0.02, position_drift_rw_std = dlit 0.003,
     yaw_drift_rw_std = dlit 0.003, translation_scale_std = dlit 0.005, yaw_scale_std = dlit 0.005,
     dropout_probability = dlit 0, outlier_probability = dlit 0, outlier_position_std = dlit 0.5,
     outlier_yaw_std = dlit 0.35, latency_ms = 0, reported_covariance_scale = dlit 1\<rparr>"

definition default_params :: vio_parameters where
  "default_params = \<lparr>truth_topic = ''/gz/odom'', vio_topic = ''/sim/zed/vio/odom'', output_frame_id = ''odom'',
     child_frame_id = ''base_link'', profile = ''calibration'', nominal_model = default_NoiseModel,
     validation_min_multiplier = dlit 0.5, validation_max_multiplier = dlit 2, stress_min_multiplier = dlit 2,
     stress_max_multiplier = dlit 5, stress_dropout_probability = dlit 0.05, stress_outlier_probability = dlit 0.01,
     stress_latency_ms = 150, stress_reported_covariance_scale = dlit 0.7\<rparr>"

definition validate_parameters :: "vio_parameters \<Rightarrow> int \<Rightarrow> unit outcome" where
  "validate_parameters p requested_seed =
     (if profile p \<noteq> ''calibration'' \<and> profile p \<noteq> ''nominal'' \<and> profile p \<noteq> ''validation'' \<and> profile p \<noteq> ''stress''
      then Thrown ''std::invalid_argument''
      else if requested_seed < - 1 then Thrown ''std::invalid_argument''
      else if fle (validation_min_multiplier p) fzero \<or> flt (validation_max_multiplier p) (validation_min_multiplier p) \<or>
        fle (stress_min_multiplier p) fzero \<or> flt (stress_max_multiplier p) (stress_min_multiplier p)
      then Thrown ''std::invalid_argument''
      else if list_ex (\<lambda>x. flt x fzero \<or> flt (dlit 1) x)
        [dropout_probability (nominal_model p), outlier_probability (nominal_model p), stress_dropout_probability p,
         stress_outlier_probability p]
      then Thrown ''std::invalid_argument''
      else if latency_ms (nominal_model p) < 0 \<or> stress_latency_ms p < 0 then Thrown ''std::invalid_argument''
      else Done ())"

text \<open>The two numbers are what the random device returns.\<close>

definition resolve_seed :: "u32 \<Rightarrow> u32 \<Rightarrow> int \<Rightarrow> u64" where
  "resolve_seed r1 r2 requested_seed = (if 0 \<le> requested_seed then word_of_int requested_seed
     else push_bit 32 (ucast r1) XOR ucast r2)"

subsection \<open>The node\<close>

text \<open>
  Engines have states \<open>'r\<close>; a normal distribution has a state \<open>'d\<close> of its own, because it may keep half
  of a pair of numbers for its next call.
\<close>

record ('r, 'd) random_lib =
  engine :: "u64 \<Rightarrow> 'r"
  new_normal :: "'d"
  normal_draw :: "fp \<Rightarrow> fp \<Rightarrow> 'd \<Rightarrow> 'r \<Rightarrow> fp \<times> 'd \<times> 'r"
  uniform_draw :: "fp \<Rightarrow> fp \<Rightarrow> 'r \<Rightarrow> fp \<times> 'r"

record odometry =
  odom_stamp :: int
  odom_frame :: string
  odom_child :: string
  odom_x :: fp
  odom_y :: fp
  odom_z :: fp
  odom_q :: quaternion
  odom_pose_cov :: "fp list"
  odom_twist_cov :: "fp list"

record 'r SyntheticVio =
  vio_params :: vio_parameters
  vio_model :: NoiseModel
  resolved_seed :: u64
  white_rng :: 'r
  drift_rng :: 'r
  fault_rng :: 'r
  profile_rng :: 'r
  translation_scale :: fp
  yaw_scale :: fp
  initialized :: bool
  initial_x :: fp
  initial_y :: fp
  initial_yaw :: fp
  previous_stamp :: int
  elapsed_seconds :: fp
  position_drift_x :: fp
  position_drift_y :: fp
  yaw_drift :: fp
  pending_messages :: "(int \<times> odometry) list"

definition scale_by :: "fp \<Rightarrow> fp \<Rightarrow> fp" where
  "scale_by x factor = fmul binary64 x factor"

definition select_model :: "('r, 'd) random_lib \<Rightarrow> vio_parameters \<Rightarrow> 'r \<Rightarrow> NoiseModel \<times> 'r" where
  "select_model lib p r = (let selected = nominal_model p in
     if profile p = ''calibration'' \<or> profile p = ''nominal'' then (selected, r)
     else let
       (lo, hi) = (if profile p = ''validation'' then (validation_min_multiplier p, validation_max_multiplier p)
                   else (stress_min_multiplier p, stress_max_multiplier p));
       (f1, r) = uniform_draw lib lo hi r; (f2, r) = uniform_draw lib lo hi r; (f3, r) = uniform_draw lib lo hi r;
       (f4, r) = uniform_draw lib lo hi r; (f5, r) = uniform_draw lib lo hi r; (f6, r) = uniform_draw lib lo hi r;
       selected = selected\<lparr>
         position_noise_std := scale_by (position_noise_std selected) f1,
         yaw_noise_std := scale_by (yaw_noise_std selected) f2,
         position_drift_rw_std := scale_by (position_drift_rw_std selected) f3,
         yaw_drift_rw_std := scale_by (yaw_drift_rw_std selected) f4,
         translation_scale_std := scale_by (translation_scale_std selected) f5,
         yaw_scale_std := scale_by (yaw_scale_std selected) f6\<rparr>
     in if profile p = ''stress''
        then (selected\<lparr>dropout_probability := stress_dropout_probability p,
               outlier_probability := stress_outlier_probability p, latency_ms := stress_latency_ms p,
               reported_covariance_scale := stress_reported_covariance_scale p\<rparr>, r)
        else (selected, r))"

definition sample_run_calibration :: "('r, 'd) random_lib \<Rightarrow> 'r SyntheticVio \<Rightarrow> 'r SyntheticVio" where
  "sample_run_calibration lib s = (let
     (n1, d, r) = normal_draw lib fzero (dlit 1) (new_normal lib) (drift_rng s);
     (n2, d, r) = normal_draw lib fzero (dlit 1) d r
   in s\<lparr>drift_rng := r,
        translation_scale := fadd binary64 (dlit 1) (fmul binary64 (translation_scale_std (vio_model s)) n1),
        yaw_scale := fadd binary64 (dlit 1) (fmul binary64 (yaw_scale_std (vio_model s)) n2)\<rparr>)"

definition initialize_random_streams :: "('r, 'd) random_lib \<Rightarrow> u64 \<Rightarrow> 'r SyntheticVio \<Rightarrow> 'r SyntheticVio" where
  "initialize_random_streams lib seed s = s\<lparr>white_rng := engine lib (stream_seed seed ''white_noise''),
     drift_rng := engine lib (stream_seed seed ''drift''), fault_rng := engine lib (stream_seed seed ''faults''),
     profile_rng := engine lib (stream_seed seed ''profile'')\<rparr>"

definition new_SyntheticVio ::
  "('r, 'd) random_lib \<Rightarrow> u32 \<Rightarrow> u32 \<Rightarrow> vio_parameters \<Rightarrow> int \<Rightarrow> 'r SyntheticVio outcome" where
  "new_SyntheticVio lib r1 r2 p requested_seed = and_then (validate_parameters p requested_seed) (\<lambda>_. let
     seed = resolve_seed r1 r2 requested_seed; e = engine lib 5489;
     s = initialize_random_streams lib seed \<lparr>vio_params = p, vio_model = default_NoiseModel, resolved_seed = seed,
       white_rng = e, drift_rng = e, fault_rng = e, profile_rng = e, translation_scale = dlit 1, yaw_scale = dlit 1,
       initialized = False, initial_x = fzero, initial_y = fzero, initial_yaw = fzero, previous_stamp = 0,
       elapsed_seconds = fzero, position_drift_x = fzero, position_drift_y = fzero, yaw_drift = fzero,
       pending_messages = []\<rparr>;
     (m, r) = select_model lib p (profile_rng s)
   in Done (sample_run_calibration lib (s\<lparr>vio_model := m, profile_rng := r\<rparr>)))"

definition white_noise :: "('r, 'd) random_lib \<Rightarrow> fp \<Rightarrow> 'r SyntheticVio \<Rightarrow> fp \<times> 'r SyntheticVio" where
  "white_noise lib standard_deviation s =
     (case normal_draw lib fzero standard_deviation (new_normal lib) (white_rng s) of (x, _, r) \<Rightarrow> (x, s\<lparr>white_rng := r\<rparr>))"

definition drift_noise :: "('r, 'd) random_lib \<Rightarrow> fp \<Rightarrow> 'r SyntheticVio \<Rightarrow> fp \<times> 'r SyntheticVio" where
  "drift_noise lib standard_deviation s =
     (case normal_draw lib fzero standard_deviation (new_normal lib) (drift_rng s) of (x, _, r) \<Rightarrow> (x, s\<lparr>drift_rng := r\<rparr>))"

definition unit_uniform :: "('r, 'd) random_lib \<Rightarrow> 'r SyntheticVio \<Rightarrow> fp \<times> 'r SyntheticVio" where
  "unit_uniform lib s = (case uniform_draw lib fzero (dlit 1) (fault_rng s) of (x, r) \<Rightarrow> (x, s\<lparr>fault_rng := r\<rparr>))"

subsection \<open>A measurement\<close>

definition kUnusedCovariance :: fp where
  "kUnusedCovariance = dlit 1000000"

text \<open>The library functions: mathematics and the seconds of a duration in nanoseconds.\<close>

definition reported_std :: "math \<Rightarrow> NoiseModel \<Rightarrow> fp \<Rightarrow> fp \<Rightarrow> fp \<Rightarrow> fp \<Rightarrow> fp" where
  "reported_std lib m noise_std scale_error drift_std elapsed = (let mul = fmul binary64; add = fadd binary64
   in mul (reported_covariance_scale m) (m_sqrt lib
     (add (add (mul noise_std noise_std) (mul scale_error scale_error)) (mul (mul drift_std drift_std) elapsed))))"

fun fabs :: "fp \<Rightarrow> fp" where
  "fabs (FFin s m) = FFin False m"
| "fabs (FInf s) = FInf False"
| "fabs FNaN = FNaN"

text \<open>Six entries on the diagonal of a 6 by 6 matrix in row-major order.\<close>

definition unused_diagonal :: "fp list \<Rightarrow> fp list" where
  "unused_diagonal cov = fold (\<lambda>index cov. cov[index * 6 + index := kUnusedCovariance]) [0..<6] cov"

definition set_covariance :: "math \<Rightarrow> 'r SyntheticVio \<Rightarrow> fp \<Rightarrow> fp \<Rightarrow> fp \<Rightarrow> odometry \<Rightarrow> odometry" where
  "set_covariance lib s relative_x relative_y relative_yaw vio = (let m = vio_model s; mul = fmul binary64;
     position_scale_error = mul (translation_scale_std m) (m_hypot lib relative_x relative_y);
     yaw_scale_error = mul (yaw_scale_std m) (fabs relative_yaw);
     position_std = reported_std lib m (position_noise_std m) position_scale_error (position_drift_rw_std m) (elapsed_seconds s);
     yaw_std = reported_std lib m (yaw_noise_std m) yaw_scale_error (yaw_drift_rw_std m) (elapsed_seconds s)
   in vio\<lparr>odom_pose_cov := (unused_diagonal (odom_pose_cov vio))
     [0 := mul position_std position_std, 7 := mul position_std position_std, 35 := mul yaw_std yaw_std]\<rparr>)"

definition make_measurement ::
  "math \<Rightarrow> ('r, 'd) random_lib \<Rightarrow> odometry \<Rightarrow> 'r SyntheticVio \<Rightarrow> (odometry \<times> 'r SyntheticVio) option" where
  "make_measurement lib rnd truth s = (let add = fadd binary64; sub = fsub binary64; mul = fmul binary64; m = vio_model s;
     truth_yaw = yaw_from_quaternion lib (odom_q truth);
     relative_x = sub (odom_x truth) (initial_x s);
     relative_y = sub (odom_y truth) (initial_y s)
   in Option.bind (wrap_angle (sub truth_yaw (initial_yaw s))) (\<lambda>relative_yaw. let
     (yaw_noise, s) = white_noise rnd (yaw_noise_std m) s
   in Option.bind (wrap_angle (add (add (add (initial_yaw s) (mul (yaw_scale s) relative_yaw)) (yaw_drift s)) yaw_noise))
     (\<lambda>measurement_yaw. let
       (noise_x, s) = white_noise rnd (position_noise_std m) s;
       x = add (add (add (initial_x s) (mul (translation_scale s) relative_x)) (position_drift_x s)) noise_x;
       (noise_y, s) = white_noise rnd (position_noise_std m) s;
       y = add (add (add (initial_y s) (mul (translation_scale s) relative_y)) (position_drift_y s)) noise_y;
       vio = \<lparr>odom_stamp = odom_stamp truth, odom_frame = output_frame_id (vio_params s),
         odom_child = child_frame_id (vio_params s), odom_x = x, odom_y = y, odom_z = odom_z truth,
         odom_q = quaternion_from_yaw lib measurement_yaw, odom_pose_cov = replicate 36 fzero,
         odom_twist_cov = replicate 36 fzero\<rparr>;
       vio = set_covariance lib s relative_x relative_y relative_yaw vio;
       vio = vio\<lparr>odom_twist_cov := unused_diagonal (odom_twist_cov vio)\<rparr>
     in Some (vio, s))))"

subsection \<open>The callbacks\<close>

definition initialize_from :: "math \<Rightarrow> odometry \<Rightarrow> 'r SyntheticVio \<Rightarrow> 'r SyntheticVio" where
  "initialize_from lib truth s = (if initialized s then s
     else s\<lparr>initial_x := odom_x truth, initial_y := odom_y truth,
            initial_yaw := yaw_from_quaternion lib (odom_q truth), previous_stamp := odom_stamp truth,
            initialized := True\<rparr>)"

text \<open>\<open>std::max(0.0, x)\<close> is 0 unless \<open>0 < x\<close>.\<close>

definition advance_drift :: "math \<Rightarrow> ('r, 'd) random_lib \<Rightarrow> (int \<Rightarrow> fp) \<Rightarrow> int \<Rightarrow> 'r SyntheticVio \<Rightarrow> 'r SyntheticVio" where
  "advance_drift lib rnd seconds stamp s = (let
     x = seconds (stamp - previous_stamp s); dt = (if flt fzero x then x else fzero)
   in if flt fzero dt
      then let root_dt = m_sqrt lib dt; m = vio_model s; add = fadd binary64; mul = fmul binary64;
          (nx, s) = drift_noise rnd (mul (position_drift_rw_std m) root_dt) s;
          s = s\<lparr>position_drift_x := add (position_drift_x s) nx\<rparr>;
          (ny, s) = drift_noise rnd (mul (position_drift_rw_std m) root_dt) s;
          s = s\<lparr>position_drift_y := add (position_drift_y s) ny\<rparr>;
          (nyaw, s) = drift_noise rnd (mul (yaw_drift_rw_std m) root_dt) s;
          s = s\<lparr>yaw_drift := add (yaw_drift s) nyaw\<rparr>
        in s\<lparr>elapsed_seconds := add (elapsed_seconds s) dt, previous_stamp := stamp\<rparr>
      else s)"

definition make_outlier :: "math \<Rightarrow> ('r, 'd) random_lib \<Rightarrow> odometry \<Rightarrow> 'r SyntheticVio \<Rightarrow> (odometry \<times> 'r SyntheticVio) option" where
  "make_outlier lib rnd vio s = (let add = fadd binary64; m = vio_model s;
     (nx, s) = white_noise rnd (outlier_position_std m) s; vio = vio\<lparr>odom_x := add (odom_x vio) nx\<rparr>;
     (ny, s) = white_noise rnd (outlier_position_std m) s; vio = vio\<lparr>odom_y := add (odom_y vio) ny\<rparr>;
     (nyaw, s) = white_noise rnd (outlier_yaw_std m) s
   in Option.bind (wrap_angle (add (yaw_from_quaternion lib (odom_q vio)) nyaw)) (\<lambda>yaw.
     Some (vio\<lparr>odom_q := quaternion_from_yaw lib yaw\<rparr>, s)))"

text \<open>The message that a true pose leads to, if any: none for stamp zero and for a dropout.\<close>

definition truth_message :: "math \<Rightarrow> ('r, 'd) random_lib \<Rightarrow> (int \<Rightarrow> fp) \<Rightarrow> odometry \<Rightarrow> 'r SyntheticVio \<Rightarrow>
    (odometry option \<times> 'r SyntheticVio) option" where
  "truth_message lib rnd seconds truth s = (let stamp = odom_stamp truth
   in if stamp = 0 then Some (None, s)
      else let
        s = advance_drift lib rnd seconds stamp (initialize_from lib truth s);
        (u, s) = unit_uniform rnd s
      in if flt u (dropout_probability (vio_model s)) then Some (None, s)
         else Option.bind (make_measurement lib rnd truth s) (\<lambda>(vio, s). let
           (u, s) = unit_uniform rnd s
         in if flt u (outlier_probability (vio_model s))
            then map_option (\<lambda>(vio, s). (Some vio, s)) (make_outlier lib rnd vio s)
            else Some (Some vio, s)))"

fun publish_due :: "int \<Rightarrow> (int \<times> odometry) list \<Rightarrow> odometry list \<times> (int \<times> odometry) list" where
  "publish_due time [] = ([], [])"
| "publish_due time ((release_time, message) # ps) =
     (if release_time \<le> time then case publish_due time ps of (out, rest) \<Rightarrow> (message # out, rest)
      else ([], (release_time, message) # ps))"

definition publish_due_messages :: "int \<Rightarrow> 'r SyntheticVio \<Rightarrow> odometry list \<times> 'r SyntheticVio" where
  "publish_due_messages time s =
     (case publish_due time (pending_messages s) of (out, rest) \<Rightarrow> (out, s\<lparr>pending_messages := rest\<rparr>))"

definition truth_callback :: "math \<Rightarrow> ('r, 'd) random_lib \<Rightarrow> (int \<Rightarrow> fp) \<Rightarrow> odometry \<Rightarrow> 'r SyntheticVio \<Rightarrow>
    (odometry list \<times> 'r SyntheticVio) option" where
  "truth_callback lib rnd seconds truth s = Option.bind (truth_message lib rnd seconds truth s) (\<lambda>(m, s).
     case m of
       None \<Rightarrow> Some ([], s)
     | Some vio \<Rightarrow> Some (publish_due_messages (odom_stamp truth) (s\<lparr>pending_messages := pending_messages s @
         [(odom_stamp truth + latency_ms (vio_model s) * 1000000, vio)]\<rparr>)))"

text \<open>A run: true poses and ticks of the timer at the clock's time, with the time of each publication.\<close>

datatype vio_event = Truth odometry | Tick int

fun event_time :: "vio_event \<Rightarrow> int" where
  "event_time (Truth m) = odom_stamp m"
| "event_time (Tick t) = t"

fun vio_step :: "math \<Rightarrow> ('r, 'd) random_lib \<Rightarrow> (int \<Rightarrow> fp) \<Rightarrow> vio_event \<Rightarrow> 'r SyntheticVio \<Rightarrow>
    (odometry list \<times> 'r SyntheticVio) option" where
  "vio_step lib rnd seconds (Truth m) s = truth_callback lib rnd seconds m s"
| "vio_step lib rnd seconds (Tick t) s = Some (publish_due_messages t s)"

fun vio_run :: "math \<Rightarrow> ('r, 'd) random_lib \<Rightarrow> (int \<Rightarrow> fp) \<Rightarrow> vio_event list \<Rightarrow> 'r SyntheticVio \<Rightarrow>
    ((int \<times> odometry) list \<times> 'r SyntheticVio) option" where
  "vio_run lib rnd seconds [] s = Some ([], s)"
| "vio_run lib rnd seconds (e # es) s = Option.bind (vio_step lib rnd seconds e s) (\<lambda>(out, s).
     Option.bind (vio_run lib rnd seconds es s) (\<lambda>(outs, s). Some (map (Pair (event_time e)) out @ outs, s)))"

end
