(* ===== verification/Vio_Properties.thy ===== *)
theory Vio_Properties
  imports Vio_Node
begin

section \<open>What the synthetic odometry does\<close>

text \<open>
  The properties of the synthetic odometry over whole runs: the order and the delay of its
  measurements, the shape of each measurement, and the noise model that a run draws.
\<close>

subsection \<open>What the callbacks leave alone\<close>

definition same_node :: "'r SyntheticVio \<Rightarrow> 'r SyntheticVio \<Rightarrow> bool" where
  "same_node s s' \<longleftrightarrow> vio_params s' = vio_params s \<and> vio_model s' = vio_model s \<and>
     pending_messages s' = pending_messages s"

lemma same_node_refl [simp]: "same_node s s"
  by (simp add: same_node_def)

lemma same_node_trans: "same_node s s1 \<Longrightarrow> same_node s1 s2 \<Longrightarrow> same_node s s2"
  by (simp add: same_node_def)

lemma white_noise_fields [simp]:
  "vio_params (snd (white_noise rnd sd s)) = vio_params s" "vio_model (snd (white_noise rnd sd s)) = vio_model s"
  "pending_messages (snd (white_noise rnd sd s)) = pending_messages s"
  by (simp_all add: white_noise_def case_prod_unfold)

lemma drift_noise_fields [simp]:
  "vio_params (snd (drift_noise rnd sd s)) = vio_params s" "vio_model (snd (drift_noise rnd sd s)) = vio_model s"
  "pending_messages (snd (drift_noise rnd sd s)) = pending_messages s"
  by (simp_all add: drift_noise_def case_prod_unfold)

lemma unit_uniform_fields [simp]:
  "vio_params (snd (unit_uniform rnd s)) = vio_params s" "vio_model (snd (unit_uniform rnd s)) = vio_model s"
  "pending_messages (snd (unit_uniform rnd s)) = pending_messages s"
  by (simp_all add: unit_uniform_def case_prod_unfold)

lemma same_node_advance: "same_node s (advance_drift lib rnd seconds stamp (initialize_from lib truth s))"
  by (simp add: advance_drift_def initialize_from_def same_node_def Let_def case_prod_unfold)

definition cov_entries :: "(nat \<Rightarrow> fp) \<Rightarrow> fp list" where
  "cov_entries f = map f [0..<36]"

text \<open>
  The covariance of a planar pose: one variance for x and y, one for yaw, none of them negative, a
  large constant for the other three axes, and no correlations.
\<close>

definition planar_covariance :: "fp list \<Rightarrow> bool" where
  "planar_covariance c \<longleftrightarrow> (\<exists>vp vy. \<not> flt vp fzero \<and> \<not> flt vy fzero \<and>
     c = cov_entries (\<lambda>k. if k = 0 \<or> k = 7 then vp else if k = 35 then vy
       else if k \<in> {14, 21, 28} then kUnusedCovariance else fzero))"

definition measures :: "'r SyntheticVio \<Rightarrow> odometry \<Rightarrow> odometry \<Rightarrow> bool" where
  "measures s truth v \<longleftrightarrow> odom_stamp v = odom_stamp truth \<and> odom_frame v = output_frame_id (vio_params s) \<and>
     odom_child v = child_frame_id (vio_params s) \<and> odom_z v = odom_z truth \<and>
     q_x (odom_q v) = fzero \<and> q_y (odom_q v) = fzero \<and> planar_covariance (odom_pose_cov v) \<and>
     odom_twist_cov v = cov_entries (\<lambda>k. if 7 dvd k then kUnusedCovariance else fzero)"

lemma square_not_negative: "\<not> flt (fmul binary64 x x) fzero"
proof (cases x)
  case (FFin s m)
  have "0 \<le> round_mag binary64 (m * m)" by (rule round_mag_nonneg) simp
  then show ?thesis by (simp add: FFin fround_def Let_def fzero_def)
qed (simp_all add: fzero_def)

lemma unused_diagonal_zeros:
  "unused_diagonal (replicate 36 fzero) = cov_entries (\<lambda>k. if 7 dvd k then kUnusedCovariance else fzero)"
  by code_simp

lemma pose_covariance:
  "(unused_diagonal (replicate 36 fzero))[0 := vp, 7 := vp, 35 := vy] =
     cov_entries (\<lambda>k. if k = 0 \<or> k = 7 then vp else if k = 35 then vy
       else if k \<in> {14, 21, 28} then kUnusedCovariance else fzero)"
proof (rule nth_equalityI)
  fix k
  assume "k < length ((unused_diagonal (replicate 36 fzero))[0 := vp, 7 := vp, 35 := vy])"
  then have k: "k < 36" by (simp add: unused_diagonal_zeros cov_entries_def)
  have "7 dvd k \<longleftrightarrow> k \<in> {0, 7, 14, 21, 28, 35}" using k by (auto elim!: dvdE)
  then show "(unused_diagonal (replicate 36 fzero))[0 := vp, 7 := vp, 35 := vy] ! k =
    cov_entries (\<lambda>k. if k = 0 \<or> k = 7 then vp else if k = 35 then vy
       else if k \<in> {14, 21, 28} then kUnusedCovariance else fzero) ! k"
    using k by (auto simp: unused_diagonal_zeros cov_entries_def nth_list_update)
qed (simp add: unused_diagonal_zeros cov_entries_def)

lemma set_covariance_shape [simp]:
  "odom_pose_cov vio = replicate 36 fzero \<Longrightarrow> planar_covariance (odom_pose_cov (set_covariance lib s x y yaw vio))"
  using pose_covariance square_not_negative unfolding planar_covariance_def set_covariance_def Let_def
  by (simp del: replicate.simps) blast

lemma set_covariance_fields [simp]:
  "odom_stamp (set_covariance lib s x y yaw vio) = odom_stamp vio" "odom_frame (set_covariance lib s x y yaw vio) = odom_frame vio"
  "odom_child (set_covariance lib s x y yaw vio) = odom_child vio" "odom_z (set_covariance lib s x y yaw vio) = odom_z vio"
  "odom_q (set_covariance lib s x y yaw vio) = odom_q vio" "odom_twist_cov (set_covariance lib s x y yaw vio) = odom_twist_cov vio"
  by (simp_all add: set_covariance_def Let_def)

lemma quaternion_planar [simp]:
  "q_x (quaternion_from_yaw lib yaw) = fzero" "q_y (quaternion_from_yaw lib yaw) = fzero"
  by (simp_all add: quaternion_from_yaw_def new_quaternion_def)

lemma make_measurement_measures:
  assumes "make_measurement lib rnd truth s = Some (v, s')"
  shows "measures s truth v" "same_node s s'"
  using assms
  by (auto simp: make_measurement_def Let_def bind_eq_Some_conv case_prod_unfold same_node_def measures_def
      unused_diagonal_zeros simp del: replicate.simps)

lemma make_outlier_measures:
  assumes "make_outlier lib rnd v s = Some (v', s')" "measures s truth v"
  shows "measures s truth v'" "same_node s s'"
  using assms
  by (auto simp: make_outlier_def Let_def bind_eq_Some_conv case_prod_unfold same_node_def measures_def)

lemma truth_message_measures:
  assumes "truth_message lib rnd seconds truth s = Some (m, s')"
  shows "same_node s s'" "m = Some v \<Longrightarrow> measures s truth v"
proof -
  let ?s = "advance_drift lib rnd seconds (odom_stamp truth) (initialize_from lib truth s)"
  let ?s1 = "snd (unit_uniform rnd ?s)"
  note adv = same_node_advance [of s lib rnd seconds "odom_stamp truth" truth]
  have s1: "same_node s ?s1" using adv by (simp add: same_node_def)
  consider "m = None" "s' = s" | "m = None" "s' = ?s1"
    | v1 s2 where "make_measurement lib rnd truth ?s1 = Some (v1, s2)" "m = Some v1" "s' = snd (unit_uniform rnd s2)"
    | v1 s2 v2 where "make_measurement lib rnd truth ?s1 = Some (v1, s2)"
        "make_outlier lib rnd v1 (snd (unit_uniform rnd s2)) = Some (v2, s')" "m = Some v2"
    using assms
    by (auto simp: truth_message_def Let_def case_prod_unfold bind_eq_Some_conv split: if_splits)
  then have "same_node s s' \<and> (\<forall>v. m = Some v \<longrightarrow> measures s truth v)"
  proof cases
    case 3
    from make_measurement_measures [OF 3(1)] s1 3(2,3) show ?thesis by (simp add: same_node_def measures_def)
  next
    case 4
    have m: "measures (snd (unit_uniform rnd s2)) truth v1" "same_node ?s1 s2"
      using make_measurement_measures [OF 4(1)] by (simp_all add: same_node_def measures_def)
    from make_outlier_measures [OF 4(2) m(1)] m(2) s1 4(3) show ?thesis by (simp add: same_node_def measures_def)
  qed (use s1 in simp_all)
  then show "same_node s s'" "m = Some v \<Longrightarrow> measures s truth v" by blast+
qed

subsection \<open>The queue\<close>

lemma publish_due_split:
  "publish_due time ps = (out, rest) \<Longrightarrow> map snd ps = out @ map snd rest \<and>
     out = map snd (takeWhile (\<lambda>p. fst p \<le> time) ps) \<and> rest = dropWhile (\<lambda>p. fst p \<le> time) ps"
proof (induction ps arbitrary: out rest)
  case (Cons p ps)
  then show ?case by (cases p) (auto split: if_splits prod.splits)
qed simp

text \<open>The measurement that a step makes, whether it is published or not; and those of a run, in order.\<close>

definition step_measured :: "math \<Rightarrow> ('r, 'd) random_lib \<Rightarrow> (int \<Rightarrow> fp) \<Rightarrow> vio_event \<Rightarrow> 'r SyntheticVio \<Rightarrow> odometry list" where
  "step_measured lib rnd seconds e s = (case e of
     Truth m \<Rightarrow> (case truth_message lib rnd seconds m s of Some (Some v, _) \<Rightarrow> [v] | _ \<Rightarrow> [])
   | Tick t \<Rightarrow> [])"

lemma in_step_measured:
  "m \<in> set (step_measured lib rnd seconds e s) \<Longrightarrow>
     \<exists>truth s1. e = Truth truth \<and> truth_message lib rnd seconds truth s = Some (Some m, s1)"
  by (cases e) (auto simp: step_measured_def split: option.split_asm dest: sym [of "Some _"])

fun vio_measured :: "math \<Rightarrow> ('r, 'd) random_lib \<Rightarrow> (int \<Rightarrow> fp) \<Rightarrow> vio_event list \<Rightarrow> 'r SyntheticVio \<Rightarrow> odometry list" where
  "vio_measured lib rnd seconds [] s = []"
| "vio_measured lib rnd seconds (e # es) s =
     step_measured lib rnd seconds e s @
     (case vio_step lib rnd seconds e s of Some (_, s) \<Rightarrow> vio_measured lib rnd seconds es s | None \<Rightarrow> [])"

text \<open>Every message in the queue is due when its latency has passed.\<close>

definition queue_ok :: "'r SyntheticVio \<Rightarrow> bool" where
  "queue_ok s \<longleftrightarrow> (\<forall>(r, m) \<in> set (pending_messages s). r = odom_stamp m + latency_ms (vio_model s) * 1000000)"

lemma vio_step_queue:
  assumes "vio_step lib rnd seconds e s = Some (out, s')"
  shows "out @ map snd (pending_messages s') = map snd (pending_messages s) @
      step_measured lib rnd seconds e s"
    "vio_params s' = vio_params s" "vio_model s' = vio_model s"
    "queue_ok s \<Longrightarrow> queue_ok s' \<and> (\<forall>m \<in> set out. odom_stamp m + latency_ms (vio_model s) * 1000000 \<le> event_time e)"
proof -
  have pub: "out @ map snd (pending_messages s') = map snd (pending_messages s1) \<and> vio_params s' = vio_params s1 \<and>
      vio_model s' = vio_model s1 \<and>
      (queue_ok s1 \<longrightarrow> queue_ok s' \<and> (\<forall>m \<in> set out. odom_stamp m + latency_ms (vio_model s1) * 1000000 \<le> t))"
    if p: "publish_due_messages t s1 = (out, s')" for t s1
  proof -
    obtain rest where r: "publish_due t (pending_messages s1) = (out, rest)" "s' = s1\<lparr>pending_messages := rest\<rparr>"
      using p by (auto simp: publish_due_messages_def split: prod.splits)
    note q = publish_due_split [OF r(1)]
    have "\<exists>p \<in> set (pending_messages s1). fst p \<le> t \<and> snd p = m" if "m \<in> set out" for m
      using q that by (auto dest: set_takeWhileD)
    then show ?thesis
      using q r(2) by (fastforce simp: queue_ok_def dest: set_dropWhileD)
  qed
  have "out @ map snd (pending_messages s') = map snd (pending_messages s) @
      step_measured lib rnd seconds e s \<and>
    vio_params s' = vio_params s \<and> vio_model s' = vio_model s \<and>
    (queue_ok s \<longrightarrow> queue_ok s' \<and> (\<forall>m \<in> set out. odom_stamp m + latency_ms (vio_model s) * 1000000 \<le> event_time e))"
  proof (cases e)
    case (Tick t)
    then show ?thesis using assms pub [of t s] by (simp add: step_measured_def)
  next
    case (Truth truth)
    obtain m s1 where m: "truth_message lib rnd seconds truth s = Some (m, s1)"
      using assms Truth by (auto simp: truth_callback_def bind_eq_Some_conv)
    note same = truth_message_measures(1) [OF m]
    show ?thesis
    proof (cases m)
      case None
      then show ?thesis
        using assms Truth m same by (auto simp: truth_callback_def same_node_def queue_ok_def step_measured_def)
    next
      case (Some v)
      let ?s = "s1\<lparr>pending_messages := pending_messages s1 @ [(odom_stamp truth + latency_ms (vio_model s1) * 1000000, v)]\<rparr>"
      have "publish_due_messages (odom_stamp truth) ?s = (out, s')"
        using assms Truth m Some by (simp add: truth_callback_def)
      moreover have "odom_stamp v = odom_stamp truth"
        using truth_message_measures(2) [OF m Some] by (simp add: measures_def)
      ultimately show ?thesis
        using pub [of "odom_stamp truth" ?s] same Truth m Some
        by (auto simp: same_node_def queue_ok_def step_measured_def)
    qed
  qed
  then show "out @ map snd (pending_messages s') = map snd (pending_messages s) @
      step_measured lib rnd seconds e s"
    "vio_params s' = vio_params s" "vio_model s' = vio_model s"
    "queue_ok s \<Longrightarrow> queue_ok s' \<and> (\<forall>m \<in> set out. odom_stamp m + latency_ms (vio_model s) * 1000000 \<le> event_time e)"
    by blast+
qed

lemma vio_run_queue:
  assumes "vio_run lib rnd seconds es s = Some (outs, s')"
  shows "map snd outs @ map snd (pending_messages s') =
      map snd (pending_messages s) @ vio_measured lib rnd seconds es s"
    "queue_ok s \<Longrightarrow> (t, m) \<in> set outs \<Longrightarrow> odom_stamp m + latency_ms (vio_model s) * 1000000 \<le> t"
proof -
  have "map snd outs @ map snd (pending_messages s') = map snd (pending_messages s) @ vio_measured lib rnd seconds es s \<and>
    (queue_ok s \<longrightarrow> (\<forall>(t, m) \<in> set outs. odom_stamp m + latency_ms (vio_model s) * 1000000 \<le> t))"
    using assms
  proof (induction es arbitrary: s outs)
    case Nil
    then show ?case by simp
  next
    case (Cons e es)
    obtain out s1 outs1 where e: "vio_step lib rnd seconds e s = Some (out, s1)"
        and r: "vio_run lib rnd seconds es s1 = Some (outs1, s')" and o: "outs = map (Pair (event_time e)) out @ outs1"
      using Cons.prems by (auto simp: bind_eq_Some_conv)
    note q = vio_step_queue [OF e]
    from Cons.IH [OF r] q(1) have "map snd outs @ map snd (pending_messages s') =
        map snd (pending_messages s) @ vio_measured lib rnd seconds (e # es) s"
      by (simp add: o e comp_def)
    moreover have "\<forall>(t, m) \<in> set outs. odom_stamp m + latency_ms (vio_model s) * 1000000 \<le> t" if "queue_ok s"
      using q(3,4) that Cons.IH [OF r] by (auto simp: o)
    ultimately show ?case by blast
  qed
  then show "map snd outs @ map snd (pending_messages s') =
      map snd (pending_messages s) @ vio_measured lib rnd seconds es s"
    "queue_ok s \<Longrightarrow> (t, m) \<in> set outs \<Longrightarrow> odom_stamp m + latency_ms (vio_model s) * 1000000 \<le> t" by auto
qed

text \<open>
  C37: Measurements are published in the order in which they were made, each once and none lost: over
  any sequence of true poses and timer ticks, what was published followed by what still waits is
  exactly what was measured; and nothing is published before its latency has passed.
\<close>

theorem vio_queue_is_first_in_first_out:
  assumes "new_SyntheticVio rnd r1 r2 p seed = Done s" "vio_run lib rnd seconds es s = Some (outs, s')"
  shows "map snd outs @ map snd (pending_messages s') = vio_measured lib rnd seconds es s \<and>
    (\<forall>(t, m) \<in> set outs. odom_stamp m + latency_ms (vio_model s) * 1000000 \<le> t)"
proof -
  have "pending_messages s = []"
    using assms(1) by (auto simp: new_SyntheticVio_def and_then_Done_iff sample_run_calibration_def
        initialize_random_streams_def Let_def case_prod_unfold)
  then show ?thesis using vio_run_queue [OF assms(2)] by (auto simp: queue_ok_def)
qed

lemma vio_measured_sources:
  "m \<in> set (vio_measured lib rnd seconds es s) \<Longrightarrow> \<exists>truth. Truth truth \<in> set es \<and> measures s truth m"
proof (induction es arbitrary: s)
  case (Cons e es)
  consider "m \<in> set (step_measured lib rnd seconds e s)"
    | out s1 where "vio_step lib rnd seconds e s = Some (out, s1)" "m \<in> set (vio_measured lib rnd seconds es s1)"
    using Cons.prems by (auto split: option.split_asm dest!: sym [of "Some _"])
  then show ?case
  proof cases
    case 1
    from in_step_measured [OF this] show ?thesis using truth_message_measures(2) by fastforce
  next
    case 2
    with Cons.IH [OF 2(2)] vio_step_queue(2) [OF 2(1)] show ?thesis by (auto simp: measures_def)
  qed
qed simp

text \<open>
  C38: Every published message is the measurement of a true pose of the run: it keeps that pose's stamp
  and height, has the configured frames, is planar, and its covariance has one variance for x and y
  and one for yaw, neither negative, and a large constant for what is not measured.
\<close>

theorem vio_publishes_planar_measurements:
  assumes "new_SyntheticVio rnd r1 r2 p seed = Done s" "vio_run lib rnd seconds es s = Some (outs, s')" "(t, m) \<in> set outs"
  shows "\<exists>truth. Truth truth \<in> set es \<and> odom_stamp m = odom_stamp truth \<and> odom_z m = odom_z truth \<and>
    odom_frame m = output_frame_id p \<and> odom_child m = child_frame_id p \<and>
    q_x (odom_q m) = fzero \<and> q_y (odom_q m) = fzero \<and> planar_covariance (odom_pose_cov m) \<and>
    odom_twist_cov m = cov_entries (\<lambda>k. if 7 dvd k then kUnusedCovariance else fzero)"
proof -
  have s: "pending_messages s = []" "vio_params s = p"
    using assms(1) by (auto simp: new_SyntheticVio_def and_then_Done_iff sample_run_calibration_def
        initialize_random_streams_def Let_def case_prod_unfold)
  then have "m \<in> set (vio_measured lib rnd seconds es s)"
    using vio_run_queue(1) [OF assms(2)] assms(3)
    by (metis append_Nil list.simps(8) snd_conv image_eqI list.set_map Un_iff set_append)
  from vio_measured_sources [OF this] s(2) show ?thesis by (auto simp: measures_def)
qed

subsection \<open>The noise model of a run\<close>

lemma not_less_le: "\<not> flt y x \<Longrightarrow> \<not> fisnan x \<Longrightarrow> \<not> fisnan y \<Longrightarrow> fle x y"
  by (cases x; cases y) (auto simp: fisnan_def fle_def)


end
