(* ===== verification/Vio_Examples.thy ===== *)
theory Vio_Examples
  imports Vio_Properties
begin

section \<open>Examples of the synthetic odometry\<close>

text \<open>
  A node that delays its messages by 150 ms, with a random library that draws the mean and the lower
  bound, and a run of one true pose and two ticks of the timer, before and after the delay.
\<close>

definition still_lib :: math where
  "still_lib = \<lparr>m_atan2 = (\<lambda>y x. fzero), m_sin = (\<lambda>x. x), m_cos = (\<lambda>x. x), m_sqrt = (\<lambda>x. x), m_hypot = (\<lambda>x y. x)\<rparr>"

definition still_random :: "(unit, unit) random_lib" where
  "still_random = \<lparr>engine = (\<lambda>_. ()), new_normal = (), normal_draw = (\<lambda>m sd d r. (m, d, r)),
     uniform_draw = (\<lambda>a b r. (a, r))\<rparr>"

definition example_truth :: "int \<Rightarrow> odometry" where
  "example_truth t = \<lparr>odom_stamp = t, odom_frame = ''world'', odom_child = ''base_link'', odom_x = dlit 1, odom_y = fzero,
     odom_z = dlit 3, odom_q = new_quaternion, odom_pose_cov = [], odom_twist_cov = []\<rparr>"

definition late_params :: vio_parameters where
  "late_params = default_params\<lparr>nominal_model := default_NoiseModel\<lparr>latency_ms := 150\<rparr>\<rparr>"

definition late_node :: "unit SyntheticVio" where
  "late_node = \<lparr>vio_params = late_params, vio_model = nominal_model late_params, resolved_seed = 7, white_rng = (),
     drift_rng = (), fault_rng = (), profile_rng = (), translation_scale = dlit 1, yaw_scale = dlit 1, initialized = False,
     initial_x = fzero, initial_y = fzero, initial_yaw = fzero, previous_stamp = 0, elapsed_seconds = fzero,
     position_drift_x = fzero, position_drift_y = fzero, yaw_drift = fzero, pending_messages = []\<rparr>"

definition still_seconds :: "int \<Rightarrow> fp" where
  "still_seconds n = (if n = 0 then fzero else dlit 1)"

definition late_run :: "vio_event list" where
  "late_run = [Truth (example_truth 1000000000), Tick 1100000000, Tick 1200000000]"

lemma late_node_is_new: "new_SyntheticVio still_random 0 0 late_params 7 = Done late_node"
proof -
  have "validate_parameters late_params 7 = Done ()" by code_simp
  moreover have "profile late_params = ''calibration''" by code_simp
  moreover have "fadd binary64 (dlit 1) (fmul binary64 (translation_scale_std (nominal_model late_params)) fzero) = dlit 1"
    "fadd binary64 (dlit 1) (fmul binary64 (yaw_scale_std (nominal_model late_params)) fzero) = dlit 1" by code_simp+
  ultimately show ?thesis
    by (simp add: new_SyntheticVio_def late_node_def initialize_random_streams_def select_model_def Let_def
        sample_run_calibration_def still_random_def resolve_seed_def)
qed

definition started_node :: "unit SyntheticVio" where
  "started_node = late_node\<lparr>initial_x := dlit 1, previous_stamp := 1000000000, initialized := True\<rparr>"

lemma example_measurement:
  "\<exists>v. make_measurement still_lib still_random (example_truth 1000000000) started_node =
     Some (v, started_node)"
proof -
  have "wrap_angle (fsub binary64 fzero fzero) = Some fzero" by code_simp
  moreover have "wrap_angle (fadd binary64 (fadd binary64 (fadd binary64 fzero (fmul binary64 (dlit 1) fzero)) fzero) fzero) =
      Some fzero" by code_simp
  ultimately show ?thesis
    by (simp add: make_measurement_def Let_def case_prod_unfold white_noise_def started_node_def late_node_def
        yaw_from_quaternion_def still_lib_def still_random_def)
qed

lemma dlit_0: "dlit 0 = fzero"
  by code_simp

lemma late_run_publishes:
  "\<exists>outs s'. vio_run still_lib still_random still_seconds late_run late_node = Some (outs, s') \<and> map fst outs = [1200000000]"
proof -
  obtain v where v: "make_measurement still_lib still_random (example_truth 1000000000) started_node = Some (v, started_node)"
    using example_measurement by blast
  have p: "dropout_probability (nominal_model late_params) = fzero" "outlier_probability (nominal_model late_params) = fzero"
    "latency_ms (nominal_model late_params) = 150"
    using dlit_0 by (simp_all add: late_params_def default_params_def default_NoiseModel_def)
  have init: "initialize_from still_lib (example_truth 1000000000) late_node = started_node"
    by (simp add: started_node_def initialize_from_def late_node_def example_truth_def still_lib_def yaw_from_quaternion_def Let_def)
  have adv: "advance_drift still_lib still_random still_seconds 1000000000 started_node = started_node"
    proof -
    have "previous_stamp started_node = 1000000000" by (simp add: started_node_def)
    moreover have "\<not> flt fzero fzero" by (simp add: fzero_def)
    ultimately show ?thesis 
      by (simp only: advance_drift_def still_seconds_def Let_def if_False diff_self simp_thms if_True if_cancel)
  qed
  have u: "unit_uniform still_random started_node = (fzero, started_node)"
    by (simp add: unit_uniform_def still_random_def started_node_def late_node_def)
  have stamp: "odom_stamp (example_truth 1000000000) = 1000000000" by (simp add: example_truth_def)
  have no: "\<not> flt fzero fzero" by (simp add: fzero_def)
  have model: "vio_model started_node = nominal_model late_params" "pending_messages started_node = []"
    by (simp_all add: started_node_def late_node_def)
  have "truth_message still_lib still_random still_seconds (example_truth 1000000000) late_node = Some (Some v, started_node)"
    by (simp add: truth_message_def Let_def init adv u v stamp model p no)
  then show ?thesis
    by (simp add: late_run_def truth_callback_def stamp model p publish_due_messages_def)
qed

lemma vio_queue_is_first_in_first_out_witness:
  "\<exists>outs s'. vio_run still_lib still_random still_seconds late_run late_node = Some (outs, s') \<and>
     map fst outs = [1200000000] \<and>
     map snd outs @ map snd (pending_messages s') = vio_measured still_lib still_random still_seconds late_run late_node \<and>
     (\<forall>(t, m) \<in> set outs. odom_stamp m + latency_ms (vio_model late_node) * 1000000 \<le> t)"
  proof -
  obtain outs s' where r: "vio_run still_lib still_random still_seconds late_run late_node = Some (outs, s')"
    and o: "map fst outs = [1200000000]" using late_run_publishes by auto
  from vio_queue_is_first_in_first_out [OF late_node_is_new r] r o show ?thesis by auto
qed

lemma vio_publishes_planar_measurements_witness:
  "\<exists>(m :: odometry) truth. Truth truth \<in> set late_run \<and> odom_stamp m = odom_stamp truth \<and> odom_frame m = output_frame_id late_params \<and>
     planar_covariance (odom_pose_cov m)"
proof -
  obtain outs s' where r: "vio_run still_lib still_random still_seconds late_run late_node = Some (outs, s')"
    and o: "map fst outs = [1200000000]" using late_run_publishes by auto
  then obtain m where "(1200000000, m) \<in> set outs" by (cases outs) auto
  from vio_publishes_planar_measurements [OF late_node_is_new r this] show ?thesis by blast
qed

definition stress_params :: vio_parameters where
  "stress_params = default_params\<lparr>profile := ''stress''\<rparr>"

lemma stress_node_exists: "\<exists>s. new_SyntheticVio still_random 0 0 stress_params 7 = Done s"
proof -
  have "validate_parameters stress_params 7 = Done ()" by code_simp
  then show ?thesis by (simp add: new_SyntheticVio_def Let_def case_prod_unfold)
qed


end
