(* ===== verification/Vio_Returns.thy ===== *)
theory Vio_Returns
  imports Vio_Examples
begin

section \<open>The synthetic odometry always answers\<close>

text \<open>
  \<open>wrap\_angle\<close> runs forever on an infinite or a huge angle, so a callback of the node may never return.
  Here: it does return as long as the library draws ordinary numbers, because the angles it hands to
  \<open>wrap\_angle\<close> then stay far below 2^30 rad. Bounds are kept through rounding by choosing them among
  the doubles.
\<close>

subsection \<open>Bounds through rounding\<close>

text \<open>Not a number, or of magnitude at most \<open>B\<close>; a number of magnitude at most \<open>B\<close>.\<close>

fun tame :: "rat \<Rightarrow> fp \<Rightarrow> bool" where
  "tame B (FFin s m) = (0 \<le> m \<and> m \<le> B)"
| "tame B (FInf s) = False"
| "tame B FNaN = True"

fun upto_size :: "rat \<Rightarrow> fp \<Rightarrow> bool" where
  "upto_size B (FFin s m) = (0 \<le> m \<and> m \<le> B)"
| "upto_size B x = False"

lemma upto_size_tame: "upto_size B x \<longleftrightarrow> tame B x \<and> \<not> fisnan x"
  by (cases x) (simp_all add: fisnan_def)

lemma tame_mono: "tame A x \<Longrightarrow> A \<le> B \<Longrightarrow> tame B x"
  by (cases x) auto

lemma tame_fneg [simp]: "tame B (fneg x) \<longleftrightarrow> tame B x"
  by (cases x) auto

definition bound :: "rat \<Rightarrow> bool" where
  "bound B \<longleftrightarrow> fp_ok binary64 (FFin False B)"

lemma bound_of_int:
  assumes "0 \<le> i" "i \<le> 2 ^ 53"
  shows "bound (of_int i)"
proof -
  have "representable binary64 (of_int i)"
    by (rule representableI [where n = i and e = 0]) (use assms in simp_all)
  moreover have "(of_int i :: rat) < pow2 (emax binary64 + 1)"
  proof -
    have "(of_int i :: rat) \<le> of_int (2 ^ 53)" using assms(2) by (simp only: of_int_le_iff)
    also have "\<dots> < pow2 (emax binary64 + 1)" by simp
    finally show ?thesis .
  qed
  ultimately show ?thesis using assms(1) by (simp add: bound_def round_mag_representable)
qed

lemma tame_fround: "bound B \<Longrightarrow> 0 \<le> q \<Longrightarrow> q \<le> B \<Longrightarrow> tame B (fround binary64 s q)"
  by (rule fround_le [of binary64 q B False s]) (auto simp: bound_def)

lemma tame_fadd:
  assumes "tame A x" "tame B y" "A + B \<le> C" "bound C"
  shows "tame C (fadd binary64 x y)"
proof (cases "\<exists>s a t b. x = FFin s a \<and> y = FFin t b")
  case True
  then obtain s a t b where xy: "x = FFin s a" "y = FFin t b" by blast
  have "\<bar>signed s a + signed t b\<bar> \<le> C" "0 \<le> C"
    using assms abs_triangle_ineq [of "signed s a" "signed t b"] by (auto simp: xy)
  then show ?thesis using tame_fround [OF assms(4)] by (simp add: xy Let_def)
next
  case False
  then show ?thesis using assms by (cases x; cases y) auto
qed

lemma tame_fsub: "tame A x \<Longrightarrow> tame B y \<Longrightarrow> A + B \<le> C \<Longrightarrow> bound C \<Longrightarrow> tame C (fsub binary64 x y)"
  unfolding fsub_def by (rule tame_fadd) simp_all

lemma tame_fmul:
  assumes "tame A x" "tame B y" "A * B \<le> C" "bound C"
  shows "tame C (fmul binary64 x y)"
proof (cases "\<exists>s a t b. x = FFin s a \<and> y = FFin t b")
  case True
  then obtain s a t b where xy: "x = FFin s a" "y = FFin t b" by blast
  have "a * b \<le> A * B" using assms by (intro mult_mono) (auto simp: xy)
  then have "a * b \<le> C" "0 \<le> a * b" using assms by (auto simp: xy)
  then show ?thesis using tame_fround [OF assms(4)] by (simp add: xy)
next
  case False
  then show ?thesis using assms by (cases x; cases y) auto
qed

lemma wrap_angle_NaN: "wrap_angle FNaN = Some FNaN"
proof -
  have "wrap_down FNaN = Some FNaN" "wrap_up FNaN = Some FNaN"
    by (subst wrap_down.simps, simp add: kPi_value) (subst wrap_up.simps, simp add: kPi_value fle_def)
  then show ?thesis by (simp add: wrap_angle_def)
qed

lemma wrap_angle_tame: "tame (pow2 30) x \<Longrightarrow> \<exists>y. wrap_angle x = Some y \<and> tame 4 y"
proof (cases x)
  case (FFin s m)
  assume "tame (pow2 30) x"
  then obtain t r where "wrap_angle (FFin s m) = Some (FFin t r)" "0 \<le> r" "- pi_double < signed t r" "signed t r \<le> pi_double"
    using wrap_angle_turns [of m s] by (auto simp: FFin)
  then show ?thesis using pi_double_bounds by (auto simp: FFin signed_def split: if_splits)
qed (use wrap_angle_NaN in auto)

lemma upto_fmul:
  assumes "upto_size A x" "upto_size B y" "A * B \<le> C" "bound C"
  shows "upto_size C (fmul binary64 x y)"
proof -
  obtain s a t b where xy: "x = FFin s a" "0 \<le> a" "a \<le> A" "y = FFin t b" "0 \<le> b" "b \<le> B"
    using assms(1,2) by (cases x; cases y) auto
  have "0 \<le> a * b" "a * b \<le> C" using xy mult_mono [of a A b B] assms(3) by simp_all
  then obtain m where "fround binary64 (s \<noteq> t) (a * b) = FFin (s \<noteq> t) m" "0 \<le> m" "m \<le> C"
    using fround_le [of binary64 "a * b" C False "s \<noteq> t"] assms(4) unfolding bound_def by blast
  then show ?thesis by (simp add: xy(1,4))
qed

subsection \<open>Ordinary nodes\<close>

text \<open>Standard deviations far below what a rover's odometry has.\<close>

definition ordinary :: "NoiseModel \<Rightarrow> bool" where
  "ordinary m \<longleftrightarrow> upto_size 16 (yaw_noise_std m) \<and> upto_size 16 (yaw_scale_std m) \<and>
     upto_size 16 (outlier_yaw_std m) \<and> upto_size 1 (yaw_drift_rw_std m)"

text \<open>A normal distribution whose draws are within 64 standard deviations.\<close>

definition within_64_sigma :: "('r, 'd) random_lib \<Rightarrow> bool" where
  "within_64_sigma rnd \<longleftrightarrow> (\<forall>s m d r. 0 \<le> m \<longrightarrow> tame (64 * m) (fst (normal_draw rnd fzero (FFin s m) d r)))"

lemma normal_tame: "within_64_sigma rnd \<Longrightarrow> upto_size B sd \<Longrightarrow> tame (64 * B) (fst (normal_draw rnd fzero sd d r))"
  by (cases sd) (fastforce simp: within_64_sigma_def intro: tame_mono)+

text \<open>After \<open>k\<close> true poses with stamps in \<open>T\<close>.\<close>

definition calm :: "int set \<Rightarrow> nat \<Rightarrow> 'r SyntheticVio \<Rightarrow> bool" where
  "calm T k s \<longleftrightarrow> tame 4 (initial_yaw s) \<and> tame (of_int (int k * 2 ^ 12)) (yaw_drift s) \<and> tame (2 ^ 11) (yaw_scale s) \<and>
     (initialized s \<longrightarrow> previous_stamp s \<in> T) \<and> ordinary (vio_model s)"

lemma calm_draws [simp]:
  "calm T k (snd (white_noise rnd sd s)) = calm T k s" "calm T k (snd (unit_uniform rnd s)) = calm T k s"
  "calm T k (s\<lparr>pending_messages := ps\<rparr>) = calm T k s"
  by (simp_all add: calm_def white_noise_def unit_uniform_def case_prod_unfold)

definition gaps_ok :: "math \<Rightarrow> (int \<Rightarrow> fp) \<Rightarrow> int set \<Rightarrow> bool" where
  "gaps_ok lib seconds T \<longleftrightarrow> (\<forall>a \<in> T. \<forall>b \<in> T. flt fzero (seconds (a - b)) \<longrightarrow> upto_size 64 (m_sqrt lib (seconds (a - b))))"

lemma bounds [simp]: "bound 8" "bound 64" "bound 1024" "bound 2048" "bound 8192" "bound 16384" "bound 536887296"
  "bound 1073741824"
  using bound_of_int [of 8] bound_of_int [of 64] bound_of_int [of 1024] bound_of_int [of 2048] bound_of_int [of 8192]
    bound_of_int [of 16384] bound_of_int [of 536887296] bound_of_int [of 1073741824]
  by simp_all

lemma advance_fields:
  "initial_yaw (advance_drift lib rnd seconds stamp s) = initial_yaw s"
  "yaw_scale (advance_drift lib rnd seconds stamp s) = yaw_scale s"
  "initialized (advance_drift lib rnd seconds stamp s) = initialized s"
  "vio_model (advance_drift lib rnd seconds stamp s) = vio_model s"
  "previous_stamp (advance_drift lib rnd seconds stamp s) \<in> {previous_stamp s, stamp}"
  by (simp_all add: advance_drift_def drift_noise_def Let_def case_prod_unfold)

lemma advance_yaw_drift:
  obtains "yaw_drift (advance_drift lib rnd seconds stamp s) = yaw_drift s"
  | d r where "flt fzero (seconds (stamp - previous_stamp s))"
    "yaw_drift (advance_drift lib rnd seconds stamp s) = fadd binary64 (yaw_drift s) (fst (normal_draw rnd fzero
      (fmul binary64 (yaw_drift_rw_std (vio_model s)) (m_sqrt lib (seconds (stamp - previous_stamp s)))) d r))"
proof (cases "flt fzero (seconds (stamp - previous_stamp s))")
  case True
  then show ?thesis
    by (intro that(2)) (simp_all add: advance_drift_def drift_noise_def Let_def case_prod_unfold)
next
  case False
  have "\<not> flt fzero fzero" by (simp add: fzero_def)
  with False show ?thesis by (intro that(1)) (simp add: advance_drift_def Let_def)
qed

lemma calm_advance:
  assumes calm: "calm T k s" and k: "k < 2 ^ 17" and T: "odom_stamp truth \<in> T" "gaps_ok lib seconds T"
    and atan2: "\<forall>y x. tame 4 (m_atan2 lib y x)" and normal: "within_64_sigma rnd"
  shows "calm T (Suc k) (advance_drift lib rnd seconds (odom_stamp truth) (initialize_from lib truth s))"
proof -
  let ?s = "initialize_from lib truth s" and ?stamp = "odom_stamp truth"
  have s: "calm T k ?s" "initialized ?s" "previous_stamp ?s \<in> T"
    using calm T(1) atan2 by (auto simp: calm_def initialize_from_def yaw_from_quaternion_def Let_def)
  have drift: "tame (of_int (int (Suc k) * 2 ^ 12)) (yaw_drift (advance_drift lib rnd seconds ?stamp ?s))"
  proof (rule advance_yaw_drift [of lib rnd seconds ?stamp ?s])
    assume "yaw_drift (advance_drift lib rnd seconds ?stamp ?s) = yaw_drift ?s"
    moreover have "tame (of_int (int k * 2 ^ 12)) (yaw_drift ?s)" using s(1) by (simp add: calm_def)
    ultimately show ?thesis by (auto elim: tame_mono)
  next
    fix d r
    let ?sd = "fmul binary64 (yaw_drift_rw_std (vio_model ?s)) (m_sqrt lib (seconds (?stamp - previous_stamp ?s)))"
    assume dt: "flt fzero (seconds (?stamp - previous_stamp ?s))"
      and eq: "yaw_drift (advance_drift lib rnd seconds ?stamp ?s) = fadd binary64 (yaw_drift ?s) (fst (normal_draw rnd fzero ?sd d r))"
    have "upto_size 64 ?sd"
      using s(1,3) dt T by (intro upto_fmul [where A = 1 and B = 64]) (auto simp: gaps_ok_def calm_def ordinary_def)
    then have d: "tame (2 ^ 12) (fst (normal_draw rnd fzero ?sd d r))" using normal_tame [OF normal, of 64] by simp
    have "bound (of_int (int (Suc k) * 2 ^ 12))" using k by (intro bound_of_int) simp_all
    then show ?thesis
      unfolding eq using s(1) d
      by (intro tame_fadd [where A = "of_int (int k * 2 ^ 12)" and B = "2 ^ 12"]) (auto simp: calm_def algebra_simps)
  qed
  then show ?thesis
    using s T(1) advance_fields(5) [of lib rnd seconds ?stamp ?s] by (auto simp: calm_def advance_fields)
qed

subsection \<open>Every callback returns\<close>

lemma yaw_tame: "\<forall>y x. tame 4 (m_atan2 lib y x) \<Longrightarrow> tame 4 (yaw_from_quaternion lib q)"
  by (simp add: yaw_from_quaternion_def Let_def)

lemma white_noise_tame:
  "within_64_sigma rnd \<Longrightarrow> upto_size 16 sd \<Longrightarrow> tame (2 ^ 10) (fst (white_noise rnd sd s))"
  using normal_tame [of rnd 16 sd] by (simp add: white_noise_def case_prod_unfold)

text \<open>The two angles of a measurement.\<close>

lemma relative_yaw_returns:
  assumes "tame 4 a" "tame 4 b"
  shows "\<exists>y. wrap_angle (fsub binary64 a b) = Some y \<and> tame 4 y"
proof (rule wrap_angle_tame)
  have "tame 8 (fsub binary64 a b)" using assms by (rule tame_fsub) simp_all
  then show "tame (pow2 30) (fsub binary64 a b)" by (rule tame_mono) simp
qed

lemma measured_yaw_returns:
  assumes "tame 4 i" "tame (2 ^ 11) c" "tame 4 y" "tame (of_int (int k * 2 ^ 12)) d" "tame (2 ^ 10) n" and k: "k \<le> 2 ^ 17"
  shows "\<exists>z. wrap_angle (fadd binary64 (fadd binary64 (fadd binary64 i (fmul binary64 c y)) d) n) = Some z"
proof -
  have "tame (2 ^ 13) (fmul binary64 c y)" using assms(2,3) by (rule tame_fmul) simp_all
  with assms(1) have "tame (2 ^ 14) (fadd binary64 i (fmul binary64 c y))" by (rule tame_fadd) simp_all
  moreover have "tame (2 ^ 29) d"
  proof (rule tame_mono [OF assms(4)])
    have "int k * 2 ^ 12 \<le> 2 ^ 29" using k by simp
    then have "of_int (int k * 2 ^ 12) \<le> (of_int (2 ^ 29) :: rat)" by (simp only: of_int_le_iff)
    then show "of_int (int k * 2 ^ 12) \<le> (2 ^ 29 :: rat)" by simp
  qed
  ultimately have "tame (2 ^ 29 + 2 ^ 14) (fadd binary64 (fadd binary64 i (fmul binary64 c y)) d)"
    by (rule tame_fadd) simp_all
  from this assms(5) have "tame (2 ^ 30) (fadd binary64 (fadd binary64 (fadd binary64 i (fmul binary64 c y)) d) n)"
    by (rule tame_fadd) simp_all
  then show ?thesis using wrap_angle_tame by auto
qed

lemma measurement_returns:
  assumes calm: "calm T k s" and k: "k \<le> 2 ^ 17"
    and atan2: "\<forall>y x. tame 4 (m_atan2 lib y x)" and normal: "within_64_sigma rnd"
  shows "\<exists>v s'. make_measurement lib rnd truth s = Some (v, s') \<and> calm T k s'"
proof -
  obtain y where y: "wrap_angle (fsub binary64 (yaw_from_quaternion lib (odom_q truth)) (initial_yaw s)) = Some y" "tame 4 y"
    using relative_yaw_returns yaw_tame [OF atan2] calm unfolding calm_def by blast
  obtain n s1 where n: "white_noise rnd (yaw_noise_std (vio_model s)) s = (n, s1)" by fastforce
  have s1: "initial_yaw s1 = initial_yaw s" "yaw_scale s1 = yaw_scale s" "yaw_drift s1 = yaw_drift s" "calm T k s1"
    using n calm calm_draws(1) [of T k rnd "yaw_noise_std (vio_model s)" s] by (auto simp: white_noise_def split: prod.splits)
  have "tame (2 ^ 10) n"
    using white_noise_tame [OF normal, of "yaw_noise_std (vio_model s)" s] n calm by (simp add: calm_def ordinary_def)
  then obtain z where z: "wrap_angle (fadd binary64 (fadd binary64 (fadd binary64 (initial_yaw s)
      (fmul binary64 (yaw_scale s) y)) (yaw_drift s)) n) = Some z"
    using measured_yaw_returns [OF _ _ y(2) _ _ k] calm unfolding calm_def by blast
  show ?thesis
    using y(1) n z s1 by (simp add: make_measurement_def Let_def case_prod_unfold)
qed

lemma outlier_returns:
  assumes calm: "calm T k s" and atan2: "\<forall>y x. tame 4 (m_atan2 lib y x)" and normal: "within_64_sigma rnd"
  shows "\<exists>v s'. make_outlier lib rnd vio s = Some (v, s') \<and> calm T k s'"
proof -
  let ?m = "vio_model s"
  obtain nx s1 where x: "white_noise rnd (outlier_position_std ?m) s = (nx, s1)" by fastforce
  obtain ny s2 where y: "white_noise rnd (outlier_position_std ?m) s1 = (ny, s2)" by fastforce
  obtain n s3 where n: "white_noise rnd (outlier_yaw_std ?m) s2 = (n, s3)" by fastforce
  have "tame (2 ^ 10) n"
    using white_noise_tame [OF normal, of "outlier_yaw_std ?m" s2] n calm by (simp add: calm_def ordinary_def)
  then have "tame (2 ^ 11) (fadd binary64 (yaw_from_quaternion lib (odom_q vio)) n)"
    using yaw_tame [OF atan2] by (intro tame_fadd [where A = 4 and B = "2 ^ 10"]) simp_all
  then have "tame (pow2 30) (fadd binary64 (yaw_from_quaternion lib (odom_q vio)) n)" by (rule tame_mono) simp
  then obtain z where "wrap_angle (fadd binary64 (yaw_from_quaternion lib (odom_q vio)) n) = Some z"
    using wrap_angle_tame by blast
  moreover have "calm T k s3"
    using calm x y n by (metis calm_draws(1) snd_conv)
  ultimately show ?thesis using x y n by (simp add: make_outlier_def Let_def)
qed

lemma truth_returns:
  assumes calm: "calm T k s" and k: "k < 2 ^ 17" and T: "odom_stamp truth \<in> T" "gaps_ok lib seconds T"
    and atan2: "\<forall>y x. tame 4 (m_atan2 lib y x)" and normal: "within_64_sigma rnd"
  shows "\<exists>m s'. truth_message lib rnd seconds truth s = Some (m, s') \<and> calm T (Suc k) s'"
proof -
  let ?s = "advance_drift lib rnd seconds (odom_stamp truth) (initialize_from lib truth s)"
  have later: "calm T (Suc k) s"
    using calm by (auto simp: calm_def elim: tame_mono)
  have s1: "calm T (Suc k) (snd (unit_uniform rnd ?s))"
    using calm_advance [OF assms] by simp
  then obtain v s2 where v: "make_measurement lib rnd truth (snd (unit_uniform rnd ?s)) = Some (v, s2)" "calm T (Suc k) s2"
    using measurement_returns [OF s1 _ atan2 normal] k by fastforce
  obtain v' s3 where "make_outlier lib rnd v (snd (unit_uniform rnd s2)) = Some (v', s3)" "calm T (Suc k) s3"
    using outlier_returns [OF _ atan2 normal, of T "Suc k" "snd (unit_uniform rnd s2)" v] v(2) by auto
  then show ?thesis
    using later s1 v by (auto simp: truth_message_def Let_def case_prod_unfold)
qed

lemma step_returns:
  assumes calm: "calm T k s" and k: "k < 2 ^ 17" and T: "\<forall>m. e = Truth m \<longrightarrow> odom_stamp m \<in> T" "gaps_ok lib seconds T"
    and atan2: "\<forall>y x. tame 4 (m_atan2 lib y x)" and normal: "within_64_sigma rnd"
  shows "\<exists>out s'. vio_step lib rnd seconds e s = Some (out, s') \<and> calm T (Suc k) s'"
proof (cases e)
  case (Truth m)
  then obtain v s' where "truth_message lib rnd seconds m s = Some (v, s')" "calm T (Suc k) s'"
    using truth_returns [OF calm k _ T(2) atan2 normal] T(1) by blast
  then show ?thesis
    by (auto simp: Truth truth_callback_def publish_due_messages_def case_prod_unfold split: option.split)
next
  case (Tick t)
  have "calm T (Suc k) s" using calm by (auto simp: calm_def elim: tame_mono)
  then show ?thesis by (simp add: Tick publish_due_messages_def case_prod_unfold)
qed

lemma run_returns:
  assumes "calm T k s" "k + length es \<le> 2 ^ 17" "\<forall>m. Truth m \<in> set es \<longrightarrow> odom_stamp m \<in> T" "gaps_ok lib seconds T"
    and "\<forall>y x. tame 4 (m_atan2 lib y x)" "within_64_sigma rnd"
  shows "\<exists>outs s'. vio_run lib rnd seconds es s = Some (outs, s')"
  using assms(1-3)
proof (induction es arbitrary: k s)
  case (Cons e es)
  then obtain out s1 where s1: "vio_step lib rnd seconds e s = Some (out, s1)" "calm T (Suc k) s1"
    using step_returns [OF Cons.prems(1) _ _ assms(4-6), of e] by auto
  then obtain outs s' where "vio_run lib rnd seconds es s1 = Some (outs, s')"
    using Cons.IH [OF s1(2)] Cons.prems by auto
  with s1 show ?case by simp
qed simp

lemma new_node_fields:
  assumes "new_SyntheticVio rnd r1 r2 p seed = Done s"
  obtains d r where "initial_yaw s = fzero" "yaw_drift s = fzero" "\<not> initialized s"
    "yaw_scale s = fadd binary64 (dlit 1) (fmul binary64 (yaw_scale_std (vio_model s)) (fst (normal_draw rnd fzero (dlit 1) d r)))"
proof -
  have "validate_parameters p seed = Done ()"
    using assms by (cases "validate_parameters p seed") (simp_all add: new_SyntheticVio_def)
  with assms show ?thesis
    by (intro that) (auto simp: new_SyntheticVio_def sample_run_calibration_def initialize_random_streams_def Let_def
        case_prod_unfold)
qed

lemma new_node_calm:
  assumes new: "new_SyntheticVio rnd r1 r2 p seed = Done s" and ord: "ordinary (vio_model s)"
    and normal: "within_64_sigma rnd"
  shows "calm T 0 s"
proof (rule new_node_fields [OF new])
  fix d r
  let ?n = "fst (normal_draw rnd fzero (dlit 1) d r)"
  assume s: "initial_yaw s = fzero" "yaw_drift s = fzero" "\<not> initialized s"
    "yaw_scale s = fadd binary64 (dlit 1) (fmul binary64 (yaw_scale_std (vio_model s)) ?n)"
  have one: "upto_size 1 (dlit 1)" by code_simp
  then have "tame 64 ?n" using normal_tame [OF normal, of 1] by simp
  then have "tame 1024 (fmul binary64 (yaw_scale_std (vio_model s)) ?n)"
    using ord by (intro tame_fmul [where A = 16 and B = 64]) (auto simp: ordinary_def upto_size_tame)
  then have "tame 2048 (yaw_scale s)"
    using one unfolding s(4) by (intro tame_fadd [where A = 1 and B = 1024]) (simp_all add: upto_size_tame)
  then show ?thesis using s ord by (simp add: calm_def fzero_def)
qed

text \<open>
  C34: A node that starts with standard deviations of at most 16 rad (1 rad per root second for the
  drift of the yaw) never hangs in a run of at most 2^17 callbacks whose true poses span a time with
  a root of at most 64 root seconds: with an \<open>atan2\<close> of magnitude at most 4 and normal draws within 64
  standard deviations, every callback returns, for every order of true poses and ticks, also when
  their coordinates are infinite or not numbers.
\<close>

theorem vio_run_returns:
  assumes node: "new_SyntheticVio rnd r1 r2 p seed = Done s"
    and model: "upto_size 16 (yaw_noise_std (vio_model s))" "upto_size 16 (yaw_scale_std (vio_model s))"
      "upto_size 16 (outlier_yaw_std (vio_model s))" "upto_size 1 (yaw_drift_rw_std (vio_model s))"
    and count: "length es \<le> 2 ^ 17"
    and gaps: "\<forall>a b. Truth a \<in> set es \<longrightarrow> Truth b \<in> set es \<longrightarrow> flt fzero (seconds (odom_stamp a - odom_stamp b)) \<longrightarrow>
      upto_size 64 (m_sqrt lib (seconds (odom_stamp a - odom_stamp b)))"
    and atan2: "\<forall>y x. tame 4 (m_atan2 lib y x)"
    and normal: "\<forall>t m d r. 0 \<le> m \<longrightarrow> tame (64 * m) (fst (normal_draw rnd fzero (FFin t m) d r))"
  shows "\<exists>outs s'. vio_run lib rnd seconds es s = Some (outs, s')"
proof (rule run_returns)
  let ?T = "{odom_stamp m | m. Truth m \<in> set es}"
  show "calm ?T 0 s"
    using node by (rule new_node_calm) (use model normal in \<open>simp_all add: ordinary_def within_64_sigma_def\<close>)
  show "gaps_ok lib seconds ?T" using gaps by (auto simp: gaps_ok_def)
  show "\<forall>m. Truth m \<in> set es \<longrightarrow> odom_stamp m \<in> ?T" by blast
qed (use count atan2 normal in \<open>simp_all add: within_64_sigma_def\<close>)

lemma vio_run_returns_witness:
  "\<exists>outs s'. vio_run still_lib still_random still_seconds late_run late_node = Some (outs, s')"
proof (rule vio_run_returns [OF late_node_is_new])
  have "upto_size 16 (dlit 0.02)" "upto_size 16 (dlit 0.005)" "upto_size 16 (dlit 0.35)" "upto_size 1 (dlit 0.003)"
    by code_simp+
  then show "upto_size 16 (yaw_noise_std (vio_model late_node))" "upto_size 16 (yaw_scale_std (vio_model late_node))"
      "upto_size 16 (outlier_yaw_std (vio_model late_node))" "upto_size 1 (yaw_drift_rw_std (vio_model late_node))"
    by (simp_all add: late_node_def late_params_def default_params_def default_NoiseModel_def)
  have "upto_size 64 (dlit 1)" by code_simp
  then show "\<forall>a b. Truth a \<in> set late_run \<longrightarrow> Truth b \<in> set late_run \<longrightarrow>
      flt fzero (still_seconds (odom_stamp a - odom_stamp b)) \<longrightarrow>
      upto_size 64 (m_sqrt still_lib (still_seconds (odom_stamp a - odom_stamp b)))"
    by (simp add: still_lib_def still_seconds_def fzero_def)
qed (simp_all add: late_run_def still_lib_def still_random_def fzero_def)

end
