(* ===== verification/Spec2Isabelle.thy ===== *)
theory Spec2Isabelle
  imports Shared_Bus Error_Text Odesc_Emulator Gps_Properties Teleop_Sides Planner Vio_Returns
begin

text \<open>
  A verification development of the C++ code of the BILLEE rover (the packages under
  \<open>src/ros2\_ws/src\<close>).

  \<^bold>\<open>The program.\<close> The rover runs ROS 2. Two ros2\_control plugins drive the hardware over a CAN bus:
  \<open>odesc\<close> the six wheels (ODrive CANSimple, velocity commands) and \<open>pxx\<close> the arm (CANopen, position
  commands). Each plugin has an abstract backend with two implementations, a mock that integrates
  its commands and one on a SocketCAN transport with a receive thread. Around them stand nodes that
  exchange messages: \<open>teleop\<close> turns a joystick into velocities, \<open>comms\<close> reads a GPS receiver on a
  serial line, \<open>navigation\<close> holds a straight-line planner for Nav2, and \<open>perception/zed2i\<close> turns the
  simulator's true poses into noisy visual odometry.

  \<^bold>\<open>Foundations.\<close> Theory \<open>Prelude\<close>: machine integers as words, the \<open>outcome\<close> of an operation (a value,
  undefined behaviour, an exception, the end of the process) and byte lists. \<open>IEEE754\<close>, \<open>Float\_Bits\<close>
  and \<open>Rounding\<close>: \<open>float\<close> and \<open>double\<close> with their rounding, infinities, NaN and signed zeros as exact
  rationals, the encoding in 32 bits, and error bounds of chains of operations. \<open>Cpp\_Std\<close>: \<open>std::stoi\<close>
  and \<open>std::stod\<close>. \<open>Socket\_Can\<close>: the kernel's descriptors and frames; \<open>Ros\_Control\<close>: the data
  handed to a plugin.

  \<^bold>\<open>Interfaces.\<close> Four contracts are locales, each interpreted on the code's own definitions:
  \<open>socket\_transport\<close> (\<open>Socket\_Can\<close>), kept by the transports of \<open>odesc/can.hpp\<close> and \<open>pxx/can.hpp\<close>;
  \<open>joint\_backend\<close> (\<open>Backend\_Interface\<close>), kept by all four backends and by the virtual calls that pick
  one; \<open>hardware\_plugin\<close> (\<open>Plugin\_Lifecycle\<close>), kept by both plugins under a controller manager that
  may call in any order the lifecycle allows; \<open>bus\_speaker\<close> (\<open>Bus\_Speaker\<close>), what a plugin can put on
  a bus and which frames it does not hear, kept by both plugins (\<open>Drive\_Bus\<close>, \<open>Arm\_Bus\<close>).

  \<^bold>\<open>The drivetrain.\<close> \<open>Odesc\_Can\<close> models \<open>odesc/can.hpp\<close>, \<open>Odesc\_Backend\<close> the backends of
  \<open>odesc/src/mock\_drive\_backend.cpp\<close> and \<open>odesc/src/socketcan\_drive\_backend.cpp\<close>, \<open>Odesc\_Hardware\<close> the
  plugin of \<open>odesc/src/odesc.cpp\<close>. \<open>Drive\_Properties\<close>: every history of callbacks, commands and
  received frames is free of undefined behaviour and leaks nothing; the frames on the bus for each
  command; what \<open>read\<close> reports for any sequence of received frames; the configurations \<open>on\_init\<close>
  accepts. \<open>Odesc\_Emulator\<close> models \<open>odesc/scripts/odesc\_vcan\_emulator.py\<close>, the Python stand-in for the
  motor controllers, and closes the loop: a command written by the plugin, carried over the bus to
  the emulator and back, is read at its value within a relative error of a float.

  \<^bold>\<open>The arm.\<close> \<open>Pxx\_Can\<close> models \<open>pxx/can.hpp\<close>, \<open>Pxx\_Backend\<close> the backends under \<open>pxx/src\<close>, \<open>Pxx\_Hardware\<close>
  the plugin of \<open>pxx/src/pxx.cpp\<close>. The receive thread and a waiting SDO transaction interleave by an
  explicit schedule, a list of receive attempts and evaluations of the predicate for each
  transaction. \<open>Pxx\_Dialogue\<close> has the lemmas on the configuration dialogue, \<open>Arm\_Properties\<close> the
  properties: what activation sends and when it succeeds, that a drive is never enabled before its
  target is the position it holds, that failure undoes itself, that transactions believe only their
  own answers, the control cycle, the conversions, and the histories as for the drivetrain.
  \<open>Arm\_Examples\<close> holds them at concrete inputs. The two transports are equivalent where the code of
  one repeats that of the other. \<open>Error\_Text\<close> has the messages of all errors: those that name a node of
  the arm are unambiguous.

  \<^bold>\<open>Both on one bus.\<close> \<open>Shared\_Bus\<close> composes the two plugins: the frames each can ever put on the bus,
  and that, with suitable node numbers, every run of one is the same with and without the other's
  traffic, also inside the arm's configuration dialogue; with wheels numbered 4 to 7 the arm takes
  their messages for emergencies of its own drives.

  \<^bold>\<open>The nodes.\<close> \<open>Gps\_Device\<close> models \<open>comms/SerialDevice.hpp\<close>, \<open>Gps\_Node\<close> models \<open>comms/Gps.hpp\<close> and
  \<open>comms/src/GpsNode.cpp\<close>; \<open>Gps\_Properties\<close> shows that the node refines an abstract pairing, and what
  it does with failing reads and uninitialised memory. \<open>Teleop\<close> models \<open>teleop/src/joy\_teleop.cpp\<close>:
  nothing moves without the safety button, speeds are bounded; \<open>Teleop\_Sides\<close>: each side of the rover
  gets the speed of its stick. \<open>Planner\<close> models
  \<open>navigation/src/straight\_line\_planner.cpp\<close>: the shape of a plan, its points near the line.
  \<open>Vio\_Geometry\<close> models \<open>zed2i/geometry\_utils.hpp\<close>, where \<open>wrap\_angle\<close> may run forever and returns
  for every angle of at most 2^30 rad; \<open>Vio\_Seeds\<close> and \<open>Vio\_Node\<close> model
  \<open>zed2i/src/synthetic\_vio\_node.cpp\<close>; \<open>Vio\_Properties\<close> treats whole runs of that node,
  \<open>Vio\_Examples\<close> has concrete ones, and \<open>Vio\_Returns\<close> shows that none of its callbacks hangs while the
  library draws ordinary numbers.

  \<^bold>\<open>Inputs and parameters.\<close> Arguments of the definitions, free in every theorem: the results of system
  calls and the frames a socket delivers; what the stack holds before a read and the uninitialised
  member \<open>tolSec\<close>; clocks; the joysticks' messages; \<open>lround\<close> outside the range of its result;
  \<open>hypot\<close>, the trigonometric functions and \<open>sqrt\<close>; \<open>cfmakeraw\<close> and \<open>cfsetspeed\<close>; the engines and
  distributions of \<open>std::random\<close>; what \<open>strerror\<close> says; the seconds of an \<open>rclcpp::Duration\<close>. Where a theorem needs more of
  one of them (a uniform draw lies in its range, a normal one within 64 standard deviations) it is a
  hypothesis of that theorem. The kernel never delivers a classic frame of more than eight bytes, so the copy in
  \<open>receive\<close> stays in its buffer.

  \<^bold>\<open>Bounds.\<close> No definition takes fuel: loops over containers are structural, waits follow their finite
  schedule, the two loops of \<open>wrap\_angle\<close> are partial functions whose \<open>None\<close> is a loop that runs
  forever. Integers have their width, or are \<open>int\<close> with the range check written out.

  \<^bold>\<open>Not modelled.\<close> The \<open>main\<close> functions, publishers, subscriptions and timers (a run is a list of
  callbacks), log messages other than the text of errors (an error is a constructor, \<open>Error\_Text\<close> gives
  its text), message types
  beyond the fields used, the ordering that mutexes and atomics give beyond the interleavings above,
  the unit test of the payload sizes; launch files, the robot description in xacro, configuration,
  containers and shell tooling.
\<close>

end
